(* ===== verification/Prelude.thy ===== *)
theory Prelude
  imports Main "HOL-Library.Word"
begin

text \<open>
  Shared vocabulary of the naming-index development: the machine integer types of the
  Rust code (\<open>i64\<close> keys and file ids, \<open>u8\<close> bytes of hash input), the
  collection of rewrite rules that evaluate the model on concrete databases, and the
  generic facts about partial maps and word arithmetic that the component theories share.
\<close>

named_theorems index_simps "rules that evaluate the index model on concrete inputs"

type_synonym i64 = "64 word"
type_synonym u64 = "64 word"
type_synonym u8 = "8 word"

text \<open>A SQL table keyed by an integer primary key, as a partial map.\<close>

type_synonym 'v table = "i64 \<rightharpoonup> 'v"

text \<open>
  A run of a step function \<open>f\<close> in which every step satisfies a guard \<open>P\<close> on the
  state it starts from: the discipline a caller keeps along a run.
\<close>

fun all_steps :: "('s \<Rightarrow> 'a \<Rightarrow> bool) \<Rightarrow> ('s \<Rightarrow> 'a \<Rightarrow> 's) \<Rightarrow> 's \<Rightarrow> 'a list \<Rightarrow> bool" where
  "all_steps P f s [] = True"
| "all_steps P f s (a # as) = (P s a \<and> all_steps P f (f s a) as)"

subsection \<open>Guarded runs\<close>

text \<open>An invariant of every guarded step is an invariant of every guarded run.\<close>

lemma guarded_run_invariant:
  assumes step: "\<And>s a. Q s \<Longrightarrow> P s a \<Longrightarrow> Q (f s a)"
  shows "Q s \<Longrightarrow> all_steps P f s as \<Longrightarrow> Q (foldl f s as)"
proof (induction as arbitrary: s)
  case Nil
  then show ?case by simp
next
  case (Cons a as)
  then have "Q (f s a)" by (simp add: step)
  with Cons show ?case by simp
qed

subsection \<open>Partial maps\<close>

lemma map_le_upd_fresh [intro]:
  "k \<notin> dom m \<Longrightarrow> m \<subseteq>\<^sub>m m(k \<mapsto> v)"
  by (auto simp: map_le_def)



lemma dom_map_upds_replicate [simp]:
  "dom (m(ks [\<mapsto>] replicate (length ks) v)) = set ks \<union> dom m"
  by (simp add: dom_map_upds)

lemma map_upds_replicate_apply:
  "k \<in> set ks \<Longrightarrow> (m(ks [\<mapsto>] replicate (length ks) v)) k = Some v"
proof (induction ks arbitrary: m)
  case Nil
  then show ?case by simp
next
  case (Cons a ks)
  show ?case
  proof (cases "k \<in> set ks")
    case True
    with Cons.IH show ?thesis by simp
  next
    case False
    with Cons.prems have "k = a" by simp
    with False show ?thesis by (simp add: map_upds_apply_nontin)
  qed
qed

lemma map_upds_replicate_other:
  "k \<notin> set ks \<Longrightarrow> (m(ks [\<mapsto>] replicate (length ks) v)) k = m k"
  by (simp add: map_upds_apply_nontin)


lemma map_upds_replicate_snoc:
  "m(xs @ [x] [\<mapsto>] replicate (Suc (length xs)) v) = (m(xs [\<mapsto>] replicate (length xs) v))(x \<mapsto> v)"
  by (induction xs arbitrary: m) simp_all

lemma map_upds_take_Suc:
  assumes "k < length xs"
  shows "m(map f (take (Suc k) xs) [\<mapsto>] replicate (Suc k) v) =
    (m(map f (take k xs) [\<mapsto>] replicate k v))(f (xs ! k) \<mapsto> v)"
proof -
  have len: "length (map f (take k xs)) = k" using assms by simp
  from assms have take: "take (Suc k) xs = take k xs @ [xs ! k]" by (rule take_Suc_conv_app_nth)
  show ?thesis
    unfolding take map_append list.map
    using map_upds_replicate_snoc [of m "map f (take k xs)" "f (xs ! k)" v] unfolding len .
qed

declare map_upds_replicate_apply [index_simps] map_upds_replicate_other [index_simps]

subsection \<open>Results\<close>

lemma map_sum_id_Some_eq_Inr [simp]:
  "map_sum id Some x = Inr (Some y) \<longleftrightarrow> x = Inr y"
  by (cases x) auto

subsection \<open>Words\<close>

lemma unat_ucast_8_64 [simp]:
  "unat (ucast (b :: u8) :: u64) = unat b"
proof -
  have "unat b < 2 ^ 8" using unsigned_less [of b] by simp
  then have "unat b < 2 ^ 64" by simp
  then show ?thesis by (simp add: unsigned_ucast_eq take_bit_nat_eq_self)
qed

lemma unat_of_char_u8 [simp]:
  "unat (of_char c :: u8) = of_char c"
proof -
  have "(of_char c :: u8) = word_of_nat (of_char c)"
    by (rule of_nat_of_char [symmetric])
  then have "unat (of_char c :: u8) = of_char c mod 2 ^ 8"
    by (simp only: unat_of_nat len_num1 len_bit0) (simp add: take_bit_eq_mod)
  then show ?thesis by simp
qed

lemma char_of_unat_of_char [simp]:
  "char_of (unat (of_char c :: u8)) = c"
  by simp

end
