(* ===== verification/DepHash.thy ===== *)
theory DepHash
  imports Prelude
begin

text \<open>
  The identity hasher: \<open>convert::name_to_hash\<close> over
  \<open>typing_deps_hash::DepType\<close>, called by every operation of the constants index.
  Its code is not part of the modelled sources, so it is modelled from the
  specification: a dependency kind is a tag byte, the hash input is the tag followed
  by the UTF-8 bytes of the name, the string hash is 64-bit FNV-1a, and the
  \<open>u64\<close> result is reinterpreted as the \<open>i64\<close> primary key (same bits).
  The theory proves that the hash input encodes the kind and the name without loss
  (a decoder recovers both), that the wrapping word arithmetic agrees with
  arithmetic modulo \<open>2^64\<close>, and that the kinds separate a sample of names.
\<close>

unbundle bit_operations_syntax

subsection \<open>Dependency kinds\<close>

datatype dep_type =
    GConst | Fun | Type | Extends | RecordDef | Const | Method | SMethod
  | Prop | SProp | AllMembers | GConstName

fun dep_type_tag :: "dep_type \<Rightarrow> u8" where
  "dep_type_tag GConst = 0"
| "dep_type_tag Fun = 1"
| "dep_type_tag Type = 2"
| "dep_type_tag Extends = 3"
| "dep_type_tag RecordDef = 4"
| "dep_type_tag Const = 5"
| "dep_type_tag Method = 6"
| "dep_type_tag SMethod = 7"
| "dep_type_tag Prop = 8"
| "dep_type_tag SProp = 9"
| "dep_type_tag AllMembers = 10"
| "dep_type_tag GConstName = 11"

definition all_dep_types :: "dep_type list" where
  "all_dep_types =
     [GConst, Fun, Type, Extends, RecordDef, Const, Method, SMethod,
      Prop, SProp, AllMembers, GConstName]"

text \<open>\<open>FromPrimitive\<close> on the tag: the kind with that discriminant, if any.\<close>

definition dep_type_of_tag :: "u8 \<Rightarrow> dep_type option" where
  "dep_type_of_tag t =
     (if unat t < length all_dep_types then Some (all_dep_types ! unat t) else None)"

subsection \<open>FNV-1a over bytes\<close>

text \<open>One step: xor the byte into the state, multiply by the 64-bit FNV prime (wrapping).\<close>

definition fnv_write_u8 :: "u64 \<Rightarrow> u8 \<Rightarrow> u64" where
  "fnv_write_u8 h b = (h XOR ucast b) * 1099511628211"

definition fnv_write :: "u64 \<Rightarrow> u8 list \<Rightarrow> u64" where
  "fnv_write h bs = foldl fnv_write_u8 h bs"

subsection \<open>The hash of a kind and a name\<close>

text \<open>
  The tag byte, then \<open>str::as_bytes\<close> of the name: a Rust string is its UTF-8 bytes and
  a HOL \<open>char\<close> is one byte.
\<close>

definition hash_input :: "dep_type \<Rightarrow> string \<Rightarrow> u8 list" where
  "hash_input k name = dep_type_tag k # map of_char name"

text \<open>
  \<open>convert::name_to_hash\<close>: FNV-1a from the offset basis over the hash input; the
  \<open>u64\<close> result is cast \<open>as i64\<close>, which keeps the bits.
\<close>

definition name_to_hash :: "dep_type \<Rightarrow> string \<Rightarrow> i64" where
  "name_to_hash k name = fnv_write 14695981039346656037 (hash_input k name)"

lemmas hash_defs [index_simps] =
  name_to_hash_def hash_input_def fnv_write_def fnv_write_u8_def

subsection \<open>Reference definitions for the proofs\<close>

text \<open>Decoding the hash input back into a kind and a name.\<close>

definition decode_hash_input :: "u8 list \<Rightarrow> (dep_type \<times> string) option" where
  "decode_hash_input bs =
     (case bs of
        [] \<Rightarrow> None
      | t # rest \<Rightarrow> map_option (\<lambda>k. (k, map (\<lambda>b. char_of (unat b)) rest)) (dep_type_of_tag t))"

text \<open>FNV-1a written with natural numbers and the wrap-around spelled out.\<close>

fun fnv_ref :: "nat \<Rightarrow> nat list \<Rightarrow> nat" where
  "fnv_ref h [] = h"
| "fnv_ref h (b # bs) = fnv_ref (((h XOR b) * 1099511628211) mod 2 ^ 64) bs"

subsection \<open>Lemmas\<close>

lemma dep_type_of_tag_tag [simp]:
  "dep_type_of_tag (dep_type_tag k) = Some k"
  by (cases k) (simp_all add: dep_type_of_tag_def all_dep_types_def)





lemma unat_fnv_write_u8:
  "unat (fnv_write_u8 h b) = ((unat h XOR unat b) * 1099511628211) mod 2 ^ 64"
  by (simp add: fnv_write_u8_def unat_word_ariths unsigned_xor_eq)

lemma hash_input_decode:
  "decode_hash_input (hash_input k name) = Some (k, name)"
proof -
  have "map (\<lambda>b. char_of (unat b)) (map of_char name :: u8 list) = name"
    by (induction name) simp_all
  then show ?thesis by (simp add: decode_hash_input_def hash_input_def)
qed

lemma hash_input_inj:
  "hash_input k1 n1 = hash_input k2 n2 \<longleftrightarrow> k1 = k2 \<and> n1 = n2"
  by (metis hash_input_decode option.inject prod.inject)

subsection \<open>Properties of the hasher\<close>

text \<open>
  The hash input is a lossless encoding of the kind and the name: decoding it
  returns both, so two different (kind, name) pairs always give different inputs and
  can share a hash only through a collision of FNV-1a itself.
\<close>

theorem hash_input_roundtrip:
  "decode_hash_input (hash_input k name) = Some (k, name) \<and>
   (hash_input k1 n1 = hash_input k2 n2 \<longleftrightarrow> k1 = k2 \<and> n1 = n2)"
  by (simp add: hash_input_decode hash_input_inj)

text \<open>
  The wrapping 64-bit FNV-1a loop computes, read as an unsigned number, the same
  value as FNV-1a over natural numbers with every product reduced modulo \<open>2^64\<close>.
\<close>

theorem fnv_write_ref:
  "unat (fnv_write h bs) = fnv_ref (unat h) (map unat bs)"
proof (induction bs arbitrary: h)
  case Nil
  then show ?case by (simp add: fnv_write_def)
next
  case (Cons b bs)
  have "unat (fnv_write h (b # bs)) = unat (fnv_write (fnv_write_u8 h b) bs)"
    by (simp add: fnv_write_def)
  also have "\<dots> = fnv_ref (unat (fnv_write_u8 h b)) (map unat bs)"
    by (rule Cons.IH)
  finally show ?case by (simp add: unat_fnv_write_u8)
qed

text \<open>
  Kind separation on a sample: for each of the names Foo, Bar, A, B, C and the
  empty name, the twelve dependency kinds give twelve different hashes.
\<close>

theorem name_to_hash_kinds_separate:
  "list_all (\<lambda>n. distinct (map (\<lambda>k. name_to_hash k n) all_dep_types))
     [''Foo'', ''Bar'', ''A'', ''B'', ''C'', '''']"
  by code_simp

end
