(* ===== verification/Sqlite.thy ===== *)
theory Sqlite
  imports Prelude
begin

text \<open>
  The storage engine as the constants index sees it through \<open>rusqlite\<close>: a
  connection holds the tables \<open>NAMING_CONSTS\<close> (owned by the index) and
  \<open>NAMING_FILE_INFO\<close> (owned by the file-location store), each either absent or a
  map from its integer primary key to its row. SQLite values are dynamically typed, so
  a column holds a \<open>sql_value\<close>. The definitions here give the meaning of the three
  SQL statements written in \<open>consts.rs\<close>: \<open>CREATE TABLE IF NOT EXISTS\<close>, a plain
  \<open>INSERT\<close> into a table whose \<open>HASH INTEGER PRIMARY KEY\<close> is the rowid (a
  duplicate key is a constraint error, not an overwrite), and the \<open>SELECT\<close> with a
  \<open>LEFT JOIN\<close> (a dangling file id yields a row of \<open>NULL\<close>s, not no row).
  Preparing a statement that names an absent table fails with \<open>no such table\<close>.
  \<open>StorageFailure\<close> stands for any failure of the engine itself (I/O, a full disk, a
  busy lock), which the theory \<open>Storage_Faults\<close> lets any statement raise.
\<close>

datatype sql_value = SqlNull | SqlInteger i64 | SqlText string

datatype sqlite_error =
    NoSuchTable string
  | PrimaryKeyViolation i64
  | InvalidColumnType nat
  | IntegralValueOutOfRange nat int
  | StorageFailure

record file_info_row =
  path_prefix_type :: sql_value
  path_suffix :: sql_value

record connection =
  naming_consts :: "i64 table option"
  naming_file_info :: "file_info_row table option"

text \<open>\<open>Connection::open_in_memory\<close>: a fresh database holds no table.\<close>

definition open_in_memory :: connection where
  "open_in_memory = \<lparr>naming_consts = None, naming_file_info = None\<rparr>"

subsection \<open>CREATE TABLE IF NOT EXISTS NAMING_CONSTS\<close>

definition exec_create_naming_consts :: "connection \<Rightarrow> connection" where
  "exec_create_naming_consts conn =
     (case naming_consts conn of
        None \<Rightarrow> conn\<lparr>naming_consts := Some Map.empty\<rparr>
      | Some _ \<Rightarrow> conn)"

subsection \<open>INSERT INTO NAMING_CONSTS (HASH, FILE_INFO_ID) VALUES (?, ?)\<close>

text \<open>Preparing the statement needs the table; executing it adds one row.\<close>

definition prepare_insert :: "connection \<Rightarrow> sqlite_error + i64 table" where
  "prepare_insert conn =
     (case naming_consts conn of
        None \<Rightarrow> Inl (NoSuchTable ''NAMING_CONSTS'')
      | Some t \<Rightarrow> Inr t)"

definition exec_insert_naming_consts :: "i64 \<Rightarrow> i64 \<Rightarrow> i64 table \<Rightarrow> sqlite_error + i64 table" where
  "exec_insert_naming_consts hash file_info_id t =
     (case t hash of
        None \<Rightarrow> Inr (t(hash \<mapsto> file_info_id))
      | Some _ \<Rightarrow> Inl (PrimaryKeyViolation hash))"

subsection \<open>SELECT \<dots> FROM NAMING_CONSTS LEFT JOIN NAMING_FILE_INFO \<dots> WHERE HASH = ?\<close>

definition prepare_select :: "connection \<Rightarrow> sqlite_error + i64 table \<times> file_info_row table" where
  "prepare_select conn =
     (case naming_consts conn of
        None \<Rightarrow> Inl (NoSuchTable ''NAMING_CONSTS'')
      | Some t \<Rightarrow>
          (case naming_file_info conn of
             None \<Rightarrow> Inl (NoSuchTable ''NAMING_FILE_INFO'')
           | Some fi \<Rightarrow> Inr (t, fi)))"

text \<open>
  The first result row, if any: the primary key makes it the only one. The left join
  keeps a constants row whose file id has no file row, with \<open>NULL\<close> columns.
\<close>

definition select_path_row ::
  "i64 table \<Rightarrow> file_info_row table \<Rightarrow> i64 \<Rightarrow> (sql_value \<times> sql_value) option" where
  "select_path_row t fi hash =
     (case t hash of
        None \<Rightarrow> None
      | Some file_info_id \<Rightarrow>
          (case fi file_info_id of
             None \<Rightarrow> Some (SqlNull, SqlNull)
           | Some r \<Rightarrow> Some (path_prefix_type r, path_suffix r)))"

lemmas sqlite_defs [index_simps] =
  open_in_memory_def exec_create_naming_consts_def prepare_insert_def
  exec_insert_naming_consts_def prepare_select_def select_path_row_def

subsection \<open>Lemmas\<close>



lemma exec_create_naming_consts_keeps:
  "naming_consts conn = Some t \<Longrightarrow> exec_create_naming_consts conn = conn"
  by (simp add: exec_create_naming_consts_def)

lemma exec_create_naming_consts_file_info [simp]:
  "naming_file_info (exec_create_naming_consts conn) = naming_file_info conn"
  by (simp add: exec_create_naming_consts_def split: option.splits)

lemma exec_insert_naming_consts_Inr:
  "exec_insert_naming_consts h f t = Inr t' \<longleftrightarrow> h \<notin> dom t \<and> t' = t(h \<mapsto> f)"
  by (auto simp: exec_insert_naming_consts_def split: option.splits)


end
