(* ===== verification/Datatypes.thy ===== *)
theory Datatypes
  imports Sqlite
begin

text \<open>
  The row types of the index crate (\<open>crate::datatypes\<close>) and the path type of
  \<open>oxidized::relative_path\<close>, which the lookup assembles from a result row. Their code
  is not among the modelled sources: they follow the specification's description (a
  path is a root category and a root-relative suffix). Reading a column with
  \<open>row.get(idx)\<close> runs the type's \<open>FromSql\<close> conversion and turns its failure into
  an error that names the column index. The theory proves that writing a prefix with
  its \<open>ToSql\<close> code and reading it back returns it, and that every other column value
  is rejected, never silently mapped to some prefix.
\<close>

datatype prefix = Root | Hhi | Dummy | Tmp

datatype relative_path = RelativePath prefix string

text \<open>\<open>RelativePath::make(prefix, suffix)\<close>.\<close>

definition relative_path_make :: "prefix \<Rightarrow> string \<Rightarrow> relative_path" where
  "relative_path_make p suffix = RelativePath p suffix"

datatype from_sql_error = InvalidType | OutOfRange int

text \<open>\<open>FromSql for SqlitePrefix\<close>: an integer column, 0 to 3, names the prefix.\<close>

definition sqlite_prefix_from_sql :: "sql_value \<Rightarrow> from_sql_error + prefix" where
  "sqlite_prefix_from_sql v =
     (case v of
        SqlInteger i \<Rightarrow>
          (if sint i = 0 then Inr Root
           else if sint i = 1 then Inr Hhi
           else if sint i = 2 then Inr Dummy
           else if sint i = 3 then Inr Tmp
           else Inl (OutOfRange (sint i)))
      | _ \<Rightarrow> Inl InvalidType)"

text \<open>\<open>ToSql for SqlitePrefix\<close>, used by the file-location store that writes the rows.\<close>

fun sqlite_prefix_to_sql :: "prefix \<Rightarrow> sql_value" where
  "sqlite_prefix_to_sql Root = SqlInteger 0"
| "sqlite_prefix_to_sql Hhi = SqlInteger 1"
| "sqlite_prefix_to_sql Dummy = SqlInteger 2"
| "sqlite_prefix_to_sql Tmp = SqlInteger 3"

text \<open>\<open>FromSql for SqlitePathBuf\<close>: a text column is the path suffix.\<close>

definition sqlite_path_from_sql :: "sql_value \<Rightarrow> from_sql_error + string" where
  "sqlite_path_from_sql v = (case v of SqlText s \<Rightarrow> Inr s | _ \<Rightarrow> Inl InvalidType)"

text \<open>\<open>Row::get(idx)\<close>: the conversion's failure becomes a \<open>rusqlite::Error\<close>.\<close>

definition row_get :: "nat \<Rightarrow> (sql_value \<Rightarrow> from_sql_error + 'a) \<Rightarrow> sql_value \<Rightarrow> sqlite_error + 'a" where
  "row_get idx conv v =
     (case conv v of
        Inr x \<Rightarrow> Inr x
      | Inl InvalidType \<Rightarrow> Inl (InvalidColumnType idx)
      | Inl (OutOfRange i) \<Rightarrow> Inl (IntegralValueOutOfRange idx i))"

lemmas datatypes_defs [index_simps] =
  relative_path_make_def sqlite_prefix_from_sql_def sqlite_path_from_sql_def row_get_def

subsection \<open>Lemmas\<close>

lemma sqlite_prefix_from_to_sql [simp]:
  "sqlite_prefix_from_sql (sqlite_prefix_to_sql p) = Inr p"
  by (cases p) (simp_all add: sqlite_prefix_from_sql_def)

lemma sqlite_prefix_to_sql_not_null [simp]:
  "sqlite_prefix_to_sql p \<noteq> SqlNull"
  by (cases p) simp_all

lemma sqlite_prefix_from_sql_Inr:
  "sqlite_prefix_from_sql v = Inr p \<longleftrightarrow> v = sqlite_prefix_to_sql p"
proof
  assume "sqlite_prefix_from_sql v = Inr p"
  then show "v = sqlite_prefix_to_sql p"
    by (cases v; cases p)
       (auto simp: sqlite_prefix_from_sql_def split: if_splits intro: signed_word_eqI)
next
  assume "v = sqlite_prefix_to_sql p"
  then show "sqlite_prefix_from_sql v = Inr p" by simp
qed

lemma row_get_Inr [simp]:
  "row_get idx conv v = Inr x \<longleftrightarrow> conv v = Inr x"
  by (simp add: row_get_def split: sum.splits from_sql_error.splits)

lemma row_get_null [simp]:
  "row_get idx sqlite_prefix_from_sql SqlNull = Inl (InvalidColumnType idx)"
  by (simp add: row_get_def sqlite_prefix_from_sql_def)

text \<open>
  Prefix column round trip: the prefix written by \<open>ToSql\<close> reads back as itself,
  and a column value reads as a prefix only if it is that prefix's code; \<open>NULL\<close>,
  text and integers outside 0 to 3 are errors.
\<close>

theorem sqlite_prefix_roundtrip:
  "sqlite_prefix_from_sql (sqlite_prefix_to_sql p) = Inr p \<and>
   (sqlite_prefix_from_sql v = Inr q \<longleftrightarrow> v = sqlite_prefix_to_sql q)"
  by (simp add: sqlite_prefix_from_sql_Inr)

end
