(* ===== verification/Consts.thy ===== *)
theory Consts
  imports DepHash Datatypes
begin

text \<open>
  The constants index of \<open>src/hphp/hack/src/name_index/sqlite/consts.rs\<close>: its three
  functions with the connection passed explicitly. Each function returns its
  \<open>Result\<close> as a sum (\<open>Inl\<close> a \<open>rusqlite::Error\<close>), and those that write
  return the connection as well: a write that happened before an error stays in
  the database, as in SQLite without an enclosing transaction. The \<open>for\<close> loop of
  \<open>insert\<close> is the structural recursion \<open>insert_loop\<close>, whose \<open>?\<close> stops at the first
  failed \<open>execute\<close>. The lemmas give every branch of each function: missing table,
  success, duplicate key (the collision policy: the earlier row stays, the later
  insert fails), the prefix left behind by a failed batch, and the four outcomes of
  the lookup.
\<close>

abbreviation const_hash :: "string \<Rightarrow> i64" where
  "const_hash \<equiv> name_to_hash GConst"

subsection \<open>create_table\<close>

definition create_table :: "connection \<Rightarrow> (sqlite_error + unit) \<times> connection" where
  "create_table conn = (Inr (), exec_create_naming_consts conn)"

subsection \<open>insert\<close>

fun insert_loop :: "i64 \<Rightarrow> string list \<Rightarrow> i64 table \<Rightarrow> (sqlite_error + unit) \<times> i64 table" where
  "insert_loop file_info_id [] t = (Inr (), t)"
| "insert_loop file_info_id (name # names) t =
     (let hash = name_to_hash GConst name in
      case exec_insert_naming_consts hash file_info_id t of
        Inl e \<Rightarrow> (Inl e, t)
      | Inr t' \<Rightarrow> insert_loop file_info_id names t')"

definition insert_consts ::
  "connection \<Rightarrow> i64 \<Rightarrow> string list \<Rightarrow> (sqlite_error + unit) \<times> connection" where
  "insert_consts conn file_info_id names =
     (case prepare_insert conn of
        Inl e \<Rightarrow> (Inl e, conn)
      | Inr t \<Rightarrow>
          (let (r, t') = insert_loop file_info_id names t
           in (r, conn\<lparr>naming_consts := Some t'\<rparr>)))"

subsection \<open>get_path\<close>

text \<open>The closure given to \<open>query_row\<close>: decode both columns, then build the path.\<close>

definition path_of_row :: "sql_value \<times> sql_value \<Rightarrow> sqlite_error + relative_path" where
  "path_of_row row =
     (case row_get 0 sqlite_prefix_from_sql (fst row) of
        Inl e \<Rightarrow> Inl e
      | Inr prefix \<Rightarrow>
          (case row_get 1 sqlite_path_from_sql (snd row) of
             Inl e \<Rightarrow> Inl e
           | Inr suffix \<Rightarrow> Inr (relative_path_make prefix suffix)))"

text \<open>\<open>query_row(\<dots>).optional()\<close>: no row is \<open>Ok(None)\<close>, a failing closure is an error.\<close>

definition get_path :: "connection \<Rightarrow> string \<Rightarrow> sqlite_error + relative_path option" where
  "get_path conn name =
     (case prepare_select conn of
        Inl e \<Rightarrow> Inl e
      | Inr (t, fi) \<Rightarrow>
          (let hash = name_to_hash GConst name in
           case select_path_row t fi hash of
             None \<Rightarrow> Inr None
           | Some row \<Rightarrow>
               (case path_of_row row of
                  Inl e \<Rightarrow> Inl e
                | Inr path \<Rightarrow> Inr (Some path))))"

subsection \<open>The unit test\<close>

text \<open>\<open>test_add_const\<close>: each \<open>unwrap\<close> panics on an error, so the test passes when the result is \<open>Inr ()\<close>.\<close>

definition test_add_const :: "sqlite_error + unit" where
  "test_add_const =
     (let conn = open_in_memory
      in case create_table conn of
           (Inl e, _) \<Rightarrow> Inl e
         | (Inr _, conn) \<Rightarrow> fst (insert_consts conn 123 [''Foo'']))"

lemmas consts_defs [index_simps] =
  create_table_def insert_consts_def path_of_row_def get_path_def test_add_const_def

subsection \<open>Lemmas on the insert loop\<close>

lemma insert_loop_Cons_fresh [index_simps]:
  "const_hash n \<notin> dom t \<Longrightarrow>
   insert_loop fid (n # ns) t = insert_loop fid ns (t(const_hash n \<mapsto> fid))"
  by (simp add: exec_insert_naming_consts_def domIff)

lemma insert_loop_Cons_clash [index_simps]:
  "const_hash n \<in> dom t \<Longrightarrow>
   insert_loop fid (n # ns) t = (Inl (PrimaryKeyViolation (const_hash n)), t)"
  by (auto simp: exec_insert_naming_consts_def)

declare insert_loop.simps(2) [simp del]

lemma insert_loop_mono:
  "t \<subseteq>\<^sub>m snd (insert_loop fid ns t)"
proof (induction ns arbitrary: t)
  case Nil
  then show ?case by simp
next
  case (Cons n ns)
  show ?case
  proof (cases "const_hash n \<in> dom t")
    case True
    then show ?thesis by (simp add: insert_loop_Cons_clash)
  next
    case False
    then have "t \<subseteq>\<^sub>m t(const_hash n \<mapsto> fid)" by blast
    also have "\<dots> \<subseteq>\<^sub>m snd (insert_loop fid ns (t(const_hash n \<mapsto> fid)))"
      by (rule Cons.IH)
    finally show ?thesis using False map_le_trans by (simp add: insert_loop_Cons_fresh)
  qed
qed

lemma insert_loop_Inr_iff:
  "fst (insert_loop fid ns t) = Inr () \<longleftrightarrow>
   distinct (map const_hash ns) \<and> set (map const_hash ns) \<inter> dom t = {}"
proof (induction ns arbitrary: t)
  case Nil
  then show ?case by simp
next
  case (Cons n ns)
  show ?case
  proof (cases "const_hash n \<in> dom t")
    case True
    then show ?thesis by (auto simp: insert_loop_Cons_clash)
  next
    case False
    then show ?thesis
      by (auto simp: insert_loop_Cons_fresh Cons.IH split: if_splits)
        (metis image_eqI, metis disjoint_iff domI image_eqI)
  qed
qed

lemma insert_loop_table_Inr:
  "fst (insert_loop fid ns t) = Inr () \<Longrightarrow>
   snd (insert_loop fid ns t) = t(map const_hash ns [\<mapsto>] replicate (length ns) fid)"
proof (induction ns arbitrary: t)
  case Nil
  then show ?case by simp
next
  case (Cons n ns)
  then have fresh: "const_hash n \<notin> dom t"
    by (cases "const_hash n \<in> dom t") (simp_all add: insert_loop_Cons_clash)
  with Cons show ?case by (simp add: insert_loop_Cons_fresh)
qed

lemma insert_loop_Inl:
  "fst (insert_loop fid ns t) = Inl e \<Longrightarrow>
   \<exists>k < length ns.
      e = PrimaryKeyViolation (const_hash (ns ! k)) \<and>
      const_hash (ns ! k) \<in> dom t \<union> set (map const_hash (take k ns)) \<and>
      fst (insert_loop fid (take k ns) t) = Inr () \<and>
      snd (insert_loop fid ns t) = snd (insert_loop fid (take k ns) t)"
proof (induction ns arbitrary: t)
  case Nil
  then show ?case by simp
next
  case (Cons n ns)
  show ?case
  proof (cases "const_hash n \<in> dom t")
    case True
    with Cons.prems show ?thesis by (auto simp: insert_loop_Cons_clash)
  next
    case False
    let ?t' = "t(const_hash n \<mapsto> fid)"
    from Cons.prems False have "fst (insert_loop fid ns ?t') = Inl e"
      by (simp add: insert_loop_Cons_fresh)
    then obtain k where "k < length ns"
      and "e = PrimaryKeyViolation (const_hash (ns ! k))"
      and "const_hash (ns ! k) \<in> dom ?t' \<union> set (map const_hash (take k ns))"
      and "fst (insert_loop fid (take k ns) ?t') = Inr ()"
      and "snd (insert_loop fid ns ?t') = snd (insert_loop fid (take k ns) ?t')"
      using Cons.IH by blast
    with False show ?thesis
      by (intro exI [of _ "Suc k"]) (auto simp: insert_loop_Cons_fresh)
  qed
qed

subsection \<open>Lemmas on the operations\<close>

lemma insert_consts_table:
  "naming_consts conn = Some t \<Longrightarrow>
   insert_consts conn fid ns =
     (fst (insert_loop fid ns t), conn\<lparr>naming_consts := Some (snd (insert_loop fid ns t))\<rparr>)"
  by (simp add: insert_consts_def prepare_insert_def split: prod.splits)

lemma insert_consts_file_info [simp]:
  "naming_file_info (snd (insert_consts conn fid ns)) = naming_file_info conn"
  by (simp add: insert_consts_def prepare_insert_def split: option.splits prod.splits)

lemma create_table_file_info [simp]:
  "naming_file_info (snd (create_table conn)) = naming_file_info conn"
  by (simp add: create_table_def)


lemma get_path_tables:
  "naming_consts conn = Some t \<Longrightarrow> naming_file_info conn = Some fi \<Longrightarrow>
   get_path conn name =
     (case select_path_row t fi (const_hash name) of
        None \<Rightarrow> Inr None
      | Some row \<Rightarrow> map_sum id Some (path_of_row row))"
  by (simp add: get_path_def prepare_select_def split: option.splits sum.splits)

lemma path_of_row_valid [simp]:
  "path_of_row (sqlite_prefix_to_sql p, SqlText s) = Inr (RelativePath p s)"
  by (simp add: path_of_row_def row_get_def sqlite_path_from_sql_def relative_path_make_def)


lemma get_path_hit:
  assumes "naming_consts conn = Some t" and "naming_file_info conn = Some fi"
    and "t (const_hash n) = Some fid" and "fi fid = Some r"
    and "path_prefix_type r = sqlite_prefix_to_sql p" and "path_suffix r = SqlText s"
  shows "get_path conn n = Inr (Some (RelativePath p s))"
  using assms by (simp add: get_path_tables select_path_row_def)

lemma get_path_miss:
  "naming_consts conn = Some t \<Longrightarrow> naming_file_info conn = Some fi \<Longrightarrow>
   t (const_hash n) = None \<Longrightarrow> get_path conn n = Inr None"
  by (simp add: get_path_tables select_path_row_def)

lemma create_table_fresh:
  "naming_consts conn = None \<Longrightarrow>
   create_table conn = (Inr (), conn\<lparr>naming_consts := Some Map.empty\<rparr>)"
  by (simp add: create_table_def exec_create_naming_consts_def)

lemma insert_consts_Inr:
  assumes "naming_consts conn = Some t"
    and "distinct (map const_hash ns)" and "set (map const_hash ns) \<inter> dom t = {}"
  shows "insert_consts conn fid ns =
    (Inr (), conn\<lparr>naming_consts := Some (t(map const_hash ns [\<mapsto>] replicate (length ns) fid))\<rparr>)"
proof -
  from assms(2,3) have ok: "fst (insert_loop fid ns t) = Inr ()"
    by (simp add: insert_loop_Inr_iff)
  then show ?thesis
    using assms(1) by (simp add: insert_consts_table insert_loop_table_Inr)
qed

lemma path_of_row_Inr:
  "path_of_row row = Inr path \<longleftrightarrow>
   (\<exists>p s. fst row = sqlite_prefix_to_sql p \<and> snd row = SqlText s \<and> path = RelativePath p s)"
proof
  assume ok: "path_of_row row = Inr path"
  then obtain p where p: "sqlite_prefix_from_sql (fst row) = Inr p"
    by (auto simp: path_of_row_def split: sum.splits)
  with ok obtain s where "sqlite_path_from_sql (snd row) = Inr s" and "path = RelativePath p s"
    by (auto simp: path_of_row_def relative_path_make_def split: sum.splits)
  with p show "\<exists>p s. fst row = sqlite_prefix_to_sql p \<and> snd row = SqlText s \<and> path = RelativePath p s"
    by (auto simp: sqlite_prefix_from_sql_Inr sqlite_path_from_sql_def split: sql_value.splits)
next
  assume "\<exists>p s. fst row = sqlite_prefix_to_sql p \<and> snd row = SqlText s \<and> path = RelativePath p s"
  then show "path_of_row row = Inr path" by (cases row) auto
qed

section \<open>Properties of the constants index\<close>

text \<open>
  C1: Round trip. On a database without the constants table, \<open>create_table\<close> followed
  by \<open>insert(fid, [n])\<close> succeeds, and \<open>get_path(n)\<close> then returns the path that the
  file-location store records for \<open>fid\<close>.
\<close>

theorem insert_get_path_roundtrip:
  assumes "naming_consts conn = None" and "naming_file_info conn = Some fi"
    and "fi fid = Some r"
    and "path_prefix_type r = sqlite_prefix_to_sql p" and "path_suffix r = SqlText s"
  shows "fst (insert_consts (snd (create_table conn)) fid [n]) = Inr () \<and>
         get_path (snd (insert_consts (snd (create_table conn)) fid [n])) n =
           Inr (Some (RelativePath p s))"
proof -
  let ?c1 = "conn\<lparr>naming_consts := Some Map.empty\<rparr>"
  have ins: "insert_consts ?c1 fid [n] = (Inr (), ?c1\<lparr>naming_consts := Some [const_hash n \<mapsto> fid]\<rparr>)"
    by (simp add: insert_consts_Inr)
  have "get_path (?c1\<lparr>naming_consts := Some [const_hash n \<mapsto> fid]\<rparr>) n = Inr (Some (RelativePath p s))"
    using assms(2-5)
    by (intro get_path_hit [where t = "[const_hash n \<mapsto> fid]" and fid = fid and r = r and fi = fi])
      simp_all
  with ins assms(1) show ?thesis by (simp add: create_table_fresh)
qed

theorem insert_get_path_roundtrip_witness:
  "naming_consts \<lparr>naming_consts = None,
     naming_file_info = Some [123 \<mapsto> \<lparr>path_prefix_type = SqlInteger 0, path_suffix = SqlText ''foo.php''\<rparr>]\<rparr> = None \<and>
   fst (insert_consts (snd (create_table \<lparr>naming_consts = None,
     naming_file_info = Some [123 \<mapsto> \<lparr>path_prefix_type = SqlInteger 0, path_suffix = SqlText ''foo.php''\<rparr>]\<rparr>)) 123 [''Foo'']) = Inr () \<and>
   get_path (snd (insert_consts (snd (create_table \<lparr>naming_consts = None,
     naming_file_info = Some [123 \<mapsto> \<lparr>path_prefix_type = SqlInteger 0, path_suffix = SqlText ''foo.php''\<rparr>]\<rparr>)) 123 [''Foo''])) ''Foo''
     = Inr (Some (RelativePath Root ''foo.php''))"
  using insert_get_path_roundtrip [where conn = "\<lparr>naming_consts = None,
     naming_file_info = Some [123 \<mapsto> \<lparr>path_prefix_type = SqlInteger 0, path_suffix = SqlText ''foo.php''\<rparr>]\<rparr>"
    and fi = "[123 \<mapsto> \<lparr>path_prefix_type = SqlInteger 0, path_suffix = SqlText ''foo.php''\<rparr>]"
    and fid = 123 and r = "\<lparr>path_prefix_type = SqlInteger 0, path_suffix = SqlText ''foo.php''\<rparr>"
    and p = Root and s = "''foo.php''" and n = "''Foo''"]
  by simp


text \<open>
  C2: Successful batch insert. When the table exists and the names' hashes are pairwise
  distinct and not yet keys of the table, \<open>insert\<close> returns \<open>Ok\<close>, and only then;
  the table afterwards maps each name's hash to the file id and keeps every other row.
\<close>

theorem insert_consts_success:
  assumes "naming_consts conn = Some t"
  shows "(fst (insert_consts conn fid ns) = Inr () \<longleftrightarrow>
            distinct (map const_hash ns) \<and> set (map const_hash ns) \<inter> dom t = {}) \<and>
         (fst (insert_consts conn fid ns) = Inr () \<longrightarrow>
            snd (insert_consts conn fid ns) =
              conn\<lparr>naming_consts := Some (t(map const_hash ns [\<mapsto>] replicate (length ns) fid))\<rparr>)"
  using assms by (simp add: insert_consts_table insert_loop_Inr_iff insert_loop_table_Inr)

theorem insert_consts_success_witness:
  "naming_consts \<lparr>naming_consts = Some Map.empty, naming_file_info = None\<rparr> = Some Map.empty \<and>
   insert_consts \<lparr>naming_consts = Some Map.empty, naming_file_info = None\<rparr> 7 [''A'', ''B''] =
     (Inr (), \<lparr>naming_consts = Some [const_hash ''A'' \<mapsto> 7, const_hash ''B'' \<mapsto> 7],
               naming_file_info = None\<rparr>)"
proof -
  have "const_hash ''A'' \<noteq> const_hash ''B''" by (simp add: hash_defs)
  with insert_consts_success [of "\<lparr>naming_consts = Some Map.empty, naming_file_info = None\<rparr>"
      Map.empty 7 "[''A'', ''B'']"]
  show ?thesis by (auto simp: prod_eq_iff)
qed

text \<open>
  C3: Collision policy. A name whose hash is already a key of the table (the same name
  inserted before, or another name with the same hash) makes \<open>insert\<close> fail with the
  primary-key constraint error at once; the earlier row stays and nothing is written.
\<close>

theorem insert_consts_collision_rejected:
  "naming_consts conn = Some t \<Longrightarrow> t (const_hash n) = Some f \<Longrightarrow>
   insert_consts conn fid (n # ns) = (Inl (PrimaryKeyViolation (const_hash n)), conn)"
proof -
  assume "naming_consts conn = Some t" and "t (const_hash n) = Some f"
  moreover from this have "const_hash n \<in> dom t" by blast
  ultimately show ?thesis by (simp add: insert_consts_table insert_loop_Cons_clash)
qed

theorem insert_consts_collision_rejected_witness:
  "insert_consts \<lparr>naming_consts = Some [const_hash ''Foo'' \<mapsto> 1], naming_file_info = None\<rparr> 2 [''Foo'']
     = (Inl (PrimaryKeyViolation (const_hash ''Foo'')),
        \<lparr>naming_consts = Some [const_hash ''Foo'' \<mapsto> 1], naming_file_info = None\<rparr>)"
  by (rule insert_consts_collision_rejected [where t = "[const_hash ''Foo'' \<mapsto> 1]" and f = 1]) simp_all

text \<open>
  C4: A failed batch leaves its prefix. When \<open>insert\<close> fails on an existing table, the
  error is the primary-key violation of some name \<open>k\<close> of the batch whose hash was
  already taken (by the table or by an earlier name of the batch), the names before it
  had distinct fresh hashes, and exactly their rows were written: no rollback.
\<close>

theorem insert_consts_partial_prefix:
  assumes "naming_consts conn = Some t" and "insert_consts conn fid ns = (Inl e, conn')"
  shows "\<exists>k < length ns.
           e = PrimaryKeyViolation (const_hash (ns ! k)) \<and>
           const_hash (ns ! k) \<in> dom t \<union> set (map const_hash (take k ns)) \<and>
           distinct (map const_hash (take k ns)) \<and>
           conn' = conn\<lparr>naming_consts :=
                     Some (t(map const_hash (take k ns) [\<mapsto>] replicate k fid))\<rparr>"
proof -
  from assms have "fst (insert_loop fid ns t) = Inl e"
    by (simp add: insert_consts_table)
  then obtain k where k: "k < length ns"
    and e: "e = PrimaryKeyViolation (const_hash (ns ! k))"
    and clash: "const_hash (ns ! k) \<in> dom t \<union> set (map const_hash (take k ns))"
    and ok: "fst (insert_loop fid (take k ns) t) = Inr ()"
    and tbl: "snd (insert_loop fid ns t) = snd (insert_loop fid (take k ns) t)"
    by (blast dest: insert_loop_Inl)
  from ok have "distinct (map const_hash (take k ns))"
    by (simp add: insert_loop_Inr_iff)
  moreover from ok k have "snd (insert_loop fid (take k ns) t) =
      t(map const_hash (take k ns) [\<mapsto>] replicate k fid)"
    by (simp add: insert_loop_table_Inr min_def)
  moreover from assms have "conn' = conn\<lparr>naming_consts := Some (snd (insert_loop fid ns t))\<rparr>"
    by (simp add: insert_consts_table)
  ultimately show ?thesis using k e clash tbl by auto
qed

theorem insert_consts_partial_prefix_witness:
  "\<exists>k < length [''A'', ''B'', ''A'']. PrimaryKeyViolation (const_hash ''A'') = PrimaryKeyViolation (const_hash ([''A'', ''B'', ''A''] ! k)) \<and>
     const_hash ([''A'', ''B'', ''A''] ! k) \<in> dom (Map.empty :: i64 table) \<union> set (map const_hash (take k [''A'', ''B'', ''A''])) \<and>
     distinct (map const_hash (take k [''A'', ''B'', ''A''])) \<and>
     \<lparr>naming_consts = Some [const_hash ''A'' \<mapsto> 5, const_hash ''B'' \<mapsto> 5], naming_file_info = None\<rparr> =
       \<lparr>naming_consts = Some Map.empty, naming_file_info = None\<rparr>\<lparr>naming_consts :=
         Some (Map.empty(map const_hash (take k [''A'', ''B'', ''A'']) [\<mapsto>] replicate k 5))\<rparr>"
proof -
  have ab: "const_hash ''A'' \<noteq> const_hash ''B''" by (simp add: hash_defs)
  then have "insert_consts \<lparr>naming_consts = Some Map.empty, naming_file_info = None\<rparr> 5 [''A'', ''B'', ''A'']
      = (Inl (PrimaryKeyViolation (const_hash ''A'')),
         \<lparr>naming_consts = Some [const_hash ''A'' \<mapsto> 5, const_hash ''B'' \<mapsto> 5], naming_file_info = None\<rparr>)"
    by (simp add: insert_consts_table insert_loop_Cons_fresh insert_loop_Cons_clash)
  from insert_consts_partial_prefix [OF _ this] show ?thesis by simp
qed


text \<open>
  C5: Unknown name. On a freshly created constants table, \<open>get_path\<close> returns
  \<open>Ok(None)\<close> for every name, provided the file table exists for the join.
\<close>

theorem get_path_unknown_none:
  "naming_consts conn = None \<Longrightarrow> naming_file_info conn = Some fi \<Longrightarrow>
   get_path (snd (create_table conn)) n = Inr None"
  by (simp add: create_table_fresh get_path_tables select_path_row_def)

theorem get_path_unknown_none_witness:
  "get_path (snd (create_table \<lparr>naming_consts = None, naming_file_info = Some Map.empty\<rparr>)) ''Foo'' = Inr None"
  by (rule get_path_unknown_none) simp_all

text \<open>
  C6: Dangling file id. When the constants row names a file id that has no row in
  \<open>NAMING_FILE_INFO\<close>, the \<open>LEFT JOIN\<close> still yields a row, of \<open>NULL\<close>s, and
  decoding its prefix column fails: \<open>get_path\<close> returns the error
  \<open>InvalidColumnType\<close> for column 0, not \<open>Ok(None)\<close> as the specification says.
\<close>

theorem get_path_dangling_file_error:
  "naming_consts conn = Some t \<Longrightarrow> naming_file_info conn = Some fi \<Longrightarrow>
   t (const_hash n) = Some fid \<Longrightarrow> fi fid = None \<Longrightarrow>
   get_path conn n = Inl (InvalidColumnType 0)"
  by (simp add: get_path_tables select_path_row_def path_of_row_def)

theorem get_path_dangling_file_error_witness:
  "get_path \<lparr>naming_consts = Some [const_hash ''Foo'' \<mapsto> 9], naming_file_info = Some Map.empty\<rparr> ''Foo''
     = Inl (InvalidColumnType 0)"
  by (rule get_path_dangling_file_error [where t = "[const_hash ''Foo'' \<mapsto> 9]" and fi = Map.empty and fid = 9])
     simp_all

text \<open>
  C7: Lookups alias on hash collisions. After one name is inserted into an empty table,
  \<open>get_path\<close> of any name answers from the hash alone: every name with the same
  hash resolves to the inserted name's file, every other name to \<open>None\<close>. The
  table keeps no name to tell them apart.
\<close>

theorem get_path_collision_aliases:
  assumes "naming_consts conn = Some Map.empty" and "naming_file_info conn = Some fi"
    and "fi fid = Some r"
    and "path_prefix_type r = sqlite_prefix_to_sql p" and "path_suffix r = SqlText s"
  shows "get_path (snd (insert_consts conn fid [n])) m =
           (if const_hash m = const_hash n then Inr (Some (RelativePath p s)) else Inr None)"
proof -
  let ?t = "[const_hash n \<mapsto> fid]"
  have ins: "snd (insert_consts conn fid [n]) = conn\<lparr>naming_consts := Some ?t\<rparr>"
    using assms(1) by (simp add: insert_consts_Inr)
  show ?thesis
  proof (cases "const_hash m = const_hash n")
    case True
    then have "get_path (conn\<lparr>naming_consts := Some ?t\<rparr>) m = Inr (Some (RelativePath p s))"
      using assms(2-5) by (intro get_path_hit [where t = ?t and fi = fi and fid = fid and r = r]) simp_all
    with True ins show ?thesis by simp
  next
    case False
    then have "get_path (conn\<lparr>naming_consts := Some ?t\<rparr>) m = Inr None"
      using assms(2) by (intro get_path_miss [where t = ?t and fi = fi]) simp_all
    with False ins show ?thesis by simp
  qed
qed

theorem get_path_collision_aliases_witness:
  "get_path (snd (insert_consts \<lparr>naming_consts = Some Map.empty,
      naming_file_info = Some [4 \<mapsto> \<lparr>path_prefix_type = SqlInteger 1, path_suffix = SqlText ''c.hhi''\<rparr>]\<rparr>
      4 [''Foo''])) ''Foo'' = Inr (Some (RelativePath Hhi ''c.hhi''))"
  using get_path_collision_aliases [where conn = "\<lparr>naming_consts = Some Map.empty,
      naming_file_info = Some [4 \<mapsto> \<lparr>path_prefix_type = SqlInteger 1, path_suffix = SqlText ''c.hhi''\<rparr>]\<rparr>"
    and fi = "[4 \<mapsto> \<lparr>path_prefix_type = SqlInteger 1, path_suffix = SqlText ''c.hhi''\<rparr>]" and fid = 4
    and r = "\<lparr>path_prefix_type = SqlInteger 1, path_suffix = SqlText ''c.hhi''\<rparr>"
    and p = Hhi and s = "''c.hhi''" and n = "''Foo''" and m = "''Foo''"]
  by simp

text \<open>
  C8: Idempotent table creation. \<open>create_table\<close> always returns \<open>Ok\<close>; a second call
  changes nothing, and a call on a database that has the table keeps its rows.
\<close>

theorem create_table_idempotent:
  "create_table (snd (create_table conn)) = (Inr (), snd (create_table conn)) \<and>
   (naming_consts conn = None \<or> snd (create_table conn) = conn)"
  by (simp add: create_table_def exec_create_naming_consts_def split: option.splits)

text \<open>
  C9: Insert without the table. Before \<open>create_table\<close>, preparing the insert statement
  fails with \<open>no such table\<close>, even for an empty batch, and nothing is written.
\<close>

theorem insert_consts_no_table:
  "naming_consts conn = None \<Longrightarrow>
   insert_consts conn fid ns = (Inl (NoSuchTable ''NAMING_CONSTS''), conn)"
  by (simp add: insert_consts_def prepare_insert_def)

theorem insert_consts_no_table_witness:
  "insert_consts open_in_memory 123 [] = (Inl (NoSuchTable ''NAMING_CONSTS''), open_in_memory)"
  by (rule insert_consts_no_table) (simp add: open_in_memory_def)

text \<open>
  C10: Lookup without the tables. If either table of the join is missing, preparing the
  select fails with \<open>no such table\<close> naming the first missing one.
\<close>

theorem get_path_no_table:
  "naming_consts conn = None \<or> naming_file_info conn = None \<Longrightarrow>
   get_path conn n =
     Inl (NoSuchTable (if naming_consts conn = None then ''NAMING_CONSTS'' else ''NAMING_FILE_INFO''))"
  by (auto simp: get_path_def prepare_select_def split: option.splits)

theorem get_path_no_table_witness:
  "get_path \<lparr>naming_consts = Some Map.empty, naming_file_info = None\<rparr> ''Foo''
     = Inl (NoSuchTable ''NAMING_FILE_INFO'')"
  using get_path_no_table [of "\<lparr>naming_consts = Some Map.empty, naming_file_info = None\<rparr>" "''Foo''"]
  by simp

text \<open>
  C11: No deduplication within a batch. A batch that names the same constant twice
  writes the first row and then fails on the second with the primary-key error.
\<close>

theorem insert_duplicate_name_in_batch:
  "naming_consts conn = Some t \<Longrightarrow> const_hash n \<notin> dom t \<Longrightarrow>
   insert_consts conn fid [n, n] =
     (Inl (PrimaryKeyViolation (const_hash n)), conn\<lparr>naming_consts := Some (t(const_hash n \<mapsto> fid))\<rparr>)"
  by (simp add: insert_consts_table insert_loop_Cons_fresh insert_loop_Cons_clash)

theorem insert_duplicate_name_in_batch_witness:
  "insert_consts \<lparr>naming_consts = Some Map.empty, naming_file_info = None\<rparr> 3 [''Foo'', ''Foo''] =
     (Inl (PrimaryKeyViolation (const_hash ''Foo'')),
      \<lparr>naming_consts = Some [const_hash ''Foo'' \<mapsto> 3], naming_file_info = None\<rparr>)"
  using insert_duplicate_name_in_batch [of "\<lparr>naming_consts = Some Map.empty, naming_file_info = None\<rparr>"
      Map.empty "''Foo''" 3]
  by simp

text \<open>
  The repository's unit test \<open>test_add_const\<close> evaluates as the code's test expects: on
  a new in-memory database, \<open>create_table\<close> and \<open>insert(123, ["Foo"])\<close> both return
  \<open>Ok\<close>. An evaluation check of one input; the behaviour it samples is C1 and C2.
\<close>

theorem test_add_const_passes: "test_add_const = Inr ()"
  by (simp add: index_simps)

text \<open>
  C19: When the lookup succeeds. With both tables present, \<open>get_path(n)\<close> returns
  \<open>Ok(Some path)\<close> exactly when the name's hash has a row whose file id has a file row
  with a valid prefix code and a text suffix, and \<open>path\<close> is built from those two.
\<close>

theorem get_path_Some_iff:
  assumes "naming_consts conn = Some t" and "naming_file_info conn = Some fi"
  shows "get_path conn n = Inr (Some path) \<longleftrightarrow>
    (\<exists>fid r p s. t (const_hash n) = Some fid \<and> fi fid = Some r \<and>
       path_prefix_type r = sqlite_prefix_to_sql p \<and> path_suffix r = SqlText s \<and>
       path = RelativePath p s)"
  using assms
  by (auto simp: get_path_tables select_path_row_def path_of_row_Inr split: option.splits)

theorem get_path_Some_iff_witness:
  "get_path \<lparr>naming_consts = Some [const_hash ''Foo'' \<mapsto> 4],
     naming_file_info = Some [4 \<mapsto> \<lparr>path_prefix_type = SqlInteger 1, path_suffix = SqlText ''c.hhi''\<rparr>]\<rparr>
     ''Foo'' = Inr (Some (RelativePath Hhi ''c.hhi''))"
proof -
  have "\<exists>fid r p s. [const_hash ''Foo'' \<mapsto> (4::i64)] (const_hash ''Foo'') = Some fid \<and>
      [4 \<mapsto> \<lparr>path_prefix_type = SqlInteger 1, path_suffix = SqlText ''c.hhi''\<rparr>] fid = Some r \<and>
      path_prefix_type r = sqlite_prefix_to_sql p \<and> path_suffix r = SqlText s \<and>
      RelativePath Hhi ''c.hhi'' = RelativePath p s"
    by (intro exI [of _ 4] exI [of _ "\<lparr>path_prefix_type = SqlInteger 1, path_suffix = SqlText ''c.hhi''\<rparr>"]
        exI [of _ Hhi] exI [of _ "''c.hhi''"]) simp
  then show ?thesis
    by (subst get_path_Some_iff [where t = "[const_hash ''Foo'' \<mapsto> 4]"
        and fi = "[4 \<mapsto> \<lparr>path_prefix_type = SqlInteger 1, path_suffix = SqlText ''c.hhi''\<rparr>]"]) simp_all
qed

text \<open>
  C20: The prefix column is read as a signed 64-bit integer. A stored prefix code outside
  0 to 3 makes \<open>get_path\<close> fail with \<open>IntegralValueOutOfRange\<close> for column 0,
  carrying the value as \<open>i64\<close> reads it (\<open>sint\<close>): the bit pattern of all ones is
  reported as -1.
\<close>

theorem get_path_prefix_out_of_range:
  "naming_consts conn = Some t \<Longrightarrow> naming_file_info conn = Some fi \<Longrightarrow>
   t (const_hash n) = Some fid \<Longrightarrow> fi fid = Some r \<Longrightarrow>
   path_prefix_type r = SqlInteger i \<Longrightarrow> sint i < 0 \<or> 3 < sint i \<Longrightarrow>
   get_path conn n = Inl (IntegralValueOutOfRange 0 (sint i))"
  by (auto simp: get_path_tables select_path_row_def path_of_row_def row_get_def
      sqlite_prefix_from_sql_def)

theorem get_path_prefix_out_of_range_witness:
  "get_path \<lparr>naming_consts = Some [const_hash ''Foo'' \<mapsto> 4],
     naming_file_info = Some [4 \<mapsto> \<lparr>path_prefix_type = SqlInteger (-1), path_suffix = SqlText ''x''\<rparr>]\<rparr>
     ''Foo'' = Inl (IntegralValueOutOfRange 0 (-1))"
proof -
  have "get_path \<lparr>naming_consts = Some [const_hash ''Foo'' \<mapsto> 4],
     naming_file_info = Some [4 \<mapsto> \<lparr>path_prefix_type = SqlInteger (-1), path_suffix = SqlText ''x''\<rparr>]\<rparr>
     ''Foo'' = Inl (IntegralValueOutOfRange 0 (sint (-1 :: i64)))"
    by (rule get_path_prefix_out_of_range [where t = "[const_hash ''Foo'' \<mapsto> 4]"
        and fi = "[4 \<mapsto> \<lparr>path_prefix_type = SqlInteger (-1), path_suffix = SqlText ''x''\<rparr>]" and fid = 4
        and r = "\<lparr>path_prefix_type = SqlInteger (-1), path_suffix = SqlText ''x''\<rparr>"]) simp_all
  then show ?thesis by simp
qed

end
