(* ===== verification/Index_Machine.thy ===== *)
theory Index_Machine
  imports Consts
begin

text \<open>
  The index as its callers drive it: a connection on which \<open>create_table\<close>,
  \<open>insert\<close> and \<open>get_path\<close> run in any order, interleaved with writes of the
  file-location store to \<open>NAMING_FILE_INFO\<close>. The step function and its runs give the
  safety property that no operation ever changes or removes a row of
  \<open>NAMING_CONSTS\<close>; the inductive set of reachable states (with the names handed to
  \<open>insert\<close> as ghost state) gives the invariant that every key is the hash of such a
  name. An abstract index, a map from constant names to file ids with a
  reject-duplicates insert and an exact-name lookup, is refined by the hash-keyed
  table wherever the hash is injective on the names involved.
\<close>

datatype index_op =
    CreateTable
  | Insert i64 "string list"
  | GetPath string
  | SetFileInfo "file_info_row table option"

fun run_op :: "connection \<Rightarrow> index_op \<Rightarrow> connection" where
  "run_op conn CreateTable = snd (create_table conn)"
| "run_op conn (Insert fid names) = snd (insert_consts conn fid names)"
| "run_op conn (GetPath name) = conn"
| "run_op conn (SetFileInfo fi) = conn\<lparr>naming_file_info := fi\<rparr>"

definition run_ops :: "connection \<Rightarrow> index_op list \<Rightarrow> connection" where
  "run_ops conn ops = foldl run_op conn ops"

fun op_names :: "index_op \<Rightarrow> string set" where
  "op_names (Insert fid names) = set names"
| "op_names _ = {}"

text \<open>The steps that write the file-location store's table.\<close>

fun writes_file_info :: "index_op \<Rightarrow> bool" where
  "writes_file_info (SetFileInfo fi) = True"
| "writes_file_info _ = False"

inductive reach :: "connection \<Rightarrow> string set \<Rightarrow> bool" where
  init: "naming_consts conn = None \<Longrightarrow> reach conn {}"
| step: "reach conn N \<Longrightarrow> reach (run_op conn op) (N \<union> op_names op)"

subsection \<open>The abstract index\<close>

fun abs_insert ::
  "i64 \<Rightarrow> string list \<Rightarrow> (string \<rightharpoonup> i64) \<Rightarrow> (string + unit) \<times> (string \<rightharpoonup> i64)" where
  "abs_insert fid [] A = (Inr (), A)"
| "abs_insert fid (n # ns) A =
     (if n \<in> dom A then (Inl n, A) else abs_insert fid ns (A(n \<mapsto> fid)))"

definition abs_get_path ::
  "(string \<rightharpoonup> i64) \<Rightarrow> file_info_row table \<Rightarrow> string \<Rightarrow> sqlite_error + relative_path option" where
  "abs_get_path A fi n =
     (case A n of
        None \<Rightarrow> Inr None
      | Some fid \<Rightarrow>
          (case fi fid of
             None \<Rightarrow> Inl (InvalidColumnType 0)
           | Some r \<Rightarrow> map_sum id Some (path_of_row (path_prefix_type r, path_suffix r))))"

fun abs_op :: "(string \<rightharpoonup> i64) \<Rightarrow> index_op \<Rightarrow> (string \<rightharpoonup> i64)" where
  "abs_op A (Insert fid names) = snd (abs_insert fid names A)"
| "abs_op A _ = A"

definition abs_run :: "(string \<rightharpoonup> i64) \<Rightarrow> index_op list \<Rightarrow> (string \<rightharpoonup> i64)" where
  "abs_run A ops = foldl abs_op A ops"

definition index_rel :: "(string \<rightharpoonup> i64) \<Rightarrow> i64 table \<Rightarrow> bool" where
  "index_rel A t \<longleftrightarrow> (\<forall>n \<in> dom A. t (const_hash n) = A n) \<and> dom t \<subseteq> const_hash ` dom A"

subsection \<open>Lemmas\<close>

lemma run_op_rows:
  "naming_consts conn = Some t \<Longrightarrow>
   \<exists>t'. naming_consts (run_op conn op) = Some t' \<and> t \<subseteq>\<^sub>m t'"
proof (cases op)
  case (Insert fid names)
  assume "naming_consts conn = Some t"
  with Insert show ?thesis by (simp add: insert_consts_table insert_loop_mono)
qed (auto simp: create_table_def exec_create_naming_consts_keeps)

lemma insert_loop_dom:
  "dom (snd (insert_loop fid ns t)) \<subseteq> dom t \<union> const_hash ` set ns"
proof (induction ns arbitrary: t)
  case Nil
  then show ?case by simp
next
  case (Cons n ns)
  show ?case
  proof (cases "const_hash n \<in> dom t")
    case True
    then show ?thesis by (auto simp: insert_loop_Cons_clash)
  next
    case False
    have "dom (snd (insert_loop fid ns (t(const_hash n \<mapsto> fid))))
        \<subseteq> dom (t(const_hash n \<mapsto> fid)) \<union> const_hash ` set ns"
      by (rule Cons.IH)
    with False show ?thesis by (auto simp: insert_loop_Cons_fresh)
  qed
qed

lemma run_op_keys:
  assumes "naming_consts (run_op conn op) = Some t'"
  shows "(naming_consts conn = None \<and> dom t' \<subseteq> const_hash ` op_names op) \<or>
         (\<exists>t. naming_consts conn = Some t \<and> dom t' \<subseteq> dom t \<union> const_hash ` op_names op)"
proof (cases "naming_consts conn")
  case None
  with assms show ?thesis
    by (cases op) (auto simp: create_table_fresh insert_consts_no_table)
next
  case (Some t)
  show ?thesis
  proof (cases op)
    case (Insert fid ns)
    with Some assms have "t' = snd (insert_loop fid ns t)"
      by (simp add: insert_consts_table)
    with Some Insert insert_loop_dom [of fid ns t] show ?thesis by auto
  qed (use Some assms in \<open>auto simp: create_table_def exec_create_naming_consts_keeps\<close>)
qed

lemma index_rel_lookup:
  assumes "index_rel A t" and "A n = Some fid"
  shows "t (const_hash n) = Some fid"
proof -
  from assms(2) have "n \<in> dom A" by blast
  with assms(1) have "t (const_hash n) = A n" by (simp add: index_rel_def)
  with assms(2) show ?thesis by simp
qed

lemma index_rel_fresh:
  assumes "index_rel A t" and "inj_on const_hash (insert n (dom A))" and "n \<notin> dom A"
  shows "t (const_hash n) = None"
proof (rule ccontr)
  assume "t (const_hash n) \<noteq> None"
  then have "const_hash n \<in> dom t" by blast
  with assms(1) have "const_hash n \<in> const_hash ` dom A"
    by (auto simp: index_rel_def)
  then obtain a where "a \<in> dom A" and "const_hash n = const_hash a"
    by blast
  with assms(2) have "n = a" by (auto dest: inj_onD)
  with \<open>a \<in> dom A\<close> assms(3) show False by simp
qed

lemma index_rel_upd:
  assumes "index_rel A t" and "inj_on const_hash (insert n (dom A))"
  shows "index_rel (A(n \<mapsto> fid)) (t(const_hash n \<mapsto> fid))"
  unfolding index_rel_def
proof
  show "\<forall>m \<in> dom (A(n \<mapsto> fid)). (t(const_hash n \<mapsto> fid)) (const_hash m) = (A(n \<mapsto> fid)) m"
  proof
    fix m assume m: "m \<in> dom (A(n \<mapsto> fid))"
    show "(t(const_hash n \<mapsto> fid)) (const_hash m) = (A(n \<mapsto> fid)) m"
    proof (cases "m = n")
      case True
      then show ?thesis by simp
    next
      case False
      with m have "m \<in> dom A" by simp
      have "const_hash m \<noteq> const_hash n"
      proof
        assume "const_hash m = const_hash n"
        from inj_onD [OF assms(2) this] \<open>m \<in> dom A\<close> have "m = n" by simp
        with False show False ..
      qed
      with False \<open>m \<in> dom A\<close> assms(1) show ?thesis by (simp add: index_rel_def)
    qed
  qed
next
  from assms(1) show "dom (t(const_hash n \<mapsto> fid)) \<subseteq> const_hash ` dom (A(n \<mapsto> fid))"
    by (auto simp: index_rel_def)
qed

lemma insert_loop_refines:
  "index_rel A t \<Longrightarrow> inj_on const_hash (dom A \<union> set ns) \<Longrightarrow>
   index_rel (snd (abs_insert fid ns A)) (snd (insert_loop fid ns t)) \<and>
   fst (insert_loop fid ns t) =
     map_sum (\<lambda>n. PrimaryKeyViolation (const_hash n)) id (fst (abs_insert fid ns A))"
proof (induction ns arbitrary: A t)
  case Nil
  then show ?case by simp
next
  case (Cons n ns)
  show ?case
  proof (cases "n \<in> dom A")
    case True
    then obtain x where "A n = Some x" by blast
    with Cons.prems(1) have "t (const_hash n) = Some x" by (rule index_rel_lookup)
    then have "const_hash n \<in> dom t" by blast
    with True Cons.prems(1) show ?thesis by (simp add: insert_loop_Cons_clash)
  next
    case False
    have inj: "inj_on const_hash (insert n (dom A))"
      using Cons.prems(2) by (rule inj_on_subset) auto
    from Cons.prems(1) inj False have "t (const_hash n) = None"
      by (rule index_rel_fresh)
    then have fresh: "const_hash n \<notin> dom t" by blast
    from Cons.prems(1) inj have "index_rel (A(n \<mapsto> fid)) (t(const_hash n \<mapsto> fid))"
      by (rule index_rel_upd)
    moreover have "inj_on const_hash (dom (A(n \<mapsto> fid)) \<union> set ns)"
      using Cons.prems(2) by (rule inj_on_subset) auto
    ultimately have "index_rel (snd (abs_insert fid ns (A(n \<mapsto> fid))))
        (snd (insert_loop fid ns (t(const_hash n \<mapsto> fid)))) \<and>
      fst (insert_loop fid ns (t(const_hash n \<mapsto> fid))) =
        map_sum (\<lambda>n. PrimaryKeyViolation (const_hash n)) id (fst (abs_insert fid ns (A(n \<mapsto> fid))))"
      by (rule Cons.IH)
    with False fresh show ?thesis by (simp add: insert_loop_Cons_fresh id_def)
  qed
qed

lemma dom_abs_insert:
  "dom (snd (abs_insert fid ns A)) \<subseteq> dom A \<union> set ns"
proof (induction ns arbitrary: A)
  case Nil
  then show ?case by simp
next
  case (Cons n ns)
  show ?case
  proof (cases "n \<in> dom A")
    case True
    then show ?thesis by auto
  next
    case False
    have "dom (snd (abs_insert fid ns (A(n \<mapsto> fid)))) \<subseteq> dom (A(n \<mapsto> fid)) \<union> set ns"
      by (rule Cons.IH)
    with False show ?thesis by auto
  qed
qed

lemma run_op_refines:
  assumes "naming_consts conn = Some t" and "index_rel A t"
    and "inj_on const_hash (dom A \<union> op_names op)"
  shows "\<exists>t'. naming_consts (run_op conn op) = Some t' \<and> index_rel (abs_op A op) t'"
proof (cases op)
  case (Insert fid ns)
  with assms insert_loop_refines [OF assms(2), of ns fid] show ?thesis
    by (simp add: insert_consts_table)
qed (use assms in \<open>auto simp: create_table_def exec_create_naming_consts_keeps\<close>)

lemma get_path_abs:
  assumes "naming_consts conn = Some t" and "naming_file_info conn = Some fi"
    and "index_rel A t" and "inj_on const_hash (insert n (dom A))"
  shows "get_path conn n = abs_get_path A fi n"
proof (cases "A n")
  case None
  then have "n \<notin> dom A" by blast
  with assms(3,4) have "t (const_hash n) = None" by (rule index_rel_fresh)
  with assms(1,2) None show ?thesis by (simp add: get_path_miss abs_get_path_def)
next
  case (Some fid)
  with assms(3) have "t (const_hash n) = Some fid" by (rule index_rel_lookup)
  with assms(1,2) Some show ?thesis
    by (simp add: get_path_tables select_path_row_def abs_get_path_def path_of_row_def
        split: option.splits)
qed

lemma run_ops_rows:
  "naming_consts conn = Some t \<Longrightarrow>
   \<exists>t'. naming_consts (run_ops conn ops) = Some t' \<and> t \<subseteq>\<^sub>m t'"
proof (induction ops arbitrary: conn t)
  case Nil
  then show ?case by (simp add: run_ops_def)
next
  case (Cons op ops)
  from run_op_rows [OF Cons.prems] obtain t1
    where t1: "naming_consts (run_op conn op) = Some t1" and le1: "t \<subseteq>\<^sub>m t1"
    by blast
  from Cons.IH [OF t1] obtain t2
    where t2: "naming_consts (run_ops (run_op conn op) ops) = Some t2" and le2: "t1 \<subseteq>\<^sub>m t2"
    by blast
  from le1 le2 have "t \<subseteq>\<^sub>m t2" by (rule map_le_trans)
  with t2 show ?case by (simp add: run_ops_def)
qed

lemma run_op_file_info:
  "\<not> writes_file_info op \<Longrightarrow> naming_file_info (run_op conn op) = naming_file_info conn"
  by (cases op) (simp_all add: create_table_def)

lemma run_ops_file_info:
  "\<forall>op \<in> set ops. \<not> writes_file_info op \<Longrightarrow> naming_file_info (run_ops conn ops) = naming_file_info conn"
  by (induction ops arbitrary: conn) (simp_all add: run_ops_def run_op_file_info)

section \<open>Properties of the index as a state machine\<close>

text \<open>
  C12: Rows are never changed or removed. Once \<open>NAMING_CONSTS\<close> exists, every run of
  operations, whatever their order and whatever the file-location store writes,
  leaves the table in place with every earlier row unchanged.
\<close>

theorem runs_rows_never_change:
  "naming_consts conn = Some t \<Longrightarrow>
   \<exists>t'. naming_consts (run_ops conn ops) = Some t' \<and> t \<subseteq>\<^sub>m t'"
  by (rule run_ops_rows)

theorem runs_rows_never_change_witness:
  "\<exists>t'. naming_consts (run_ops \<lparr>naming_consts = Some [const_hash ''Foo'' \<mapsto> 1], naming_file_info = None\<rparr>
       [Insert 2 [''Foo'', ''Bar''], CreateTable, SetFileInfo (Some Map.empty), GetPath ''Foo''])
     = Some t' \<and> [const_hash ''Foo'' \<mapsto> 1] \<subseteq>\<^sub>m t'"
  by (rule runs_rows_never_change) simp

text \<open>
  C13: Every key is the hash of an inserted name. In every state reachable from a
  database without the constants table, each key of \<open>NAMING_CONSTS\<close> is the
  \<open>GConst\<close> hash of some name that was handed to \<open>insert\<close>.
\<close>

theorem reach_keys_are_hashes:
  "reach conn N \<Longrightarrow> naming_consts conn = Some t \<Longrightarrow> dom t \<subseteq> const_hash ` N"
proof (induction arbitrary: t rule: reach.induct)
  case (init conn)
  then show ?case by simp
next
  case (step conn N op)
  from run_op_keys [OF step.prems] show ?case
  proof
    assume "naming_consts conn = None \<and> dom t \<subseteq> const_hash ` op_names op"
    then show ?thesis by auto
  next
    assume "\<exists>t0. naming_consts conn = Some t0 \<and> dom t \<subseteq> dom t0 \<union> const_hash ` op_names op"
    then obtain t0 where "naming_consts conn = Some t0"
      and sub: "dom t \<subseteq> dom t0 \<union> const_hash ` op_names op" by blast
    with step.IH have "dom t0 \<subseteq> const_hash ` N" by blast
    with sub show ?thesis by auto
  qed
qed

theorem reach_keys_are_hashes_witness:
  "dom [const_hash ''Foo'' \<mapsto> (5::i64)] \<subseteq> const_hash ` ({} \<union> {} \<union> {''Foo''})"
proof -
  let ?c0 = "\<lparr>naming_consts = None, naming_file_info = None\<rparr>"
  have "reach ?c0 {}" by (rule reach.init) simp
  then have "reach (run_op ?c0 CreateTable) ({} \<union> op_names CreateTable)" by (rule reach.step)
  then have r: "reach (run_op (run_op ?c0 CreateTable) (Insert 5 [''Foo'']))
      ({} \<union> op_names CreateTable \<union> op_names (Insert 5 [''Foo'']))" by (rule reach.step)
  have "naming_consts (run_op (run_op ?c0 CreateTable) (Insert 5 [''Foo''])) = Some [const_hash ''Foo'' \<mapsto> 5]"
    by (simp add: create_table_fresh insert_consts_Inr)
  from reach_keys_are_hashes [OF r this] show ?thesis by simp
qed

text \<open>
  C14: Insert refines the abstract index. If the hash table represents an abstract map
  from names to file ids and the hash is injective on its names and the batch, then
  \<open>insert\<close> does what the abstract insert does: the same outcome (the first name
  already present is the one reported) and a table that represents the abstract result.
\<close>

theorem insert_refines_abstract:
  assumes "naming_consts conn = Some t" and "index_rel A t"
    and "inj_on const_hash (dom A \<union> set ns)"
  shows "\<exists>t'. naming_consts (snd (insert_consts conn fid ns)) = Some t' \<and>
           index_rel (snd (abs_insert fid ns A)) t' \<and>
           fst (insert_consts conn fid ns) =
             map_sum (\<lambda>n. PrimaryKeyViolation (const_hash n)) id (fst (abs_insert fid ns A))"
  using assms insert_loop_refines [OF assms(2,3)] by (simp add: insert_consts_table)

theorem insert_refines_abstract_witness:
  "\<exists>t'. naming_consts (snd (insert_consts \<lparr>naming_consts = Some [const_hash ''A'' \<mapsto> 1],
         naming_file_info = None\<rparr> 7 [''B'', ''A''])) = Some t' \<and>
     index_rel [''A'' \<mapsto> 1, ''B'' \<mapsto> 7] t' \<and>
     fst (insert_consts \<lparr>naming_consts = Some [const_hash ''A'' \<mapsto> 1], naming_file_info = None\<rparr>
        7 [''B'', ''A'']) = Inl (PrimaryKeyViolation (const_hash ''A''))"
proof -
  have rel: "index_rel [''A'' \<mapsto> 1] [const_hash ''A'' \<mapsto> 1]"
    by (simp add: index_rel_def)
  have inj: "inj_on const_hash (dom [''A'' \<mapsto> (1::i64)] \<union> set [''B'', ''A''])"
    by (simp add: hash_defs)
  from insert_refines_abstract [OF _ rel inj, of "\<lparr>naming_consts = Some [const_hash ''A'' \<mapsto> 1],
      naming_file_info = None\<rparr>" 7]
  show ?thesis by (simp add: fun_upd_twist)
qed

text \<open>
  C15: Lookup refines the abstract index. Under the same representation, with the hash
  injective on the looked-up name and the abstract names, \<open>get_path\<close> returns what
  an exact-name lookup in the abstract map, followed by the file-table join, returns.
\<close>

theorem get_path_refines_abstract:
  assumes "naming_consts conn = Some t" and "naming_file_info conn = Some fi"
    and "index_rel A t" and "inj_on const_hash (insert n (dom A))"
  shows "get_path conn n = abs_get_path A fi n"
  using assms by (rule get_path_abs)

theorem get_path_refines_abstract_witness:
  "get_path \<lparr>naming_consts = Some [const_hash ''A'' \<mapsto> 1], naming_file_info = Some Map.empty\<rparr> ''B''
     = abs_get_path [''A'' \<mapsto> 1] Map.empty ''B''"
proof -
  have rel: "index_rel [''A'' \<mapsto> 1] [const_hash ''A'' \<mapsto> 1]"
    by (simp add: index_rel_def)
  have inj: "inj_on const_hash (insert ''B'' (dom [''A'' \<mapsto> (1::i64)]))"
    by (simp add: hash_defs)
  show ?thesis by (rule get_path_refines_abstract [OF _ _ rel inj]) simp_all
qed

text \<open>
  C18: Runs refine the abstract index. Starting from a table that represents an abstract
  map, any run of operations (inserts, lookups, re-creations, file-table writes) ends in
  a table that represents the abstract run, provided the hash is injective on the
  abstract names and on every name the run inserts.
\<close>

theorem run_refines_abstract:
  "naming_consts conn = Some t \<Longrightarrow> index_rel A t \<Longrightarrow>
   inj_on const_hash (dom A \<union> \<Union> (op_names ` set ops)) \<Longrightarrow>
   \<exists>t'. naming_consts (run_ops conn ops) = Some t' \<and> index_rel (abs_run A ops) t'"
proof (induction ops arbitrary: conn t A)
  case Nil
  then show ?case by (simp add: run_ops_def abs_run_def)
next
  case (Cons op ops)
  have "inj_on const_hash (dom A \<union> op_names op)"
    using Cons.prems(3) by (rule inj_on_subset) auto
  with Cons.prems(1,2) obtain t1 where t1: "naming_consts (run_op conn op) = Some t1"
    and rel1: "index_rel (abs_op A op) t1"
    using run_op_refines by blast
  have "dom (abs_op A op) \<subseteq> dom A \<union> op_names op"
  proof (cases op)
    case (Insert fid ns)
    then show ?thesis using dom_abs_insert [of fid ns A] by simp
  qed simp_all
  then have "inj_on const_hash (dom (abs_op A op) \<union> \<Union> (op_names ` set ops))"
    using Cons.prems(3) by (elim inj_on_subset) auto
  from Cons.IH [OF t1 rel1 this] show ?case
    by (simp add: run_ops_def abs_run_def)
qed

theorem run_refines_abstract_witness:
  "\<exists>t'. naming_consts (run_ops \<lparr>naming_consts = Some Map.empty, naming_file_info = None\<rparr>
        [Insert 1 [''A'', ''B''], GetPath ''A'', CreateTable, Insert 2 [''C'']]) = Some t' \<and>
      index_rel (abs_run Map.empty [Insert 1 [''A'', ''B''], GetPath ''A'', CreateTable, Insert 2 [''C'']]) t'"
proof -
  have rel: "index_rel Map.empty Map.empty" by (simp add: index_rel_def)
  have inj: "inj_on const_hash (dom (Map.empty :: string \<rightharpoonup> i64) \<union>
      \<Union> (op_names ` set [Insert 1 [''A'', ''B''], GetPath ''A'', CreateTable, Insert 2 [''C'']]))"
    by (simp add: hash_defs)
  show ?thesis by (rule run_refines_abstract [OF _ rel inj]) simp
qed

text \<open>
  C38. Resolved lookups are stable. Once \<open>get_path\<close> resolves a name to a path, every
  later run of \<open>create_table\<close>, \<open>insert\<close> and \<open>get_path\<close> calls, in any order and
  whatever they return, leaves that name resolving to the same path, as long as the
  file-location store does not rewrite its table: a caller may cache a resolved path.
\<close>

theorem lookup_stable:
  assumes "get_path conn n = Inr (Some p)" and "\<forall>op \<in> set ops. \<not> writes_file_info op"
  shows "get_path (run_ops conn ops) n = Inr (Some p)"
proof -
  from assms(1) obtain t fi where t: "naming_consts conn = Some t" and fi: "naming_file_info conn = Some fi"
    by (auto simp: get_path_def prepare_select_def split: option.splits)
  from assms(1) t fi obtain fid where hit: "t (const_hash n) = Some fid"
    by (cases "t (const_hash n)") (auto simp: get_path_tables select_path_row_def)
  from run_ops_rows [OF t] obtain t' where t': "naming_consts (run_ops conn ops) = Some t'"
    and le: "t \<subseteq>\<^sub>m t'" by blast
  from le hit have hit': "t' (const_hash n) = Some fid" by (metis domI map_le_def)
  from assms(2) fi have fi': "naming_file_info (run_ops conn ops) = Some fi"
    by (simp add: run_ops_file_info)
  from t' fi' have "get_path (run_ops conn ops) n =
      (case select_path_row t' fi (const_hash n) of None \<Rightarrow> Inr None | Some row \<Rightarrow> map_sum id Some (path_of_row row))"
    by (rule get_path_tables)
  also from hit hit' have "\<dots> = (case select_path_row t fi (const_hash n) of None \<Rightarrow> Inr None | Some row \<Rightarrow> map_sum id Some (path_of_row row))"
    by (simp add: select_path_row_def)
  also from t fi have "\<dots> = get_path conn n" by (rule get_path_tables [symmetric])
  finally show ?thesis using assms(1) by simp
qed

theorem lookup_stable_witness:
  "let conn = \<lparr>naming_consts = Some [const_hash ''Foo'' \<mapsto> 4],
              naming_file_info = Some [4 \<mapsto> \<lparr>path_prefix_type = SqlInteger 1, path_suffix = SqlText ''c.hhi''\<rparr>]\<rparr>;
       ops = [Insert 5 [''Foo''], CreateTable, GetPath ''Bar'', Insert 5 [''Bar'']]
   in get_path conn ''Foo'' = Inr (Some (RelativePath Hhi ''c.hhi'')) \<and>
      (\<forall>op \<in> set ops. \<not> writes_file_info op) \<and>
      get_path (run_ops conn ops) ''Foo'' = Inr (Some (RelativePath Hhi ''c.hhi''))"
proof -
  define conn where "conn = \<lparr>naming_consts = Some [const_hash ''Foo'' \<mapsto> (4 :: i64)],
              naming_file_info = Some [4 \<mapsto> \<lparr>path_prefix_type = SqlInteger 1, path_suffix = SqlText ''c.hhi''\<rparr>]\<rparr>"
  define ops where "ops = [Insert 5 [''Foo''], CreateTable, GetPath ''Bar'', Insert 5 [''Bar'']]"
  have hit: "get_path conn ''Foo'' = Inr (Some (RelativePath Hhi ''c.hhi''))"
    by (rule get_path_hit [where t = "[const_hash ''Foo'' \<mapsto> 4]" and fid = 4
        and fi = "[4 \<mapsto> \<lparr>path_prefix_type = SqlInteger 1, path_suffix = SqlText ''c.hhi''\<rparr>]"
        and r = "\<lparr>path_prefix_type = SqlInteger 1, path_suffix = SqlText ''c.hhi''\<rparr>"])
       (simp_all add: conn_def)
  have ops: "\<forall>op \<in> set ops. \<not> writes_file_info op" by (simp add: ops_def)
  from lookup_stable [OF hit ops] hit ops show ?thesis
    by (simp only: conn_def [symmetric] ops_def [symmetric] Let_def)
qed

end
