(* ===== verification/Insert_Iter.thy ===== *)
theory Insert_Iter
  imports Consts
begin

text \<open>
  \<open>insert\<close> over its real argument: \<open>names: impl Iterator<Item = String>\<close>, a lazy,
  single-pass sequence that may be infinite. An iterator is its \<open>next\<close> function on
  a state of any type (\<open>'s name_iter\<close>); the \<open>for\<close> loop calls it until it
  returns \<open>None\<close> or an \<open>execute\<close> fails. Since nothing bounds the iterator, the loop
  is defined with \<open>partial_function (option)\<close>, \<open>None\<close> standing for a loop that does
  not return. The theory proves that it always returns all the same, for every iterator:
  each successful \<open>execute\<close> takes one of the finitely many 64-bit keys, so after at
  most \<open>2^64\<close> names a key is taken twice (termination by the number of free keys). An
  iterator that never ends therefore always makes \<open>insert\<close> fail, and over the
  iterator of a list the loop computes exactly \<open>insert_consts\<close>.
\<close>

type_synonym 's name_iter = "'s \<Rightarrow> (string \<times> 's) option"

text \<open>The iterator of a list of names, as \<open>[\<dots>].iter().cloned()\<close> in the unit test.\<close>

definition list_iter :: "string list name_iter" where
  "list_iter xs = (case xs of [] \<Rightarrow> None | x # rest \<Rightarrow> Some (x, rest))"

partial_function (option) insert_iter_loop ::
  "'s name_iter \<Rightarrow> i64 \<Rightarrow> 's \<Rightarrow> i64 table \<Rightarrow> ((sqlite_error + unit) \<times> i64 table) option" where
  "insert_iter_loop nxt file_info_id s t =
     (case nxt s of
        None \<Rightarrow> Some (Inr (), t)
      | Some (name, s') \<Rightarrow>
          (let hash = name_to_hash GConst name in
           case exec_insert_naming_consts hash file_info_id t of
             Inl e \<Rightarrow> Some (Inl e, t)
           | Inr t' \<Rightarrow> insert_iter_loop nxt file_info_id s' t'))"

definition insert_iter ::
  "connection \<Rightarrow> i64 \<Rightarrow> 's name_iter \<Rightarrow> 's \<Rightarrow> ((sqlite_error + unit) \<times> connection) option" where
  "insert_iter conn file_info_id nxt s =
     (case prepare_insert conn of
        Inl e \<Rightarrow> Some (Inl e, conn)
      | Inr t \<Rightarrow>
          map_option (\<lambda>(r, t'). (r, conn\<lparr>naming_consts := Some t'\<rparr>))
            (insert_iter_loop nxt file_info_id s t))"

subsection \<open>Lemmas\<close>

lemma insert_iter_loop_step:
  "nxt s = Some (n, s') \<Longrightarrow>
   insert_iter_loop nxt fid s t =
     (if const_hash n \<in> dom t then Some (Inl (PrimaryKeyViolation (const_hash n)), t)
      else insert_iter_loop nxt fid s' (t(const_hash n \<mapsto> fid)))"
  by (subst insert_iter_loop.simps)
     (auto simp: exec_insert_naming_consts_def Let_def split: option.splits)

lemma insert_iter_loop_done:
  "nxt s = None \<Longrightarrow> insert_iter_loop nxt fid s t = Some (Inr (), t)"
  by (subst insert_iter_loop.simps) simp

lemma card_free_keys_upd:
  "k \<notin> dom (t :: 'v table) \<Longrightarrow> card (- dom (t(k \<mapsto> v))) < card (- dom t)"
proof -
  assume k: "k \<notin> dom t"
  have eq: "- dom (t(k \<mapsto> v)) = (- dom t) - {k}" by auto
  have "finite (- dom t)" by simp
  moreover from k have "k \<in> - dom t" by simp
  ultimately have "card (- dom t - {k}) < card (- dom t)" by (rule card_Diff1_less)
  with eq show ?thesis by (simp only:)
qed

text \<open>The loop's termination argument, with the two ways it can stop kept apart.\<close>

lemma insert_iter_loop_returns:
  "\<exists>r t'. insert_iter_loop nxt fid s t = Some (r, t') \<and>
     (r = Inr () \<longrightarrow> (\<exists>s'. nxt s' = None)) \<and>
     (\<forall>e. r = Inl e \<longrightarrow> (\<exists>k. e = PrimaryKeyViolation k))"
proof (induction "card (- dom t)" arbitrary: s t rule: less_induct)
  case less
  show ?case
  proof (cases "nxt s")
    case None
    then show ?thesis by (auto simp: insert_iter_loop_done)
  next
    case (Some p)
    obtain n s' where p: "p = (n, s')" by (cases p)
    show ?thesis
    proof (cases "const_hash n \<in> dom t")
      case True
      with Some p show ?thesis by (simp add: insert_iter_loop_step)
    next
      case False
      then have "card (- dom (t(const_hash n \<mapsto> fid))) < card (- dom t)"
        by (rule card_free_keys_upd)
      from less [OF this, of s'] False Some p show ?thesis
        by (simp add: insert_iter_loop_step)
    qed
  qed
qed

lemma insert_iter_loop_list:
  "insert_iter_loop list_iter fid ns t = Some (insert_loop fid ns t)"
proof (induction ns arbitrary: t)
  case Nil
  then show ?case by (simp add: insert_iter_loop_done list_iter_def)
next
  case (Cons n ns)
  have step: "list_iter (n # ns) = Some (n, ns)" by (simp add: list_iter_def)
  show ?case
  proof (cases "const_hash n \<in> dom t")
    case True
    with step show ?thesis by (simp add: insert_iter_loop_step insert_loop_Cons_clash)
  next
    case False
    have "insert_iter_loop list_iter fid (n # ns) t =
        insert_iter_loop list_iter fid ns (t(const_hash n \<mapsto> fid))"
      using step False by (simp add: insert_iter_loop_step)
    also have "\<dots> = Some (insert_loop fid ns (t(const_hash n \<mapsto> fid)))"
      by (rule Cons.IH)
    also have "\<dots> = Some (insert_loop fid (n # ns) t)"
      using False by (simp add: insert_loop_Cons_fresh)
    finally show ?thesis .
  qed
qed

lemma insert_iter_list_consts:
  "insert_iter conn fid list_iter ns = Some (insert_consts conn fid ns)"
  by (simp add: insert_iter_def insert_consts_def insert_iter_loop_list split: sum.splits prod.splits)

section \<open>Properties of insert over an iterator\<close>

text \<open>
  C21: \<open>insert\<close> returns for every iterator of names, finite or not: whatever the
  iterator and the database, the loop ends, with a result and a connection.
\<close>

theorem insert_iter_terminates:
  "\<exists>res. insert_iter conn fid nxt s = Some res"
proof (cases "prepare_insert conn")
  case (Inl e)
  then show ?thesis by (simp add: insert_iter_def)
next
  case (Inr t)
  obtain r t' where "insert_iter_loop nxt fid s t = Some (r, t')"
    using insert_iter_loop_returns [of nxt fid s t] by blast
  with Inr show ?thesis by (simp add: insert_iter_def)
qed

text \<open>
  C22: An iterator that never ends makes \<open>insert\<close> fail. On an existing table, a
  never-ending iterator is cut off by the primary-key error of the first name whose
  hash is already taken, which must come since there are only \<open>2^64\<close> keys.
\<close>

theorem insert_iter_endless_fails:
  assumes "\<forall>s. nxt s \<noteq> None" and "naming_consts conn = Some t"
  shows "\<exists>k conn'. insert_iter conn fid nxt s = Some (Inl (PrimaryKeyViolation k), conn')"
proof -
  obtain r t' where run: "insert_iter_loop nxt fid s t = Some (r, t')"
    and ok: "r = Inr () \<longrightarrow> (\<exists>s'. nxt s' = None)"
    and err: "\<forall>e. r = Inl e \<longrightarrow> (\<exists>k. e = PrimaryKeyViolation k)"
    using insert_iter_loop_returns [of nxt fid s t] by blast
  from ok assms(1) obtain e where "r = Inl e" by (cases r) auto
  with err obtain k where "r = Inl (PrimaryKeyViolation k)" by blast
  with run assms(2) show ?thesis
    by (auto simp: insert_iter_def prepare_insert_def)
qed

theorem insert_iter_endless_fails_witness:
  "\<exists>k conn'. insert_iter \<lparr>naming_consts = Some Map.empty, naming_file_info = None\<rparr> 9
      (\<lambda>u :: unit. Some (''A'', u)) () = Some (Inl (PrimaryKeyViolation k), conn')"
  by (rule insert_iter_endless_fails [where t = Map.empty]) simp_all

text \<open>
  C23: \<open>insert\<close> over the iterator of a list, against the specification of a batch.
  On an existing table it returns \<open>Ok\<close>, having written exactly one row per name
  under that name's hash and the file id, if and only if the hashes of the names are
  distinct and new to the table; otherwise it fails with the primary-key violation of the
  hash of one of the names.
\<close>

theorem insert_iter_list_outcome:
  assumes "naming_consts conn = Some t"
  shows "(insert_iter conn fid list_iter ns =
            Some (Inr (), conn\<lparr>naming_consts := Some (t(map const_hash ns [\<mapsto>] replicate (length ns) fid))\<rparr>)
          \<longleftrightarrow> distinct (map const_hash ns) \<and> set (map const_hash ns) \<inter> dom t = {}) \<and>
         (\<not> (distinct (map const_hash ns) \<and> set (map const_hash ns) \<inter> dom t = {}) \<longrightarrow>
          (\<exists>n \<in> set ns. \<exists>conn'. insert_iter conn fid list_iter ns =
             Some (Inl (PrimaryKeyViolation (const_hash n)), conn')))"
proof -
  have iter: "insert_iter conn fid list_iter ns =
      Some (fst (insert_loop fid ns t), conn\<lparr>naming_consts := Some (snd (insert_loop fid ns t))\<rparr>)"
    using assms by (simp add: insert_iter_list_consts insert_consts_table)
  show ?thesis
  proof (cases "distinct (map const_hash ns) \<and> set (map const_hash ns) \<inter> dom t = {}")
    case True
    then have "fst (insert_loop fid ns t) = Inr ()" by (simp add: insert_loop_Inr_iff)
    with True iter show ?thesis by (simp add: insert_loop_table_Inr)
  next
    case False
    then obtain e where e: "fst (insert_loop fid ns t) = Inl e"
      using insert_loop_Inr_iff [of fid ns t] by (cases "fst (insert_loop fid ns t)") auto
    then obtain k where "k < length ns" and "e = PrimaryKeyViolation (const_hash (ns ! k))"
      by (blast dest: insert_loop_Inl)
    then have "ns ! k \<in> set ns" and "e = PrimaryKeyViolation (const_hash (ns ! k))" by simp_all
    with False iter e show ?thesis by auto
  qed
qed

theorem insert_iter_list_outcome_witness:
  "naming_consts \<lparr>naming_consts = Some Map.empty, naming_file_info = None\<rparr> = Some (Map.empty :: i64 table) \<and>
   \<not> (distinct (map const_hash [''A'', ''A'']) \<and> set (map const_hash [''A'', ''A'']) \<inter> dom (Map.empty :: i64 table) = {}) \<and>
   (\<exists>n \<in> set [''A'', ''A'']. \<exists>conn'. insert_iter \<lparr>naming_consts = Some Map.empty, naming_file_info = None\<rparr> 5
      list_iter [''A'', ''A''] = Some (Inl (PrimaryKeyViolation (const_hash n)), conn'))"
proof -
  have nd: "\<not> (distinct (map const_hash [''A'', ''A'']) \<and> set (map const_hash [''A'', ''A'']) \<inter> dom (Map.empty :: i64 table) = {})"
    by simp
  from insert_iter_list_outcome [of "\<lparr>naming_consts = Some Map.empty, naming_file_info = None\<rparr>" Map.empty 5 "[''A'', ''A'']"] nd
  show ?thesis by simp
qed

end
