(* ===== verification/Storage_Faults.thy ===== *)
theory Storage_Faults
  imports Consts
begin

text \<open>
  \<open>insert\<close> against an engine that may fail. Every \<open>execute\<close> of the loop in
  \<open>consts.rs\<close> either fails inside the engine (I/O, a full disk, a busy lock: the error
  \<open>StorageFailure\<close>, and by SQLite's statement atomicity nothing of that statement is
  written), or runs the \<open>INSERT\<close> as \<open>exec_insert_naming_consts\<close> says. Which one
  happens is not determined by the program, so the loop becomes the inductive relation
  \<open>insert_io\<close> between a batch, the table before, and the result with the table after.
  The theory shows that the deterministic \<open>insert_loop\<close> is the run without engine
  failures, and that every run, whatever fails and where, leaves exactly a prefix of the
  batch written, all of it exactly when the result is \<open>Ok\<close>.
\<close>

inductive insert_io ::
  "i64 \<Rightarrow> string list \<Rightarrow> i64 table \<Rightarrow> (sqlite_error + unit) \<times> i64 table \<Rightarrow> bool" where
  io_nil: "insert_io fid [] t (Inr (), t)"
| io_fault: "insert_io fid (n # ns) t (Inl StorageFailure, t)"
| io_error: "exec_insert_naming_consts (name_to_hash GConst n) fid t = Inl e \<Longrightarrow>
     insert_io fid (n # ns) t (Inl e, t)"
| io_ok: "exec_insert_naming_consts (name_to_hash GConst n) fid t = Inr t' \<Longrightarrow>
     insert_io fid ns t' res \<Longrightarrow> insert_io fid (n # ns) t res"

inductive_cases insert_io_NilE: "insert_io fid [] t res"
inductive_cases insert_io_ConsE: "insert_io fid (n # ns) t res"

subsection \<open>Lemmas\<close>

lemma insert_io_loop:
  "insert_io fid ns t (insert_loop fid ns t)"
proof (induction ns arbitrary: t)
  case Nil
  then show ?case by (simp add: io_nil)
next
  case (Cons n ns)
  show ?case
  proof (cases "exec_insert_naming_consts (const_hash n) fid t")
    case (Inl e)
    then show ?thesis by (simp add: insert_loop.simps(2) io_error)
  next
    case (Inr t')
    with Cons.IH [of t'] show ?thesis by (simp add: insert_loop.simps(2) io_ok)
  qed
qed

lemma insert_io_no_fault:
  "insert_io fid ns t res \<Longrightarrow> fst res = Inl StorageFailure \<or> res = insert_loop fid ns t"
proof (induction rule: insert_io.induct)
  case (io_nil fid t)
  then show ?case by simp
next
  case (io_fault fid n ns t)
  then show ?case by simp
next
  case (io_error n fid t e ns)
  then show ?case by (simp add: insert_loop.simps(2))
next
  case (io_ok n fid t t' ns res)
  then show ?case by (auto simp: insert_loop.simps(2))
qed

section \<open>Properties of insert under storage failures\<close>

text \<open>
  C16: Whatever the engine does, a batch insert leaves a prefix. For every run of
  \<open>insert\<close> in which any \<open>execute\<close> may fail, there is a \<open>k\<close> such that exactly the
  first \<open>k\<close> names were written (their hashes distinct and new to the table) and nothing
  else changed; the result is \<open>Ok\<close> exactly when the whole batch was written.
\<close>

theorem insert_io_prefix:
  "insert_io fid ns t res \<Longrightarrow>
   \<exists>k \<le> length ns.
      distinct (map const_hash (take k ns)) \<and>
      set (map const_hash (take k ns)) \<inter> dom t = {} \<and>
      snd res = t(map const_hash (take k ns) [\<mapsto>] replicate k fid) \<and>
      (fst res = Inr () \<longleftrightarrow> k = length ns)"
proof (induction rule: insert_io.induct)
  case (io_nil fid t)
  then show ?case by simp
next
  case (io_fault fid n ns t)
  then show ?case by (intro exI [of _ 0]) simp
next
  case (io_error n fid t e ns)
  then show ?case by (intro exI [of _ 0]) simp
next
  case (io_ok n fid t t1 ns res)
  from io_ok.hyps(1) have fresh: "const_hash n \<notin> dom t" and t1: "t1 = t(const_hash n \<mapsto> fid)"
    by (simp_all add: exec_insert_naming_consts_Inr)
  from io_ok.IH obtain k where "k \<le> length ns"
    and "distinct (map const_hash (take k ns))"
    and "set (map const_hash (take k ns)) \<inter> dom t1 = {}"
    and "snd res = t1(map const_hash (take k ns) [\<mapsto>] replicate k fid)"
    and "fst res = Inr () \<longleftrightarrow> k = length ns"
    by blast
  with fresh t1 show ?case
    by (intro exI [of _ "Suc k"]) auto
qed

theorem insert_io_prefix_witness:
  "\<exists>k \<le> length [''A'', ''B''].
      distinct (map const_hash (take k [''A'', ''B''])) \<and>
      set (map const_hash (take k [''A'', ''B''])) \<inter> dom (Map.empty :: i64 table) = {} \<and>
      snd (Inl StorageFailure :: sqlite_error + unit, [const_hash ''A'' \<mapsto> (5::i64)]) =
        Map.empty(map const_hash (take k [''A'', ''B'']) [\<mapsto>] replicate k 5) \<and>
      (fst (Inl StorageFailure :: sqlite_error + unit, [const_hash ''A'' \<mapsto> (5::i64)]) = Inr ()
        \<longleftrightarrow> k = length [''A'', ''B''])"
proof -
  have tail: "insert_io 5 [''B''] [const_hash ''A'' \<mapsto> 5] (Inl StorageFailure, [const_hash ''A'' \<mapsto> 5])"
    by (rule io_fault)
  have "insert_io 5 [''A'', ''B''] Map.empty (Inl StorageFailure, [const_hash ''A'' \<mapsto> 5])"
    by (rule io_ok [OF _ tail]) (simp add: exec_insert_naming_consts_def)
  then show ?thesis by (rule insert_io_prefix)
qed

text \<open>
  C17: The code's loop is the failure-free run. \<open>insert_loop\<close>, which treats every
  \<open>execute\<close> as the engine's statement semantics, is one of the runs of
  \<open>insert_io\<close>, and every run that does not end in a storage failure is that one.
\<close>

theorem insert_loop_is_fault_free_run:
  "insert_io fid ns t (insert_loop fid ns t) \<and>
   (insert_io fid ns t res \<longrightarrow> fst res = Inl StorageFailure \<or> res = insert_loop fid ns t)"
  using insert_io_loop insert_io_no_fault by blast

theorem insert_loop_is_fault_free_run_witness:
  "insert_io 5 [''A''] Map.empty (Inr (), [const_hash ''A'' \<mapsto> 5]) \<and>
   (Inr (), [const_hash ''A'' \<mapsto> 5]) = insert_loop 5 [''A''] Map.empty"
proof -
  have run: "insert_io 5 [''A''] Map.empty (Inr (), [const_hash ''A'' \<mapsto> 5])"
    by (rule io_ok [OF _ io_nil]) (simp add: exec_insert_naming_consts_def)
  from insert_loop_is_fault_free_run [of 5 "[''A'']" Map.empty "(Inr (), [const_hash ''A'' \<mapsto> 5])"] run
  show ?thesis by simp
qed

end
