(* ===== verification/Run_Trace.thy ===== *)
theory Run_Trace
  imports Index_Machine
begin

text \<open>
  Runs with their answers. \<open>Index_Machine\<close> follows the state of the database along a
  run; here each call also returns what the Rust function returns to its caller: the
  \<open>Result<()>\<close> of \<open>create_table\<close> and \<open>insert\<close>, the
  \<open>Result<Option<RelativePath>>\<close> of \<open>get_path\<close> (a write of the file-location
  store answers nothing). The abstract index of \<open>Index_Machine\<close>, extended with the
  file table it joins, answers the same calls; its insert reports the name that was
  already present, where the code reports the primary-key violation of that name's hash.
  The theory proves that the answers of the code are, call by call, the answers of the
  abstract index, for every run on names the hash keeps apart.
\<close>

datatype op_result =
    UnitResult "sqlite_error + unit"
  | PathResult "sqlite_error + relative_path option"

fun exec_op :: "connection \<Rightarrow> index_op \<Rightarrow> op_result option \<times> connection" where
  "exec_op conn CreateTable = (let (r, conn') = create_table conn in (Some (UnitResult r), conn'))"
| "exec_op conn (Insert fid names) =
     (let (r, conn') = insert_consts conn fid names in (Some (UnitResult r), conn'))"
| "exec_op conn (GetPath name) = (Some (PathResult (get_path conn name)), conn)"
| "exec_op conn (SetFileInfo fi) = (None, conn\<lparr>naming_file_info := fi\<rparr>)"

fun exec_ops :: "connection \<Rightarrow> index_op list \<Rightarrow> op_result option list \<times> connection" where
  "exec_ops conn [] = ([], conn)"
| "exec_ops conn (op # ops) =
     (let (r, conn1) = exec_op conn op; (rs, conn2) = exec_ops conn1 ops in (r # rs, conn2))"

subsection \<open>The abstract index with its answers\<close>

record abs_index =
  names :: "string \<rightharpoonup> i64"
  files :: "file_info_row table option"

datatype abs_result =
    AbsUnit "string + unit"
  | AbsPath "sqlite_error + relative_path option"

fun abs_exec :: "abs_index \<Rightarrow> index_op \<Rightarrow> abs_result option \<times> abs_index" where
  "abs_exec S CreateTable = (Some (AbsUnit (Inr ())), S)"
| "abs_exec S (Insert fid ns) =
     (let (r, A) = abs_insert fid ns (names S) in (Some (AbsUnit r), S\<lparr>names := A\<rparr>))"
| "abs_exec S (GetPath n) =
     (Some (AbsPath (case files S of
                       None \<Rightarrow> Inl (NoSuchTable ''NAMING_FILE_INFO'')
                     | Some fi \<Rightarrow> abs_get_path (names S) fi n)), S)"
| "abs_exec S (SetFileInfo fi) = (None, S\<lparr>files := fi\<rparr>)"

fun abs_exec_ops :: "abs_index \<Rightarrow> index_op list \<Rightarrow> abs_result option list \<times> abs_index" where
  "abs_exec_ops S [] = ([], S)"
| "abs_exec_ops S (op # ops) =
     (let (r, S1) = abs_exec S op; (rs, S2) = abs_exec_ops S1 ops in (r # rs, S2))"

text \<open>The code's answer to an abstract answer: a rejected name is the violation of its key.\<close>

fun conc_result :: "abs_result \<Rightarrow> op_result" where
  "conc_result (AbsUnit r) = UnitResult (map_sum (\<lambda>n. PrimaryKeyViolation (const_hash n)) id r)"
| "conc_result (AbsPath r) = PathResult r"

fun op_all_names :: "index_op \<Rightarrow> string set" where
  "op_all_names (Insert fid ns) = set ns"
| "op_all_names (GetPath n) = {n}"
| "op_all_names _ = {}"

definition trace_rel :: "abs_index \<Rightarrow> connection \<Rightarrow> bool" where
  "trace_rel S conn \<longleftrightarrow>
     (\<exists>t. naming_consts conn = Some t \<and> index_rel (names S) t) \<and>
     files S = naming_file_info conn"

subsection \<open>Lemmas\<close>

lemma exec_op_state:
  "snd (exec_op conn op) = run_op conn op"
  by (cases op) (simp_all split: prod.splits)

lemma exec_op_refines:
  assumes "trace_rel S conn" and "inj_on const_hash (dom (names S) \<union> op_all_names op)"
  shows "trace_rel (snd (abs_exec S op)) (snd (exec_op conn op)) \<and>
         fst (exec_op conn op) = map_option conc_result (fst (abs_exec S op))"
proof -
  from assms(1) obtain t where t: "naming_consts conn = Some t"
    and rel: "index_rel (names S) t" and fi: "files S = naming_file_info conn"
    by (auto simp: trace_rel_def)
  show ?thesis
  proof (cases op)
    case CreateTable
    with assms(1) t show ?thesis by (simp add: create_table_def exec_create_naming_consts_keeps)
  next
    case (Insert fid ns)
    with assms(2) have "inj_on const_hash (dom (names S) \<union> set ns)" by simp
    with rel have "index_rel (snd (abs_insert fid ns (names S))) (snd (insert_loop fid ns t)) \<and>
       fst (insert_loop fid ns t) =
         map_sum (\<lambda>n. PrimaryKeyViolation (const_hash n)) id (fst (abs_insert fid ns (names S)))"
      by (rule insert_loop_refines)
    with Insert t fi show ?thesis
      by (auto simp: insert_consts_table trace_rel_def case_prod_unfold Let_def)
  next
    case (GetPath n)
    show ?thesis
    proof (cases "naming_file_info conn")
      case None
      with GetPath t fi assms(1) show ?thesis by (simp add: get_path_def prepare_select_def)
    next
      case (Some f)
      from assms(2) GetPath have "inj_on const_hash (insert n (dom (names S)))"
        by (simp add: insert_commute)
      with t Some rel have "get_path conn n = abs_get_path (names S) f n"
        by (rule get_path_abs)
      with GetPath Some fi assms(1) show ?thesis by simp
    qed
  next
    case (SetFileInfo f)
    with t rel show ?thesis by (auto simp: trace_rel_def)
  qed
qed

lemma dom_abs_exec:
  "dom (names (snd (abs_exec S op))) \<subseteq> dom (names S) \<union> op_all_names op"
proof (cases op)
  case (Insert fid ns)
  then show ?thesis using dom_abs_insert [of fid ns "names S"] by (simp add: case_prod_unfold Let_def)
qed auto

subsection \<open>Properties\<close>

text \<open>
  C26. The answers refine the abstract index. From a database whose constants table
  represents the abstract name map and whose file table is the abstract one, every run
  of calls gives, call by call, the abstract index's answers (a rejected name turned into
  the primary-key violation of its hash) and ends in a related state, provided the hash is
  injective on the abstract names and on every name the run inserts or looks up.
\<close>

theorem run_answers_refine_abstract:
  "trace_rel S conn \<Longrightarrow> inj_on const_hash (dom (names S) \<union> \<Union> (op_all_names ` set ops)) \<Longrightarrow>
   fst (exec_ops conn ops) = map (map_option conc_result) (fst (abs_exec_ops S ops)) \<and>
   trace_rel (snd (abs_exec_ops S ops)) (snd (exec_ops conn ops))"
proof (induction ops arbitrary: S conn)
  case Nil
  then show ?case by simp
next
  case (Cons op ops)
  have "inj_on const_hash (dom (names S) \<union> op_all_names op)"
    using Cons.prems(2) by (rule inj_on_subset) auto
  with Cons.prems(1) have step: "trace_rel (snd (abs_exec S op)) (snd (exec_op conn op))"
    and res: "fst (exec_op conn op) = map_option conc_result (fst (abs_exec S op))"
    by (simp_all add: exec_op_refines)
  have "inj_on const_hash (dom (names (snd (abs_exec S op))) \<union> \<Union> (op_all_names ` set ops))"
    using Cons.prems(2) dom_abs_exec [of S op] by (elim inj_on_subset) auto
  with step have "fst (exec_ops (snd (exec_op conn op)) ops) =
      map (map_option conc_result) (fst (abs_exec_ops (snd (abs_exec S op)) ops)) \<and>
    trace_rel (snd (abs_exec_ops (snd (abs_exec S op)) ops)) (snd (exec_ops (snd (exec_op conn op)) ops))"
    by (rule Cons.IH)
  with res show ?case by (simp add: case_prod_unfold Let_def)
qed

theorem run_answers_refine_abstract_witness:
  "let S = \<lparr>names = Map.empty, files = Some Map.empty\<rparr>;
       conn = \<lparr>naming_consts = Some Map.empty, naming_file_info = Some Map.empty\<rparr>;
       ops = [Insert 1 [''A''], GetPath ''A'', Insert 2 [''A''], SetFileInfo None, GetPath ''B'']
   in trace_rel S conn \<and> inj_on const_hash (dom (names S) \<union> \<Union> (op_all_names ` set ops)) \<and>
      fst (exec_ops conn ops) = map (map_option conc_result) (fst (abs_exec_ops S ops)) \<and>
      trace_rel (snd (abs_exec_ops S ops)) (snd (exec_ops conn ops))"
proof -
  define S where "S = \<lparr>names = (Map.empty :: string \<rightharpoonup> i64), files = Some Map.empty\<rparr>"
  define conn where "conn = \<lparr>naming_consts = Some (Map.empty :: i64 table), naming_file_info = Some Map.empty\<rparr>"
  define ops where "ops = [Insert 1 [''A''], GetPath ''A'', Insert 2 [''A''], SetFileInfo None, GetPath ''B'']"
  have rel: "trace_rel S conn" by (simp add: S_def conn_def trace_rel_def index_rel_def)
  have inj: "inj_on const_hash (dom (names S) \<union> \<Union> (op_all_names ` set ops))"
    by (simp add: S_def ops_def hash_defs)
  from rel inj run_answers_refine_abstract [of S conn ops] show ?thesis
    by (simp add: S_def [symmetric] conn_def [symmetric] ops_def [symmetric] Let_def)
qed

end
