(* ===== verification/Faulty_Runs.thy ===== *)
theory Faulty_Runs
  imports Storage_Faults Run_Trace
begin

text \<open>
  Runs of the index against an engine that may fail anywhere. Each call of a run may
  also fail inside SQLite with \<open>StorageFailure\<close>: \<open>create_table\<close> (the \<open>execute\<close> of
  its statement), \<open>insert\<close> (\<open>prepare\<close>, or any \<open>execute\<close> of its loop, as
  \<open>insert_io\<close> says) and \<open>get_path\<close> (\<open>prepare_cached\<close> or \<open>query_row\<close>). A failed
  statement writes nothing (SQLite statements are atomic), and \<open>?\<close> returns the error
  at once, so a failing call leaves the connection as the statements before it left it.
  \<open>exec_op_io\<close> is one call, \<open>run_io\<close> a run with its answers. The theory proves that
  rows are never changed or removed whatever fails, and that a run in which the engine
  never fails is the deterministic run of \<open>Run_Trace\<close>, answer for answer.
\<close>

inductive exec_op_io :: "connection \<Rightarrow> index_op \<Rightarrow> op_result option \<times> connection \<Rightarrow> bool" where
  create_ok: "exec_op_io conn CreateTable (exec_op conn CreateTable)"
| create_fault: "exec_op_io conn CreateTable (Some (UnitResult (Inl StorageFailure)), conn)"
| insert_no_table: "prepare_insert conn = Inl e \<Longrightarrow>
     exec_op_io conn (Insert fid ns) (Some (UnitResult (Inl e)), conn)"
| insert_prepare_fault: "exec_op_io conn (Insert fid ns) (Some (UnitResult (Inl StorageFailure)), conn)"
| insert_run: "prepare_insert conn = Inr t \<Longrightarrow> insert_io fid ns t (r, t') \<Longrightarrow>
     exec_op_io conn (Insert fid ns) (Some (UnitResult r), conn\<lparr>naming_consts := Some t'\<rparr>)"
| get_ok: "exec_op_io conn (GetPath n) (exec_op conn (GetPath n))"
| get_fault: "exec_op_io conn (GetPath n) (Some (PathResult (Inl StorageFailure)), conn)"
| set_file_info: "exec_op_io conn (SetFileInfo fi) (exec_op conn (SetFileInfo fi))"

inductive run_io :: "connection \<Rightarrow> index_op list \<Rightarrow> op_result option list \<Rightarrow> connection \<Rightarrow> bool" where
  run_nil: "run_io conn [] [] conn"
| run_cons: "exec_op_io conn op (r, conn1) \<Longrightarrow> run_io conn1 ops rs conn2 \<Longrightarrow>
     run_io conn (op # ops) (r # rs) conn2"

inductive_cases run_io_NilE: "run_io conn [] rs conn'"
inductive_cases run_io_ConsE: "run_io conn (op # ops) rs conn'"

text \<open>An answer that reports a failure of the engine.\<close>

fun is_fault :: "op_result option \<Rightarrow> bool" where
  "is_fault (Some (UnitResult (Inl StorageFailure))) = True"
| "is_fault (Some (PathResult (Inl StorageFailure))) = True"
| "is_fault _ = False"

subsection \<open>Lemmas\<close>

lemma insert_io_mono:
  "insert_io fid ns t res \<Longrightarrow> t \<subseteq>\<^sub>m snd res"
proof (induction rule: insert_io.induct)
  case (io_ok n fid t t' ns res)
  from io_ok.hyps(1) have "const_hash n \<notin> dom t" and "t' = t(const_hash n \<mapsto> fid)"
    by (simp_all add: exec_insert_naming_consts_Inr)
  then have "t \<subseteq>\<^sub>m t'" by blast
  from this io_ok.IH show ?case by (rule map_le_trans)
qed simp_all

lemma prepare_insert_Inr:
  "prepare_insert conn = Inr t \<longleftrightarrow> naming_consts conn = Some t"
  by (simp add: prepare_insert_def split: option.splits)

lemma exec_op_io_rows:
  "exec_op_io conn op res \<Longrightarrow> naming_consts conn = Some t0 \<Longrightarrow>
   \<exists>t'. naming_consts (snd res) = Some t' \<and> t0 \<subseteq>\<^sub>m t'"
proof (induction rule: exec_op_io.induct)
  case (create_ok conn)
  then show ?case by (simp add: create_table_def exec_create_naming_consts_keeps)
next
  case (insert_run conn t fid ns r t')
  then have "t = t0" by (simp add: prepare_insert_Inr)
  with insert_run.hyps(2) insert_io_mono [of fid ns t "(r, t')"] show ?case by simp
qed auto

lemma exec_op_io_det:
  "exec_op_io conn op res \<Longrightarrow> \<not> is_fault (fst res) \<Longrightarrow> res = exec_op conn op"
proof (induction rule: exec_op_io.induct)
  case (insert_no_table conn e fid ns)
  then show ?case by (simp add: insert_consts_def)
next
  case (insert_run conn t fid ns r t')
  from insert_run.prems insert_run.hyps(2) insert_io_no_fault [of fid ns t "(r, t')"]
  have "(r, t') = insert_loop fid ns t" by auto
  moreover from insert_run.hyps(1) have "naming_consts conn = Some t" by (simp add: prepare_insert_Inr)
  ultimately show ?case by (simp add: insert_consts_table) (metis fst_conv snd_conv)
qed auto

lemma exec_op_io_exec:
  "exec_op_io conn op (exec_op conn op)"
proof (cases op)
  case (Insert fid ns)
  show ?thesis
  proof (cases "prepare_insert conn")
    case (Inl e)
    with Insert show ?thesis by (simp add: insert_consts_def insert_no_table)
  next
    case (Inr t)
    then have "naming_consts conn = Some t" by (simp add: prepare_insert_Inr)
    with Inr Insert insert_io_loop [of fid ns t] show ?thesis
      by (simp add: insert_consts_table insert_run)
  qed
qed (auto intro: create_ok get_ok set_file_info simp del: exec_op.simps)

lemma run_io_exec_ops:
  "run_io conn ops (fst (exec_ops conn ops)) (snd (exec_ops conn ops))"
proof (induction ops arbitrary: conn)
  case Nil
  then show ?case by (simp add: run_nil)
next
  case (Cons op ops)
  have "exec_op_io conn op (fst (exec_op conn op), snd (exec_op conn op))"
    using exec_op_io_exec [of conn op] by simp
  from run_cons [OF this Cons.IH] show ?case by (simp add: case_prod_unfold Let_def)
qed

lemma run_io_det:
  "run_io conn ops rs conn' \<Longrightarrow> \<not> list_ex is_fault rs \<Longrightarrow> (rs, conn') = exec_ops conn ops"
proof (induction rule: run_io.induct)
  case (run_nil conn)
  then show ?case by simp
next
  case (run_cons conn op r conn1 ops rs conn2)
  then have "(r, conn1) = exec_op conn op" by (simp add: exec_op_io_det)
  with run_cons show ?case by (simp add: case_prod_unfold Let_def) (metis fst_conv snd_conv)
qed

subsection \<open>Properties\<close>

text \<open>
  C27. Rows are never changed or removed, whatever the engine does. In every run in which
  any statement of any call may fail with a storage failure (a batch insert then keeping
  the rows written before the failure), once \<open>NAMING_CONSTS\<close> exists it stays, with
  every earlier row unchanged.
\<close>

theorem faulty_runs_rows_never_change:
  "run_io conn ops rs conn' \<Longrightarrow> naming_consts conn = Some t \<Longrightarrow>
   \<exists>t'. naming_consts conn' = Some t' \<and> t \<subseteq>\<^sub>m t'"
proof (induction arbitrary: t rule: run_io.induct)
  case (run_nil conn)
  then show ?case by simp
next
  case (run_cons conn op r conn1 ops rs conn2)
  from exec_op_io_rows [OF run_cons.hyps(1) run_cons.prems] obtain t1
    where t1: "naming_consts conn1 = Some t1" and le1: "t \<subseteq>\<^sub>m t1" by auto
  from run_cons.IH [OF t1] obtain t2 where "naming_consts conn2 = Some t2" and "t1 \<subseteq>\<^sub>m t2"
    by blast
  with le1 show ?case by (blast intro: map_le_trans)
qed

theorem faulty_runs_rows_never_change_witness:
  "run_io \<lparr>naming_consts = Some Map.empty, naming_file_info = None\<rparr>
     [Insert 2 [''B'', ''C''], GetPath ''B'']
     [Some (UnitResult (Inl StorageFailure)), Some (PathResult (Inl StorageFailure))]
     \<lparr>naming_consts = Some [const_hash ''B'' \<mapsto> 2], naming_file_info = None\<rparr> \<and>
   (\<exists>t'. naming_consts \<lparr>naming_consts = Some [const_hash ''B'' \<mapsto> (2 :: i64)],
                          naming_file_info = (None :: file_info_row table option)\<rparr> = Some t' \<and>
         Map.empty \<subseteq>\<^sub>m t')"
proof -
  define c0 where "c0 = \<lparr>naming_consts = Some (Map.empty :: i64 table),
                        naming_file_info = (None :: file_info_row table option)\<rparr>"
  define c1 where "c1 = \<lparr>naming_consts = Some [const_hash ''B'' \<mapsto> (2 :: i64)],
                        naming_file_info = (None :: file_info_row table option)\<rparr>"
  have io: "insert_io 2 [''B'', ''C''] Map.empty (Inl StorageFailure, [const_hash ''B'' \<mapsto> 2])"
    by (rule io_ok [OF _ io_fault]) (simp add: exec_insert_naming_consts_def)
  have step1: "exec_op_io c0 (Insert 2 [''B'', ''C''])
      (Some (UnitResult (Inl StorageFailure)), c1)"
    using insert_run [OF _ io, of c0] by (simp add: c0_def c1_def prepare_insert_def)
  have step2: "run_io c1 [GetPath ''B''] [Some (PathResult (Inl StorageFailure))] c1"
    by (rule run_cons [OF get_fault run_nil])
  have run: "run_io c0 [Insert 2 [''B'', ''C''], GetPath ''B'']
      [Some (UnitResult (Inl StorageFailure)), Some (PathResult (Inl StorageFailure))] c1"
    by (rule run_cons [OF step1 step2])
  from faulty_runs_rows_never_change [OF run, of Map.empty] run show ?thesis
    by (simp add: c0_def c1_def)
qed

text \<open>
  C28. The code's runs are the runs without engine failures. The deterministic run of
  \<open>Run_Trace\<close> (statement semantics only) is a run of the faulty engine, and every run
  of the faulty engine in which no call reports a storage failure has exactly its answers
  and its final state.
\<close>

theorem fault_free_runs_deterministic:
  "run_io conn ops (fst (exec_ops conn ops)) (snd (exec_ops conn ops)) \<and>
   (run_io conn ops rs conn' \<longrightarrow> \<not> list_ex is_fault rs \<longrightarrow> (rs, conn') = exec_ops conn ops)"
  using run_io_exec_ops run_io_det by blast

theorem fault_free_runs_deterministic_witness:
  "run_io open_in_memory [CreateTable, GetPath ''A'']
     [Some (UnitResult (Inr ())), Some (PathResult (Inl (NoSuchTable ''NAMING_FILE_INFO'')))]
     \<lparr>naming_consts = Some Map.empty, naming_file_info = None\<rparr> \<and>
   \<not> list_ex is_fault
     [Some (UnitResult (Inr ())), Some (PathResult (Inl (NoSuchTable ''NAMING_FILE_INFO'')))] \<and>
   ([Some (UnitResult (Inr ())), Some (PathResult (Inl (NoSuchTable ''NAMING_FILE_INFO'')))],
     \<lparr>naming_consts = Some Map.empty, naming_file_info = None\<rparr>)
     = exec_ops open_in_memory [CreateTable, GetPath ''A'']"
proof -
  define c1 where "c1 = \<lparr>naming_consts = Some (Map.empty :: i64 table),
                        naming_file_info = (None :: file_info_row table option)\<rparr>"
  have s1: "exec_op_io open_in_memory CreateTable (Some (UnitResult (Inr ())), c1)"
    using create_ok [of open_in_memory] by (simp add: c1_def index_simps create_table_def)
  have s2: "exec_op_io c1 (GetPath ''A'')
      (Some (PathResult (Inl (NoSuchTable ''NAMING_FILE_INFO''))), c1)"
    using get_ok [of c1 "''A''"] by (simp add: c1_def get_path_def prepare_select_def)
  have run: "run_io open_in_memory [CreateTable, GetPath ''A'']
      [Some (UnitResult (Inr ())), Some (PathResult (Inl (NoSuchTable ''NAMING_FILE_INFO'')))] c1"
    by (rule run_cons [OF s1 run_cons [OF s2 run_nil]])
  from fault_free_runs_deterministic [of open_in_memory "[CreateTable, GetPath ''A'']"] run
  show ?thesis by (simp add: c1_def [symmetric])
qed

end
