(* ===== verification/Store_Typing.thy ===== *)
theory Store_Typing
  imports Index_Machine
begin

text \<open>
  Well-typed databases. SQLite does not enforce column types, and \<open>NAMING_CONSTS\<close>
  declares no foreign key, so the store may hold what \<open>get_path\<close> cannot decode: a
  dangling file id (C6) or a prefix code out of range (C20). A file row is well-typed
  when its prefix column is an integer code 0 to 3 and its suffix column is text; the
  store is well-typed when both tables exist and every file id the constants table refers
  to has a well-typed file row. On such a store \<open>get_path\<close> never fails. The property
  is kept by every run in which \<open>insert\<close> is only called for files that have a
  well-typed row and the file-location store only writes well-typed tables that still
  hold the referenced files: the conformance discipline under which the index is safe.
\<close>

definition file_row_typed :: "file_info_row \<Rightarrow> bool" where
  "file_row_typed r \<longleftrightarrow>
     (case path_prefix_type r of SqlInteger i \<Rightarrow> 0 \<le> sint i \<and> sint i \<le> 3 | _ \<Rightarrow> False) \<and>
     (case path_suffix r of SqlText _ \<Rightarrow> True | _ \<Rightarrow> False)"

definition file_typed :: "file_info_row table \<Rightarrow> i64 \<Rightarrow> bool" where
  "file_typed fi fid \<longleftrightarrow> (case fi fid of None \<Rightarrow> False | Some r \<Rightarrow> file_row_typed r)"

definition store_typed :: "connection \<Rightarrow> bool" where
  "store_typed conn \<longleftrightarrow>
     (case (naming_consts conn, naming_file_info conn) of
        (Some t, Some fi) \<Rightarrow> (\<forall>fid \<in> ran t. file_typed fi fid)
      | _ \<Rightarrow> False)"

fun op_typed :: "connection \<Rightarrow> index_op \<Rightarrow> bool" where
  "op_typed conn (Insert fid names) =
     (case naming_file_info conn of None \<Rightarrow> False | Some fi \<Rightarrow> file_typed fi fid)"
| "op_typed conn (SetFileInfo fi) = store_typed (conn\<lparr>naming_file_info := fi\<rparr>)"
| "op_typed conn _ = True"

definition run_typed :: "connection \<Rightarrow> index_op list \<Rightarrow> bool" where
  "run_typed conn ops = all_steps op_typed run_op conn ops"

subsection \<open>Lemmas\<close>

lemma file_row_typed_shape:
  assumes "file_row_typed r"
  obtains p s where "path_prefix_type r = sqlite_prefix_to_sql p" and "path_suffix r = SqlText s"
proof -
  from assms obtain i s where i: "path_prefix_type r = SqlInteger i" "0 \<le> sint i" "sint i \<le> 3"
    and s: "path_suffix r = SqlText s"
    by (auto simp: file_row_typed_def split: sql_value.splits)
  from i(2,3) have "sint i = 0 \<or> sint i = 1 \<or> sint i = 2 \<or> sint i = 3" by arith
  then obtain p where "sqlite_prefix_from_sql (SqlInteger i) = Inr p"
    by (auto simp: sqlite_prefix_from_sql_def)
  with i(1) s that show ?thesis by (simp add: sqlite_prefix_from_sql_Inr)
qed

lemma store_typedE:
  assumes "store_typed conn"
  obtains t fi where "naming_consts conn = Some t" and "naming_file_info conn = Some fi"
    and "\<forall>x \<in> ran t. file_typed fi x"
  using assms by (auto simp: store_typed_def split: option.splits)

lemma store_typed_consts:
  assumes "store_typed conn" and "naming_consts conn = Some t"
  obtains fi where "naming_file_info conn = Some fi" and "\<forall>x \<in> ran t. file_typed fi x"
  using assms by (auto elim: store_typedE)

lemma insert_loop_ran:
  "ran (snd (insert_loop fid ns t)) \<subseteq> ran t \<union> {fid}"
proof (induction ns arbitrary: t)
  case Nil
  then show ?case by auto
next
  case (Cons n ns)
  show ?case
  proof (cases "const_hash n \<in> dom t")
    case True
    then show ?thesis by (auto simp: insert_loop_Cons_clash)
  next
    case False
    have "ran (snd (insert_loop fid ns (t(const_hash n \<mapsto> fid))))
        \<subseteq> ran (t(const_hash n \<mapsto> fid)) \<union> {fid}"
      by (rule Cons.IH)
    moreover have "ran (t(const_hash n \<mapsto> fid)) \<subseteq> ran t \<union> {fid}"
      by (auto simp: ran_def)
    ultimately show ?thesis using False by (auto simp: insert_loop_Cons_fresh)
  qed
qed

lemma run_op_typed:
  assumes "store_typed conn" and "op_typed conn op"
  shows "store_typed (run_op conn op)"
proof -
  from assms(1) obtain t fi where t: "naming_consts conn = Some t"
    and fi: "naming_file_info conn = Some fi" and refs: "\<forall>fid \<in> ran t. file_typed fi fid"
    by (rule store_typedE)
  show ?thesis
  proof (cases op)
    case (Insert fid ns)
    with assms(2) fi have "file_typed fi fid" by simp
    with refs insert_loop_ran [of fid ns t] have "\<forall>x \<in> ran (snd (insert_loop fid ns t)). file_typed fi x"
      by blast
    with Insert t fi show ?thesis by (simp add: store_typed_def insert_consts_table)
  next
    case (SetFileInfo fi')
    with assms(2) show ?thesis by simp
  qed (use assms(1) t in \<open>simp_all add: create_table_def exec_create_naming_consts_keeps\<close>)
qed

lemma get_path_typed:
  assumes "store_typed conn" and "naming_consts conn = Some t"
  shows "(\<exists>res. get_path conn n = Inr res) \<and> (get_path conn n = Inr None \<longleftrightarrow> const_hash n \<notin> dom t)"
proof (cases "t (const_hash n)")
  case None
  from assms obtain fi where "naming_file_info conn = Some fi"
    by (rule store_typed_consts)
  with assms(2) None show ?thesis by (simp add: get_path_miss domIff)
next
  case (Some fid)
  from assms obtain fi where fi: "naming_file_info conn = Some fi"
    and refs: "\<forall>x \<in> ran t. file_typed fi x"
    by (rule store_typed_consts)
  from Some refs have "file_typed fi fid" by (auto simp: ran_def)
  then obtain r where r: "fi fid = Some r" and typed: "file_row_typed r"
    by (auto simp: file_typed_def split: option.splits)
  from typed obtain p s where "path_prefix_type r = sqlite_prefix_to_sql p" and "path_suffix r = SqlText s"
    by (rule file_row_typed_shape)
  with assms(2) fi Some r have "get_path conn n = Inr (Some (RelativePath p s))"
    by (rule get_path_hit)
  with Some show ?thesis by auto
qed

subsection \<open>Properties\<close>

text \<open>
  C24. Type safety of the lookup: on a well-typed store \<open>get_path\<close> never returns an
  error, and it returns \<open>None\<close> exactly for the names whose hash is not a key of
  \<open>NAMING_CONSTS\<close>; every other name yields a path.
\<close>

theorem get_path_typed_never_fails:
  assumes "store_typed conn" and "naming_consts conn = Some t"
  shows "(\<exists>res. get_path conn n = Inr res) \<and> (get_path conn n = Inr None \<longleftrightarrow> const_hash n \<notin> dom t)"
  using assms by (rule get_path_typed)

theorem get_path_typed_never_fails_witness:
  "let conn = \<lparr>naming_consts = Some [const_hash ''Foo'' \<mapsto> 4],
              naming_file_info = Some [4 \<mapsto> \<lparr>path_prefix_type = SqlInteger 1,
                                            path_suffix = SqlText ''c.hhi''\<rparr>]\<rparr>
   in store_typed conn \<and> naming_consts conn = Some [const_hash ''Foo'' \<mapsto> 4] \<and>
      (\<exists>res. get_path conn ''Bar'' = Inr res) \<and>
      (get_path conn ''Bar'' = Inr None \<longleftrightarrow> const_hash ''Bar'' \<notin> dom [const_hash ''Foo'' \<mapsto> 4])"
proof -
  define conn where "conn = \<lparr>naming_consts = Some [const_hash ''Foo'' \<mapsto> (4 :: i64)],
              naming_file_info = Some [4 \<mapsto> \<lparr>path_prefix_type = SqlInteger 1,
                                            path_suffix = SqlText ''c.hhi''\<rparr>]\<rparr>"
  have typed: "store_typed conn"
    by (simp add: conn_def store_typed_def file_typed_def file_row_typed_def)
  have "naming_consts conn = Some [const_hash ''Foo'' \<mapsto> 4]" by (simp add: conn_def)
  with typed get_path_typed_never_fails [of conn _ "''Bar''"] show ?thesis
    by (simp add: conn_def [symmetric] Let_def)
qed

text \<open>
  C25. Typing is an invariant of the index: from a well-typed store, every run whose
  inserts name files with a well-typed row and whose file-location writes keep the
  store well-typed ends in a well-typed store, whatever \<open>create_table\<close>,
  \<open>insert\<close> (succeeding, colliding or aborting part-way) and \<open>get_path\<close> do.
\<close>

theorem run_typed_preserves:
  "store_typed conn \<Longrightarrow> run_typed conn ops \<Longrightarrow> store_typed (run_ops conn ops)"
  unfolding run_typed_def run_ops_def
  by (rule guarded_run_invariant [where Q = store_typed and P = op_typed and f = run_op, OF run_op_typed])

theorem run_typed_preserves_witness:
  "let conn = \<lparr>naming_consts = Some [const_hash ''Foo'' \<mapsto> 4],
              naming_file_info = Some [4 \<mapsto> \<lparr>path_prefix_type = SqlInteger 1,
                                            path_suffix = SqlText ''c.hhi''\<rparr>]\<rparr>;
       ops = [Insert 4 [''Bar'', ''Foo''], GetPath ''Foo'', CreateTable]
   in store_typed conn \<and> run_typed conn ops \<and> store_typed (run_ops conn ops)"
proof -
  define conn where "conn = \<lparr>naming_consts = Some [const_hash ''Foo'' \<mapsto> (4 :: i64)],
              naming_file_info = Some [4 \<mapsto> \<lparr>path_prefix_type = SqlInteger 1,
                                            path_suffix = SqlText ''c.hhi''\<rparr>]\<rparr>"
  define ops where "ops = [Insert 4 [''Bar'', ''Foo''], GetPath ''Foo'', CreateTable]"
  have typed: "store_typed conn"
    by (simp add: conn_def store_typed_def file_typed_def file_row_typed_def)
  have run: "run_typed conn ops"
    by (simp add: run_typed_def conn_def ops_def file_typed_def file_row_typed_def)
  from typed run run_typed_preserves [of conn ops] show ?thesis
    by (simp add: conn_def [symmetric] ops_def [symmetric] Let_def)
qed

end
