(* ===== verification/Faulty_Typing.thy ===== *)
theory Faulty_Typing
  imports Faulty_Runs Store_Typing
begin

text \<open>
  Well-typed databases under engine failures. The discipline of \<open>Store_Typing\<close>
  (inserts name files with a well-typed row; file-table writes keep the store well-typed)
  is imposed on each call of a run of the faulty engine of \<open>Faulty_Runs\<close>, in the state
  the call starts from. A failing call writes at most a prefix of its batch, so the
  faults cannot break typing: every such run ends in a well-typed store.
\<close>

inductive typed_run_io :: "connection \<Rightarrow> index_op list \<Rightarrow> connection \<Rightarrow> bool" where
  typed_nil: "typed_run_io conn [] conn"
| typed_cons: "op_typed conn op \<Longrightarrow> exec_op_io conn op (r, conn1) \<Longrightarrow>
     typed_run_io conn1 ops conn2 \<Longrightarrow> typed_run_io conn (op # ops) conn2"

subsection \<open>Lemmas\<close>

lemma insert_io_ran:
  "insert_io fid ns t res \<Longrightarrow> ran (snd res) \<subseteq> ran t \<union> {fid}"
proof (induction rule: insert_io.induct)
  case (io_ok n fid t t' ns res)
  from io_ok.hyps(1) have "t' = t(const_hash n \<mapsto> fid)" by (simp add: exec_insert_naming_consts_Inr)
  then have "ran t' \<subseteq> ran t \<union> {fid}" by (auto simp: ran_def)
  with io_ok.IH show ?case by blast
qed auto

lemma exec_op_io_typed:
  "exec_op_io conn op res \<Longrightarrow> store_typed conn \<Longrightarrow> op_typed conn op \<Longrightarrow> store_typed (snd res)"
proof (induction rule: exec_op_io.induct)
  case (create_ok conn)
  then have "store_typed (run_op conn CreateTable)" by (rule run_op_typed)
  then show ?case by (simp only: exec_op_state)
next
  case (get_ok conn n)
  then show ?case by simp
next
  case (set_file_info conn fi)
  then have "store_typed (run_op conn (SetFileInfo fi))" by (rule run_op_typed)
  then show ?case by (simp only: exec_op_state)
next
  case (insert_run conn t fid ns r t')
  from insert_run.hyps(1) have "naming_consts conn = Some t" by (simp add: prepare_insert_Inr)
  with insert_run.prems(1) obtain fi where fi: "naming_file_info conn = Some fi"
    and refs: "\<forall>x \<in> ran t. file_typed fi x"
    by (rule store_typed_consts)
  from insert_run.prems(2) fi have "file_typed fi fid" by simp
  with refs insert_io_ran [OF insert_run.hyps(2)] have "\<forall>x \<in> ran t'. file_typed fi x"
    by auto
  with fi show ?case by (simp add: store_typed_def)
qed auto

subsection \<open>Properties\<close>

text \<open>
  C36. Typing survives engine failures. Every run of the faulty engine in which each call
  keeps the typing discipline in the state it starts from, whatever statements fail and
  wherever a batch stops, ends in a well-typed store, on which \<open>get_path\<close> cannot fail
  on a row.
\<close>

theorem faulty_typed_runs_preserve:
  "typed_run_io conn ops conn' \<Longrightarrow> store_typed conn \<Longrightarrow> store_typed conn'"
proof (induction rule: typed_run_io.induct)
  case (typed_nil conn)
  then show ?case .
next
  case (typed_cons conn op r conn1 ops conn2)
  from exec_op_io_typed [OF typed_cons.hyps(2)] typed_cons.prems typed_cons.hyps(1)
  have "store_typed conn1" by simp
  then show ?case by (rule typed_cons.IH)
qed

theorem faulty_typed_runs_preserve_witness:
  "let fi = [4 \<mapsto> \<lparr>path_prefix_type = SqlInteger 1, path_suffix = SqlText ''c.hhi''\<rparr>];
       conn = \<lparr>naming_consts = Some Map.empty, naming_file_info = Some fi\<rparr>;
       conn' = \<lparr>naming_consts = Some [const_hash ''Bar'' \<mapsto> 4], naming_file_info = Some fi\<rparr>
   in typed_run_io conn [Insert 4 [''Bar'', ''Baz''], GetPath ''Bar''] conn' \<and>
      store_typed conn \<and> store_typed conn'"
proof -
  define fi where "fi = [(4 :: i64) \<mapsto> \<lparr>path_prefix_type = SqlInteger 1, path_suffix = SqlText ''c.hhi''\<rparr>]"
  define conn where "conn = \<lparr>naming_consts = Some (Map.empty :: i64 table), naming_file_info = Some fi\<rparr>"
  define conn' where "conn' = \<lparr>naming_consts = Some [const_hash ''Bar'' \<mapsto> (4 :: i64)], naming_file_info = Some fi\<rparr>"
  have typed: "store_typed conn" by (simp add: conn_def store_typed_def)
  have io: "insert_io 4 [''Bar'', ''Baz''] Map.empty (Inl StorageFailure, [const_hash ''Bar'' \<mapsto> 4])"
    by (rule io_ok [OF _ io_fault]) (simp add: exec_insert_naming_consts_def)
  have s1: "exec_op_io conn (Insert 4 [''Bar'', ''Baz'']) (Some (UnitResult (Inl StorageFailure)), conn')"
    using insert_run [OF _ io, of conn] by (simp add: conn_def conn'_def prepare_insert_def)
  have ok1: "op_typed conn (Insert 4 [''Bar'', ''Baz''])"
    by (simp add: conn_def fi_def file_typed_def file_row_typed_def)
  have run2: "typed_run_io conn' [GetPath ''Bar''] conn'"
    by (rule typed_cons [OF _ get_fault typed_nil]) simp
  have run: "typed_run_io conn [Insert 4 [''Bar'', ''Baz''], GetPath ''Bar''] conn'"
    by (rule typed_cons [OF ok1 s1 run2])
  from faulty_typed_runs_preserve [OF run typed] run typed show ?thesis
    by (simp add: fi_def [symmetric] conn_def [symmetric] conn'_def [symmetric] Let_def)
qed

end
