(* ===== verification/Interleaving.thy ===== *)
theory Interleaving
  imports Consts
begin

text \<open>
  A batch insert as concurrent readers see it. \<open>insert\<close> opens no transaction: each
  \<open>execute\<close> of its loop is a statement of its own, committed when it returns, so
  between two of them another connection reading the database (a \<open>get_path\<close>
  running concurrently, which SQLite allows while the writer holds no open transaction)
  sees the rows written so far. Here the loop of \<open>insert\<close> becomes a small-step
  machine: the writer is \<open>Inserting fid names\<close> (the names still to insert) or
  \<open>Done r\<close> (the result returned), \<open>batch_step\<close> runs one \<open>execute\<close>, or
  lets the file-location store write its table in between. A reader may run at any
  state. The theory proves that every state a reader can observe holds a prefix of the
  batch, that the small-step loop finishes with exactly the result and table of
  \<open>insert_loop\<close>, and that for a batch of fresh names every prefix is observable.
\<close>

datatype writer = Inserting i64 "string list" | Done "sqlite_error + unit"

inductive batch_step :: "connection \<times> writer \<Rightarrow> connection \<times> writer \<Rightarrow> bool" where
  exec_ok: "naming_consts conn = Some t \<Longrightarrow>
     exec_insert_naming_consts (name_to_hash GConst n) fid t = Inr t' \<Longrightarrow>
     batch_step (conn, Inserting fid (n # ns)) (conn\<lparr>naming_consts := Some t'\<rparr>, Inserting fid ns)"
| exec_err: "naming_consts conn = Some t \<Longrightarrow>
     exec_insert_naming_consts (name_to_hash GConst n) fid t = Inl e \<Longrightarrow>
     batch_step (conn, Inserting fid (n # ns)) (conn, Done (Inl e))"
| finish: "batch_step (conn, Inserting fid []) (conn, Done (Inr ()))"
| file_write: "batch_step (conn, w) (conn\<lparr>naming_file_info := fi\<rparr>, w)"

text \<open>
  The invariant of a batch in flight: the table holds a prefix of the batch, and the
  rest of the loop, run from here, gives what the whole loop gives from the start.
\<close>

definition batch_inv :: "i64 \<Rightarrow> string list \<Rightarrow> i64 table \<Rightarrow> connection \<times> writer \<Rightarrow> bool" where
  "batch_inv fid ns t s \<longleftrightarrow>
     (\<exists>t''. naming_consts (fst s) = Some t'' \<and>
        (case snd s of
           Done r \<Rightarrow> (r, t'') = insert_loop fid ns t
         | Inserting f ns' \<Rightarrow> f = fid \<and> insert_loop fid ns' t'' = insert_loop fid ns t))"

subsection \<open>Lemmas\<close>

lemma batch_inv_step:
  assumes "batch_step s s'" and "batch_inv fid ns t s"
  shows "batch_inv fid ns t s'"
  using assms
proof (cases rule: batch_step.cases)
  case (exec_ok conn t1 n f t' ns')
  then show ?thesis using assms(2)
    by (auto simp: batch_inv_def exec_insert_naming_consts_Inr insert_loop_Cons_fresh)
next
  case (exec_err conn t1 n f e ns')
  then show ?thesis using assms(2)
    by (auto simp: batch_inv_def insert_loop.simps(2))
qed (use assms(2) in \<open>auto simp: batch_inv_def split: writer.splits\<close>)

lemma batch_steps_inv:
  "batch_step\<^sup>*\<^sup>* s s' \<Longrightarrow> batch_inv fid ns t s \<Longrightarrow> batch_inv fid ns t s'"
  by (induction rule: rtranclp_induct) (auto intro: batch_inv_step)

lemma batch_run_loop:
  "naming_consts conn = Some t \<Longrightarrow>
   batch_step\<^sup>*\<^sup>* (conn, Inserting fid ns)
     (conn\<lparr>naming_consts := Some (snd (insert_loop fid ns t))\<rparr>, Done (fst (insert_loop fid ns t)))"
proof (induction ns arbitrary: conn t)
  case Nil
  then have "conn\<lparr>naming_consts := Some t\<rparr> = conn" by simp
  with finish [of conn fid] show ?case by simp
next
  case (Cons n ns)
  show ?case
  proof (cases "exec_insert_naming_consts (const_hash n) fid t")
    case (Inl e)
    with Cons.prems have "batch_step (conn, Inserting fid (n # ns)) (conn, Done (Inl e))"
      by (rule exec_err)
    moreover from Cons.prems have "conn\<lparr>naming_consts := Some t\<rparr> = conn" by simp
    ultimately show ?thesis using Inl by (simp add: insert_loop.simps(2))
  next
    case (Inr t')
    with Cons.prems have "batch_step (conn, Inserting fid (n # ns))
        (conn\<lparr>naming_consts := Some t'\<rparr>, Inserting fid ns)"
      by (rule exec_ok)
    moreover have "batch_step\<^sup>*\<^sup>* (conn\<lparr>naming_consts := Some t'\<rparr>, Inserting fid ns)
        (conn\<lparr>naming_consts := Some (snd (insert_loop fid ns t'))\<rparr>, Done (fst (insert_loop fid ns t')))"
      using Cons.IH [of "conn\<lparr>naming_consts := Some t'\<rparr>" t'] by simp
    ultimately show ?thesis using Inr
      by (simp add: insert_loop.simps(2) converse_rtranclp_into_rtranclp)
  qed
qed

lemma naming_consts_update_twice:
  "conn\<lparr>naming_consts := a, naming_consts := b\<rparr> = conn\<lparr>naming_consts := b\<rparr>"
  by simp

lemma batch_prefix_fresh:
  assumes "distinct (map const_hash ns)" and "set (map const_hash ns) \<inter> dom t = {}"
    and "k < length ns"
  shows "const_hash (ns ! k) \<notin> dom (t(map const_hash (take k ns) [\<mapsto>] replicate k fid))"
proof -
  from assms(3) have "take (Suc k) ns = take k ns @ [ns ! k]" by (simp add: take_Suc_conv_app_nth)
  moreover from assms(1) have "distinct (map const_hash (take (Suc k) ns))"
    by (simp add: take_map [symmetric] distinct_take)
  ultimately have "const_hash (ns ! k) \<notin> set (map const_hash (take k ns))" by simp
  moreover from assms(3) have "ns ! k \<in> set ns" by simp
  with assms(2) have "const_hash (ns ! k) \<notin> dom t" by auto
  ultimately show ?thesis using assms(3) by simp
qed

subsection \<open>Properties\<close>

text \<open>
  C29. Readers only ever see a prefix of a batch. In every interleaving of the batch's
  statements with writes of the file-location store, the constants table at each state
  is the table before the batch with exactly its first \<open>k\<close> names added; the writer is
  still inserting the rest, or has returned, and it has returned \<open>Ok\<close> only once the
  whole batch is in.
\<close>

theorem batch_visible_states_are_prefixes:
  "batch_step\<^sup>*\<^sup>* (conn, Inserting fid ns) (conn', w) \<Longrightarrow> naming_consts conn = Some t \<Longrightarrow>
   \<exists>k \<le> length ns. naming_consts conn' = Some (t(map const_hash (take k ns) [\<mapsto>] replicate k fid)) \<and>
     (w = Inserting fid (drop k ns) \<or> (\<exists>r. w = Done r)) \<and> (w = Done (Inr ()) \<longrightarrow> k = length ns)"
proof (induction conn' w rule: rtranclp_induct2)
  case refl
  then show ?case by (intro exI [of _ 0]) simp
next
  case (step conn1 w1 conn2 w2)
  from step.IH [OF step.prems] obtain k where k: "k \<le> length ns"
    and t1: "naming_consts conn1 = Some (t(map const_hash (take k ns) [\<mapsto>] replicate k fid))"
    and w1: "w1 = Inserting fid (drop k ns) \<or> (\<exists>r. w1 = Done r)"
    and ok1: "w1 = Done (Inr ()) \<longrightarrow> k = length ns"
    by blast
  from step.hyps(2) show ?case
  proof (cases rule: batch_step.cases)
    case (exec_ok tt n f t'' ns')
    with w1 have drop: "drop k ns = n # ns'" by auto
    then have "k < length ns" by (cases "k < length ns") simp_all
    with drop Cons_nth_drop_Suc [of k ns] have "ns ! k = n" and "drop (Suc k) ns = ns'"
      by simp_all
    from exec_ok w1 drop have f: "f = fid" by auto
    from \<open>k < length ns\<close> \<open>ns ! k = n\<close> have upd:
      "t(map const_hash (take (Suc k) ns) [\<mapsto>] replicate (Suc k) fid) =
        (t(map const_hash (take k ns) [\<mapsto>] replicate k fid))(const_hash n \<mapsto> fid)"
      using map_upds_take_Suc [of k ns t const_hash fid] by simp
    from exec_ok t1 f have "naming_consts conn2 = Some (t(map const_hash (take (Suc k) ns) [\<mapsto>] replicate (Suc k) fid))"
      by (simp add: exec_insert_naming_consts_Inr upd del: replicate_Suc)
    with exec_ok f \<open>k < length ns\<close> \<open>drop (Suc k) ns = ns'\<close> show ?thesis
      by (intro exI [of _ "Suc k"]) simp
  next
    case (finish f)
    with w1 have "drop k ns = []" by auto
    with k finish t1 show ?thesis by (intro exI [of _ k]) simp
  qed (use k t1 w1 ok1 in auto)
qed

theorem batch_visible_states_are_prefixes_witness:
  "batch_step\<^sup>*\<^sup>* (\<lparr>naming_consts = Some Map.empty, naming_file_info = None\<rparr>, Inserting 1 [''A'', ''B''])
     (\<lparr>naming_consts = Some [const_hash ''A'' \<mapsto> 1], naming_file_info = None\<rparr>, Inserting 1 [''B'']) \<and>
   (\<exists>k \<le> length [''A'', ''B''].
      Some [const_hash ''A'' \<mapsto> (1 :: i64)] =
        Some (Map.empty(map const_hash (take k [''A'', ''B'']) [\<mapsto>] replicate k 1)) \<and>
      (Inserting 1 [''B''] = Inserting 1 (drop k [''A'', ''B'']) \<or> (\<exists>r. Inserting 1 [''B''] = Done r)) \<and>
      (Inserting 1 [''B''] = Done (Inr ()) \<longrightarrow> k = length [''A'', ''B'']))"
proof -
  have step: "batch_step (\<lparr>naming_consts = Some Map.empty, naming_file_info = None\<rparr>, Inserting 1 [''A'', ''B''])
     (\<lparr>naming_consts = Some [const_hash ''A'' \<mapsto> 1], naming_file_info = None\<rparr>, Inserting 1 [''B''])"
    using exec_ok [of "\<lparr>naming_consts = Some Map.empty, naming_file_info = None\<rparr>" Map.empty
        "''A''" 1 "[const_hash ''A'' \<mapsto> 1]" "[''B'']"]
    by (simp add: exec_insert_naming_consts_def)
  then have run: "batch_step\<^sup>*\<^sup>* (\<lparr>naming_consts = Some Map.empty, naming_file_info = None\<rparr>, Inserting 1 [''A'', ''B''])
     (\<lparr>naming_consts = Some [const_hash ''A'' \<mapsto> 1], naming_file_info = None\<rparr>, Inserting 1 [''B''])"
    by (rule r_into_rtranclp)
  from batch_visible_states_are_prefixes [OF run] run show ?thesis by simp
qed

text \<open>
  C30. What a batch returns, statement by statement. From an existing table the writer
  can always finish; and whenever it has finished, in any interleaving with writes of the
  file-location store, it has returned \<open>Ok\<close> exactly when the hashes of the names are
  distinct and new to the table, the table then holding exactly one new row per name,
  and otherwise it has returned the primary-key violation of the hash of one of the names.
\<close>

theorem small_step_batch_outcome:
  assumes "naming_consts conn = Some t"
  shows "(\<exists>conn' r. batch_step\<^sup>*\<^sup>* (conn, Inserting fid ns) (conn', Done r)) \<and>
    (\<forall>conn' r. batch_step\<^sup>*\<^sup>* (conn, Inserting fid ns) (conn', Done r) \<longrightarrow>
       (r = Inr () \<longleftrightarrow> distinct (map const_hash ns) \<and> set (map const_hash ns) \<inter> dom t = {}) \<and>
       (r = Inr () \<longrightarrow> naming_consts conn' = Some (t(map const_hash ns [\<mapsto>] replicate (length ns) fid))) \<and>
       (\<forall>e. r = Inl e \<longrightarrow> (\<exists>n \<in> set ns. e = PrimaryKeyViolation (const_hash n))))"
proof (intro conjI allI impI)
  from assms show "\<exists>conn' r. batch_step\<^sup>*\<^sup>* (conn, Inserting fid ns) (conn', Done r)"
    by (blast intro: batch_run_loop)
next
  fix conn' r
  assume run: "batch_step\<^sup>*\<^sup>* (conn, Inserting fid ns) (conn', Done r)"
  from assms have "batch_inv fid ns t (conn, Inserting fid ns)" by (simp add: batch_inv_def)
  with run have "batch_inv fid ns t (conn', Done r)" by (rule batch_steps_inv)
  then obtain t'' where t'': "naming_consts conn' = Some t''" and loop: "(r, t'') = insert_loop fid ns t"
    by (auto simp: batch_inv_def)
  from loop have r: "r = fst (insert_loop fid ns t)" and tt: "t'' = snd (insert_loop fid ns t)"
    by (metis fst_conv, metis snd_conv)
  show "r = Inr () \<longleftrightarrow> distinct (map const_hash ns) \<and> set (map const_hash ns) \<inter> dom t = {}"
    using r by (simp add: insert_loop_Inr_iff)
  show "naming_consts conn' = Some (t(map const_hash ns [\<mapsto>] replicate (length ns) fid))" if "r = Inr ()"
    using that r tt t'' by (simp add: insert_loop_table_Inr)
  fix e
  assume "r = Inl e"
  with r obtain k where "k < length ns" and "e = PrimaryKeyViolation (const_hash (ns ! k))"
    by (metis insert_loop_Inl)
  then show "\<exists>n \<in> set ns. e = PrimaryKeyViolation (const_hash n)" by auto
qed

theorem small_step_batch_outcome_witness:
  "batch_step\<^sup>*\<^sup>* (\<lparr>naming_consts = Some Map.empty, naming_file_info = None\<rparr>, Inserting 1 [''A'', ''A''])
     (\<lparr>naming_consts = Some [const_hash ''A'' \<mapsto> 1], naming_file_info = None\<rparr>,
      Done (Inl (PrimaryKeyViolation (const_hash ''A'')))) \<and>
   (\<exists>n \<in> set [''A'', ''A'']. PrimaryKeyViolation (const_hash ''A'') = PrimaryKeyViolation (const_hash n))"
proof -
  define c0 where "c0 = \<lparr>naming_consts = Some (Map.empty :: i64 table),
                        naming_file_info = (None :: file_info_row table option)\<rparr>"
  define c1 where "c1 = \<lparr>naming_consts = Some [const_hash ''A'' \<mapsto> (1 :: i64)],
                        naming_file_info = (None :: file_info_row table option)\<rparr>"
  have s1: "batch_step (c0, Inserting 1 [''A'', ''A'']) (c1, Inserting 1 [''A''])"
    using exec_ok [of c0 Map.empty "''A''" 1 "[const_hash ''A'' \<mapsto> 1]" "[''A'']"]
    by (simp add: c0_def c1_def exec_insert_naming_consts_def)
  have s2: "batch_step (c1, Inserting 1 [''A'']) (c1, Done (Inl (PrimaryKeyViolation (const_hash ''A''))))"
    using exec_err [of c1 "[const_hash ''A'' \<mapsto> 1]" "''A''" 1 "PrimaryKeyViolation (const_hash ''A'')" "[]"]
    by (simp add: c1_def exec_insert_naming_consts_def)
  have run: "batch_step\<^sup>*\<^sup>* (c0, Inserting 1 [''A'', ''A''])
      (c1, Done (Inl (PrimaryKeyViolation (const_hash ''A''))))"
    using r_into_rtranclp [of batch_step, OF s1] s2 by (rule rtranclp.rtrancl_into_rtrancl)
  have c0t: "naming_consts c0 = Some Map.empty" by (simp add: c0_def)
  note all = conjunct2 [OF small_step_batch_outcome [OF c0t, of 1 "[''A'', ''A'']"]]
  note third = conjunct2 [OF conjunct2 [OF mp [OF spec [OF spec [OF all, of c1],
      of "Inl (PrimaryKeyViolation (const_hash ''A''))"] run]]]
  have ex: "\<exists>n \<in> set [''A'', ''A'']. PrimaryKeyViolation (const_hash ''A'') = PrimaryKeyViolation (const_hash n)"
    using mp [OF spec [OF third, of "PrimaryKeyViolation (const_hash ''A'')"] refl] .
  show ?thesis using run ex unfolding c0_def c1_def by (rule conjI)
qed

text \<open>
  C31. Partial batches are observable. For a batch of names whose hashes are distinct and
  new to the table, every prefix state is reached by the writer: a reader running at
  that point finds the first \<open>k\<close> names and none of the others. The batch is not
  atomic for readers.
\<close>

theorem batch_every_prefix_observable:
  assumes "naming_consts conn = Some t" and "distinct (map const_hash ns)"
    and "set (map const_hash ns) \<inter> dom t = {}"
  shows "k \<le> length ns \<Longrightarrow>
    batch_step\<^sup>*\<^sup>* (conn, Inserting fid ns)
      (conn\<lparr>naming_consts := Some (t(map const_hash (take k ns) [\<mapsto>] replicate k fid))\<rparr>,
       Inserting fid (drop k ns))"
proof (induction k)
  case 0
  from assms(1) have "conn\<lparr>naming_consts := Some t\<rparr> = conn" by simp
  then show ?case by simp
next
  case (Suc k)
  let ?tk = "t(map const_hash (take k ns) [\<mapsto>] replicate k fid)"
  let ?ck = "conn\<lparr>naming_consts := Some ?tk\<rparr>"
  from Suc.prems have lt: "k < length ns" by simp
  from lt have "k \<le> length ns" by simp
  then have run: "batch_step\<^sup>*\<^sup>* (conn, Inserting fid ns) (?ck, Inserting fid (drop k ns))"
    by (rule Suc.IH)
  from lt have drop: "drop k ns = ns ! k # drop (Suc k) ns" by (simp add: Cons_nth_drop_Suc)
  from assms(2,3) lt have "const_hash (ns ! k) \<notin> dom ?tk" by (rule batch_prefix_fresh)
  then have exec: "exec_insert_naming_consts (const_hash (ns ! k)) fid ?tk = Inr (?tk(const_hash (ns ! k) \<mapsto> fid))"
    by (simp add: exec_insert_naming_consts_Inr)
  have step: "batch_step (?ck, Inserting fid (drop k ns))
      (?ck\<lparr>naming_consts := Some (?tk(const_hash (ns ! k) \<mapsto> fid))\<rparr>, Inserting fid (drop (Suc k) ns))"
    unfolding drop by (rule exec_ok [OF _ exec]) simp
  from lt have tbl: "t(map const_hash (take (Suc k) ns) [\<mapsto>] replicate (Suc k) fid) =
      ?tk(const_hash (ns ! k) \<mapsto> fid)"
    by (rule map_upds_take_Suc)
  have "batch_step\<^sup>*\<^sup>* (conn, Inserting fid ns)
      (?ck\<lparr>naming_consts := Some (?tk(const_hash (ns ! k) \<mapsto> fid))\<rparr>, Inserting fid (drop (Suc k) ns))"
    using run step by (rule rtranclp.rtrancl_into_rtrancl)
  then show ?case by (simp only: naming_consts_update_twice tbl [symmetric])
qed

theorem batch_every_prefix_observable_witness:
  "let fi = [1 \<mapsto> \<lparr>path_prefix_type = SqlInteger 0, path_suffix = SqlText ''a.php''\<rparr>];
       conn = \<lparr>naming_consts = Some Map.empty, naming_file_info = Some fi\<rparr>;
       mid = \<lparr>naming_consts = Some [const_hash ''A'' \<mapsto> 1], naming_file_info = Some fi\<rparr>
   in batch_step\<^sup>*\<^sup>* (conn, Inserting 1 [''A'', ''B'']) (mid, Inserting 1 [''B'']) \<and>
      get_path mid ''A'' = Inr (Some (RelativePath Root ''a.php'')) \<and> get_path mid ''B'' = Inr None"
proof -
  define fi where "fi = [(1 :: i64) \<mapsto> \<lparr>path_prefix_type = SqlInteger 0, path_suffix = SqlText ''a.php''\<rparr>]"
  define conn where "conn = \<lparr>naming_consts = Some (Map.empty :: i64 table), naming_file_info = Some fi\<rparr>"
  have dist: "distinct (map const_hash [''A'', ''B''])" by (simp add: hash_defs)
  have run: "batch_step\<^sup>*\<^sup>* (conn, Inserting 1 [''A'', ''B''])
     (conn\<lparr>naming_consts := Some (Map.empty(map const_hash (take 1 [''A'', ''B'']) [\<mapsto>] replicate 1 1))\<rparr>,
      Inserting 1 (drop 1 [''A'', ''B'']))"
    by (rule batch_every_prefix_observable [OF _ dist]) (simp_all add: conn_def)
  define mid where "mid = \<lparr>naming_consts = Some [const_hash ''A'' \<mapsto> (1 :: i64)], naming_file_info = Some fi\<rparr>"
  have ne: "const_hash ''B'' \<noteq> const_hash ''A''" by (simp add: hash_defs)
  from run have run': "batch_step\<^sup>*\<^sup>* (conn, Inserting 1 [''A'', ''B'']) (mid, Inserting 1 [''B''])"
    by (simp add: conn_def mid_def)
  have a: "get_path mid ''A'' = Inr (Some (RelativePath Root ''a.php''))"
    by (rule get_path_hit [where t = "[const_hash ''A'' \<mapsto> 1]" and fi = fi and fid = 1
        and r = "\<lparr>path_prefix_type = SqlInteger 0, path_suffix = SqlText ''a.php''\<rparr>"])
       (simp_all add: mid_def fi_def)
  have b: "get_path mid ''B'' = Inr None"
    by (rule get_path_miss [where t = "[const_hash ''A'' \<mapsto> 1]" and fi = fi])
       (simp_all add: mid_def ne)
  from run' a b show ?thesis by (simp only: conn_def fi_def mid_def Let_def)
qed


end
