(* ===== verification/File_Store.thy ===== *)
theory File_Store
  imports Store_Typing Run_Trace
begin

text \<open>
  The file-location store and its composition with the constants index. The store owns
  \<open>NAMING_FILE_INFO\<close>, whose rows the index's lookup joins; its code is not among the
  modelled sources, so its writer is modelled from the specification's interface (a file
  id maps to a prefix and a suffix, written with the \<open>ToSql\<close> codes of the path): one
  table created if absent, and a plain insert of a file's row under its id. The system
  of both components runs their calls on one connection (\<open>sys_op\<close>, \<open>sys_exec\<close>);
  its callers index the constants of a file only after the file is stored
  (\<open>sys_ok\<close>), and the store is the only writer of its table. The theory proves the
  round trip through both components, that the discipline keeps every referenced file
  row well-typed, and that from a fresh database no lookup of a disciplined run ever
  fails to decode its row.
\<close>

subsection \<open>The file-location store\<close>

definition file_info_row_of :: "relative_path \<Rightarrow> file_info_row" where
  "file_info_row_of p =
     (case p of RelativePath pre suffix \<Rightarrow>
        \<lparr>path_prefix_type = sqlite_prefix_to_sql pre, path_suffix = SqlText suffix\<rparr>)"

definition create_file_info_table :: "connection \<Rightarrow> connection" where
  "create_file_info_table conn =
     (case naming_file_info conn of
        None \<Rightarrow> conn\<lparr>naming_file_info := Some Map.empty\<rparr>
      | Some _ \<Rightarrow> conn)"

definition file_info_insert ::
  "connection \<Rightarrow> i64 \<Rightarrow> relative_path \<Rightarrow> (sqlite_error + unit) \<times> connection" where
  "file_info_insert conn fid p =
     (case naming_file_info conn of
        None \<Rightarrow> (Inl (NoSuchTable ''NAMING_FILE_INFO''), conn)
      | Some fi \<Rightarrow>
          (case fi fid of
             Some _ \<Rightarrow> (Inl (PrimaryKeyViolation fid), conn)
           | None \<Rightarrow> (Inr (), conn\<lparr>naming_file_info := Some (fi(fid \<mapsto> file_info_row_of p))\<rparr>)))"

subsection \<open>The composed system\<close>

datatype sys_op =
    CreateFileTable
  | AddFile i64 relative_path
  | IndexCall index_op

fun sys_exec :: "connection \<Rightarrow> sys_op \<Rightarrow> op_result option \<times> connection" where
  "sys_exec conn CreateFileTable = (Some (UnitResult (Inr ())), create_file_info_table conn)"
| "sys_exec conn (AddFile fid p) =
     (let (r, conn') = file_info_insert conn fid p in (Some (UnitResult r), conn'))"
| "sys_exec conn (IndexCall op) = exec_op conn op"

definition sys_next :: "connection \<Rightarrow> sys_op \<Rightarrow> connection" where
  "sys_next conn op = snd (sys_exec conn op)"

fun sys_exec_ops :: "connection \<Rightarrow> sys_op list \<Rightarrow> op_result option list" where
  "sys_exec_ops conn [] = []"
| "sys_exec_ops conn (op # ops) = fst (sys_exec conn op) # sys_exec_ops (sys_next conn op) ops"

text \<open>
  The callers' discipline: constants are indexed for a file already stored, and only the
  store writes its table.
\<close>

fun sys_ok :: "connection \<Rightarrow> sys_op \<Rightarrow> bool" where
  "sys_ok conn (IndexCall (Insert fid ns)) =
     (case naming_file_info conn of None \<Rightarrow> False | Some fi \<Rightarrow> fid \<in> dom fi)"
| "sys_ok conn (IndexCall (SetFileInfo fi)) = False"
| "sys_ok conn _ = True"

text \<open>
  The invariant: every stored file row is well-typed, and every file id of the constants
  table has a stored row (which needs the file table to exist once a constant is indexed).
\<close>

definition sys_inv :: "connection \<Rightarrow> bool" where
  "sys_inv conn \<longleftrightarrow>
     (case naming_file_info conn of
        None \<Rightarrow> (case naming_consts conn of None \<Rightarrow> True | Some t \<Rightarrow> ran t = {})
      | Some fi \<Rightarrow> (\<forall>r \<in> ran fi. file_row_typed r) \<and>
          (case naming_consts conn of None \<Rightarrow> True | Some t \<Rightarrow> ran t \<subseteq> dom fi))"

fun is_missing_table :: "sqlite_error \<Rightarrow> bool" where
  "is_missing_table (NoSuchTable _) = True"
| "is_missing_table _ = False"

text \<open>A lookup answer that is a value, or the error of a table not yet created.\<close>

fun lookup_ok :: "op_result option \<Rightarrow> bool" where
  "lookup_ok (Some (PathResult (Inl e))) = is_missing_table e"
| "lookup_ok _ = True"

subsection \<open>Lemmas\<close>

lemma file_info_row_of_typed [simp]:
  "file_row_typed (file_info_row_of p)"
  by (cases p, rename_tac pre s, case_tac pre) (simp_all add: file_info_row_of_def file_row_typed_def)

lemma path_of_file_info_row [simp]:
  "path_prefix_type (file_info_row_of p) = sqlite_prefix_to_sql (case p of RelativePath pre s \<Rightarrow> pre) \<and>
   path_suffix (file_info_row_of p) = SqlText (case p of RelativePath pre s \<Rightarrow> s)"
  by (cases p) (simp add: file_info_row_of_def)

lemma file_info_insert_fresh:
  "naming_file_info conn = Some fi \<Longrightarrow> fid \<notin> dom fi \<Longrightarrow>
   file_info_insert conn fid p = (Inr (), conn\<lparr>naming_file_info := Some (fi(fid \<mapsto> file_info_row_of p))\<rparr>)"
  by (simp add: file_info_insert_def domIff)

lemma sys_inv_open_in_memory [simp]:
  "sys_inv open_in_memory"
  by (simp add: sys_inv_def open_in_memory_def)

lemmas sys_eval = sys_next_def open_in_memory_def create_file_info_table_def
  create_table_def exec_create_naming_consts_def file_info_insert_def

lemma sys_next_index:
  "sys_next conn (IndexCall op) = run_op conn op"
  by (simp add: sys_next_def exec_op_state)

lemma sys_inv_add_file:
  assumes "sys_inv conn"
  shows "sys_inv (snd (file_info_insert conn fid p))"
proof (cases "naming_file_info conn")
  case None
  with assms show ?thesis by (simp add: file_info_insert_def)
next
  case (Some fi)
  show ?thesis
  proof (cases "fi fid")
    case None
    then have "ran (fi(fid \<mapsto> file_info_row_of p)) = insert (file_info_row_of p) (ran fi)" by simp
    with Some None assms show ?thesis
      by (auto simp: sys_inv_def file_info_insert_def split: option.splits)
  next
    case (Some r)
    with \<open>naming_file_info conn = Some fi\<close> assms show ?thesis by (simp add: file_info_insert_def)
  qed
qed

lemma sys_inv_insert:
  assumes "sys_inv conn" and "naming_file_info conn = Some fi" and "fid \<in> dom fi"
  shows "sys_inv (snd (insert_consts conn fid ns))"
proof (cases "naming_consts conn")
  case None
  with assms(1) show ?thesis by (simp add: insert_consts_def prepare_insert_def)
next
  case (Some t)
  with assms(1,2) have "ran t \<subseteq> dom fi" and typed: "\<forall>r \<in> ran fi. file_row_typed r"
    by (simp_all add: sys_inv_def)
  with assms(3) insert_loop_ran [of fid ns t] have "ran (snd (insert_loop fid ns t)) \<subseteq> dom fi"
    by blast
  with Some assms(2) typed show ?thesis by (simp add: sys_inv_def insert_consts_table)
qed

lemma sys_step_inv:
  assumes "sys_inv conn" and "sys_ok conn op"
  shows "sys_inv (sys_next conn op)"
proof (cases op)
  case CreateFileTable
  with assms(1) show ?thesis
    by (auto simp: sys_next_def sys_inv_def create_file_info_table_def split: option.splits)
next
  case (AddFile fid p)
  with assms(1) sys_inv_add_file [of conn fid p] show ?thesis by (simp add: sys_next_def case_prod_unfold Let_def)
next
  case (IndexCall iop)
  show ?thesis
  proof (cases iop)
    case CreateTable
    with IndexCall assms(1) show ?thesis
      by (auto simp: sys_next_index sys_inv_def create_table_def exec_create_naming_consts_def
          split: option.splits)
  next
    case (Insert fid ns)
    with IndexCall assms(2) obtain fi where "naming_file_info conn = Some fi" and "fid \<in> dom fi"
      by (auto split: option.splits)
    with Insert IndexCall assms(1) show ?thesis by (simp add: sys_next_index sys_inv_insert)
  qed (use IndexCall assms in \<open>simp_all add: sys_next_index\<close>)
qed

lemma sys_inv_store_typed:
  assumes "sys_inv conn" and "naming_consts conn = Some t" and "naming_file_info conn = Some fi"
  shows "store_typed conn"
proof -
  from assms have dom: "ran t \<subseteq> dom fi" and typed: "\<forall>r \<in> ran fi. file_row_typed r"
    by (simp_all add: sys_inv_def)
  have "\<forall>fid \<in> ran t. file_typed fi fid"
  proof
    fix fid assume "fid \<in> ran t"
    with dom obtain r where r: "fi fid = Some r" by blast
    then have "r \<in> ran fi" by (auto simp: ran_def)
    with typed r show "file_typed fi fid" by (simp add: file_typed_def)
  qed
  with assms(2,3) show ?thesis by (simp add: store_typed_def)
qed

lemma sys_lookup_ok:
  assumes "sys_inv conn"
  shows "lookup_ok (fst (sys_exec conn op))"
proof (cases "\<exists>n. op = IndexCall (GetPath n)")
  case True
  then obtain n where op: "op = IndexCall (GetPath n)" by blast
  show ?thesis
  proof (cases "naming_consts conn")
    case None
    with op show ?thesis by (simp add: get_path_def prepare_select_def)
  next
    case (Some t)
    show ?thesis
    proof (cases "naming_file_info conn")
      case None
      with op Some show ?thesis by (simp add: get_path_def prepare_select_def)
    next
      case (Some fi)
      with assms \<open>naming_consts conn = Some t\<close> have "store_typed conn"
        by (rule sys_inv_store_typed)
      with \<open>naming_consts conn = Some t\<close> have "\<exists>res. get_path conn n = Inr res"
        using get_path_typed by blast
      with op show ?thesis by auto
    qed
  qed
next
  case False
  then show ?thesis
  proof (cases op)
    case (IndexCall iop)
    with False show ?thesis by (cases iop) (simp_all split: prod.splits)
  qed (simp_all split: prod.splits)
qed

subsection \<open>Properties\<close>

text \<open>
  C32. Round trip through both components. Storing a new file under a fresh id and then
  indexing a batch of its constants (hashes distinct and new) both succeed, and the
  lookup of any of those constants returns exactly the stored path.
\<close>

theorem file_store_index_roundtrip:
  assumes fi: "naming_file_info conn = Some fi" and new_file: "fid \<notin> dom fi"
    and t: "naming_consts conn = Some t" and dist: "distinct (map const_hash ns)"
    and fresh: "set (map const_hash ns) \<inter> dom t = {}" and n: "n \<in> set ns"
  shows "let (r1, conn1) = file_info_insert conn fid p; (r2, conn2) = insert_consts conn1 fid ns
         in r1 = Inr () \<and> r2 = Inr () \<and> get_path conn2 n = Inr (Some p)"
proof -
  obtain pre suffix where p: "p = RelativePath pre suffix" by (cases p)
  define fi' where "fi' = fi(fid \<mapsto> file_info_row_of p)"
  define t' where "t' = t(map const_hash ns [\<mapsto>] replicate (length ns) fid)"
  define conn1 where "conn1 = conn\<lparr>naming_file_info := Some fi'\<rparr>"
  from fi new_file have ins1: "file_info_insert conn fid p = (Inr (), conn1)"
    by (simp add: file_info_insert_fresh fi'_def conn1_def)
  from t have "naming_consts conn1 = Some t" by (simp add: conn1_def)
  then have ins2: "insert_consts conn1 fid ns = (Inr (), conn1\<lparr>naming_consts := Some t'\<rparr>)"
    unfolding t'_def using dist fresh by (rule insert_consts_Inr)
  from n have "const_hash n \<in> set (map const_hash ns)" by simp
  from map_upds_replicate_apply [OF this, of t fid]
  have hit: "t' (const_hash n) = Some fid" by (simp add: t'_def)
  have "get_path (conn1\<lparr>naming_consts := Some t'\<rparr>) n = Inr (Some (RelativePath pre suffix))"
    by (rule get_path_hit [where t = t' and fi = fi' and fid = fid and r = "file_info_row_of p"])
       (simp_all add: conn1_def fi'_def p hit)
  with ins1 ins2 p show ?thesis by simp
qed

theorem file_store_index_roundtrip_witness:
  "let conn = \<lparr>naming_consts = Some Map.empty, naming_file_info = Some Map.empty\<rparr>
   in naming_file_info conn = Some Map.empty \<and> (7 :: i64) \<notin> dom (Map.empty :: file_info_row table) \<and>
      naming_consts conn = Some Map.empty \<and> distinct (map const_hash [''Foo'']) \<and>
      set (map const_hash [''Foo'']) \<inter> dom (Map.empty :: i64 table) = {} \<and> ''Foo'' \<in> set [''Foo''] \<and>
      (let (r1, conn1) = file_info_insert conn 7 (RelativePath Hhi ''c.hhi'');
           (r2, conn2) = insert_consts conn1 7 [''Foo'']
       in r1 = Inr () \<and> r2 = Inr () \<and> get_path conn2 ''Foo'' = Inr (Some (RelativePath Hhi ''c.hhi'')))"
  using file_store_index_roundtrip
    [of "\<lparr>naming_consts = Some Map.empty, naming_file_info = Some Map.empty\<rparr>" Map.empty 7
        Map.empty "[''Foo'']" "''Foo''" "RelativePath Hhi ''c.hhi''"]
  by (simp add: Let_def)

text \<open>
  C33. The composed system keeps every reference resolvable. From a state satisfying
  \<open>sys_inv\<close> (a fresh database does), every run in which constants are indexed only for
  stored files and only the store writes its table keeps every stored row well-typed
  and every file id of the constants table stored.
\<close>

theorem sys_runs_keep_invariant:
  "sys_inv conn \<Longrightarrow> all_steps sys_ok sys_next conn ops \<Longrightarrow> sys_inv (foldl sys_next conn ops)"
  by (rule guarded_run_invariant [where Q = sys_inv and P = sys_ok and f = sys_next, OF sys_step_inv])

theorem sys_runs_keep_invariant_witness:
  "let ops = [CreateFileTable, IndexCall CreateTable, AddFile 7 (RelativePath Hhi ''c.hhi''),
              IndexCall (Insert 7 [''Foo'', ''Bar''])]
   in sys_inv open_in_memory \<and> all_steps sys_ok sys_next open_in_memory ops \<and>
      sys_inv (foldl sys_next open_in_memory ops)"
proof -
  define ops where "ops = [CreateFileTable, IndexCall CreateTable, AddFile 7 (RelativePath Hhi ''c.hhi''),
              IndexCall (Insert 7 [''Foo'', ''Bar''])]"
  have inv: "sys_inv open_in_memory" by simp
  have ok: "all_steps sys_ok sys_next open_in_memory ops"
    by (simp add: ops_def sys_eval)
  from inv ok sys_runs_keep_invariant [of open_in_memory ops] show ?thesis
    by (simp add: ops_def [symmetric] Let_def)
qed

text \<open>
  C34. No lookup of the composed system fails on a row. In every run of the two
  components that keeps the discipline, from a state satisfying \<open>sys_inv\<close>, every answer
  of \<open>get_path\<close> is a value or the error of a table not yet created: the decoding errors
  of C6 and C20 never reach a caller.
\<close>

theorem sys_lookups_never_fail_to_decode:
  "sys_inv conn \<Longrightarrow> all_steps sys_ok sys_next conn ops \<Longrightarrow> list_all lookup_ok (sys_exec_ops conn ops)"
proof (induction ops arbitrary: conn)
  case Nil
  then show ?case by simp
next
  case (Cons op ops)
  then have "sys_inv (sys_next conn op)" by (simp add: sys_step_inv)
  with Cons have "list_all lookup_ok (sys_exec_ops (sys_next conn op) ops)" by simp
  with Cons.prems(1) show ?case by (simp add: sys_lookup_ok)
qed

theorem sys_lookups_never_fail_to_decode_witness:
  "let ops = [CreateFileTable, IndexCall (GetPath ''Foo''), IndexCall CreateTable,
              AddFile 7 (RelativePath Root ''a.php''), IndexCall (Insert 7 [''Foo'']),
              IndexCall (GetPath ''Foo'')]
   in sys_inv open_in_memory \<and> all_steps sys_ok sys_next open_in_memory ops \<and>
      list_all lookup_ok (sys_exec_ops open_in_memory ops)"
proof -
  define ops where "ops = [CreateFileTable, IndexCall (GetPath ''Foo''), IndexCall CreateTable,
              AddFile 7 (RelativePath Root ''a.php''), IndexCall (Insert 7 [''Foo'']),
              IndexCall (GetPath ''Foo'')]"
  have inv: "sys_inv open_in_memory" by simp
  have ok: "all_steps sys_ok sys_next open_in_memory ops"
    by (simp add: ops_def sys_eval)
  from inv ok sys_lookups_never_fail_to_decode [of open_in_memory ops] show ?thesis
    by (simp add: ops_def [symmetric] Let_def)
qed

end
