(* ===== verification/Insert_Order.thy ===== *)
theory Insert_Order
  imports Consts
begin

text \<open>
  The order of batch inserts. Callers index the files of a repository in whatever order
  their workers finish. A batch reads and writes only the keys of its own names, so two
  batches whose names hash to disjoint key sets commute: either order gives the same two
  results and the same database, whether each batch succeeds or fails part-way. Where the
  key sets meet, the order decides (the first row wins, C3).
\<close>

subsection \<open>Lemmas\<close>

text \<open>Frame: a batch leaves every key outside its names' hashes alone.\<close>

lemma insert_loop_frame:
  "k \<notin> const_hash ` set ns \<Longrightarrow> snd (insert_loop fid ns t) k = t k"
proof (induction ns arbitrary: t)
  case Nil
  then show ?case by simp
next
  case (Cons n ns)
  then have "k \<noteq> const_hash n" and "k \<notin> const_hash ` set ns" by auto
  then show ?case
    by (cases "const_hash n \<in> dom t") (simp_all add: insert_loop_Cons_clash insert_loop_Cons_fresh Cons.IH)
qed

text \<open>Locality: a batch's result and writes depend only on the table at its own keys.\<close>

lemma insert_loop_local:
  "\<forall>k \<in> const_hash ` set ns. t1 k = t2 k \<Longrightarrow>
   fst (insert_loop fid ns t1) = fst (insert_loop fid ns t2) \<and>
   (\<forall>k \<in> const_hash ` set ns. snd (insert_loop fid ns t1) k = snd (insert_loop fid ns t2) k)"
proof (induction ns arbitrary: t1 t2)
  case Nil
  then show ?case by simp
next
  case (Cons n ns)
  then have eq: "t1 (const_hash n) = t2 (const_hash n)" by simp
  show ?case
  proof (cases "const_hash n \<in> dom t1")
    case True
    with eq have "const_hash n \<in> dom t2" by (simp add: domIff)
    with True Cons.prems show ?thesis by (simp add: insert_loop_Cons_clash)
  next
    case False
    with eq have False2: "const_hash n \<notin> dom t2" by (simp add: domIff)
    let ?u1 = "t1(const_hash n \<mapsto> fid)" and ?u2 = "t2(const_hash n \<mapsto> fid)"
    from Cons.prems have "\<forall>k \<in> const_hash ` set ns. ?u1 k = ?u2 k" by simp
    then have IH: "fst (insert_loop fid ns ?u1) = fst (insert_loop fid ns ?u2) \<and>
        (\<forall>k \<in> const_hash ` set ns. snd (insert_loop fid ns ?u1) k = snd (insert_loop fid ns ?u2) k)"
      by (rule Cons.IH)
    have "snd (insert_loop fid ns ?u1) (const_hash n) = snd (insert_loop fid ns ?u2) (const_hash n)"
    proof (cases "const_hash n \<in> const_hash ` set ns")
      case True
      with IH show ?thesis by blast
    next
      case False
      then show ?thesis by (simp add: insert_loop_frame)
    qed
    with IH False False2 show ?thesis by (simp add: insert_loop_Cons_fresh)
  qed
qed

lemma insert_loop_commute:
  assumes "const_hash ` set ns1 \<inter> const_hash ` set ns2 = {}"
  shows "fst (insert_loop f1 ns1 (snd (insert_loop f2 ns2 t))) = fst (insert_loop f1 ns1 t) \<and>
    snd (insert_loop f1 ns1 (snd (insert_loop f2 ns2 t))) =
    snd (insert_loop f2 ns2 (snd (insert_loop f1 ns1 t)))"
proof -
  let ?A = "insert_loop f1 ns1 t" and ?B' = "insert_loop f2 ns2 t"
  let ?B = "insert_loop f2 ns2 (snd ?A)" and ?A' = "insert_loop f1 ns1 (snd ?B')"
  have agree1: "\<forall>k \<in> const_hash ` set ns1. snd ?B' k = t k"
    using assms by (auto intro: insert_loop_frame)
  have agree2: "\<forall>k \<in> const_hash ` set ns2. snd ?A k = t k"
    using assms by (auto intro: insert_loop_frame)
  from agree1 have A: "fst ?A' = fst ?A \<and> (\<forall>k \<in> const_hash ` set ns1. snd ?A' k = snd ?A k)"
    by (rule insert_loop_local)
  from agree2 have B: "fst ?B = fst ?B' \<and> (\<forall>k \<in> const_hash ` set ns2. snd ?B k = snd ?B' k)"
    by (rule insert_loop_local)
  have "snd ?A' k = snd ?B k" for k
  proof (cases "k \<in> const_hash ` set ns1")
    case True
    with assms have "k \<notin> const_hash ` set ns2" by blast
    then have "snd ?B k = snd ?A k" by (rule insert_loop_frame)
    moreover from True A have "snd ?A' k = snd ?A k" by blast
    ultimately show ?thesis by simp
  next
    case False
    show ?thesis
    proof (cases "k \<in> const_hash ` set ns2")
      case True
      from False have "snd ?A' k = snd ?B' k" by (rule insert_loop_frame)
      moreover from True B have "snd ?B k = snd ?B' k" by blast
      ultimately show ?thesis by simp
    next
      case False2: False
      with False show ?thesis by (simp add: insert_loop_frame)
    qed
  qed
  with A show ?thesis by auto
qed

subsection \<open>Properties\<close>

text \<open>
  C35. Batches on disjoint keys commute. If the names of two batches hash to disjoint sets
  of keys, running \<open>insert\<close> for the first and then the second gives each batch the same
  result as running them the other way round, and the same final database, whatever the
  table held before and whether each batch succeeds or aborts part-way.
\<close>

theorem insert_consts_commute:
  assumes "naming_consts conn = Some t"
    and "const_hash ` set ns1 \<inter> const_hash ` set ns2 = {}"
  shows "fst (insert_consts (snd (insert_consts conn f2 ns2)) f1 ns1) = fst (insert_consts conn f1 ns1) \<and>
    fst (insert_consts (snd (insert_consts conn f1 ns1)) f2 ns2) = fst (insert_consts conn f2 ns2) \<and>
    snd (insert_consts (snd (insert_consts conn f1 ns1)) f2 ns2) =
    snd (insert_consts (snd (insert_consts conn f2 ns2)) f1 ns1)"
proof -
  from assms(2) have disj': "const_hash ` set ns2 \<inter> const_hash ` set ns1 = {}" by blast
  from assms(1) insert_loop_commute [OF assms(2), of f1 f2 t] insert_loop_commute [OF disj', of f2 f1 t]
  show ?thesis by (simp add: insert_consts_table)
qed

theorem insert_consts_commute_witness:
  "let conn = \<lparr>naming_consts = Some [const_hash ''A'' \<mapsto> (1 :: i64)],
               naming_file_info = (None :: file_info_row table option)\<rparr>
   in naming_consts conn = Some [const_hash ''A'' \<mapsto> 1] \<and>
      const_hash ` set [''A'', ''C''] \<inter> const_hash ` set [''B''] = {} \<and>
      fst (insert_consts (snd (insert_consts conn 3 [''B''])) 2 [''A'', ''C'']) = fst (insert_consts conn 2 [''A'', ''C'']) \<and>
      fst (insert_consts (snd (insert_consts conn 2 [''A'', ''C''])) 3 [''B'']) = fst (insert_consts conn 3 [''B'']) \<and>
      snd (insert_consts (snd (insert_consts conn 2 [''A'', ''C''])) 3 [''B'']) =
      snd (insert_consts (snd (insert_consts conn 3 [''B''])) 2 [''A'', ''C''])"
proof -
  have disj: "const_hash ` set [''A'', ''C''] \<inter> const_hash ` set [''B''] = {}"
    by (simp add: hash_defs)
  from insert_consts_commute [OF _ disj,
      of "\<lparr>naming_consts = Some [const_hash ''A'' \<mapsto> (1 :: i64)],
            naming_file_info = (None :: file_info_row table option)\<rparr>"] disj
  show ?thesis by (simp add: Let_def)
qed

end
