(* ===== verification/Row_Count.thy ===== *)
theory Row_Count
  imports Consts
begin

text \<open>
  The size of \<open>NAMING_CONSTS\<close>. The key is an \<open>i64\<close>, so the table holds at most
  \<open>2^64\<close> rows, whatever is inserted; a batch adds one row per name it writes, never more
  rows than it has names, and exactly one per name when it returns \<open>Ok\<close>.
\<close>

subsection \<open>Lemmas\<close>

lemma finite_dom_table [simp]:
  "finite (dom (t :: 'v table))"
  by (rule finite_subset [OF subset_UNIV]) simp

lemma card_dom_table_le:
  "card (dom (t :: 'v table)) \<le> 2 ^ 64"
proof -
  have "card (dom t) \<le> card (UNIV :: i64 set)" by (rule card_mono) simp_all
  then show ?thesis by (simp add: card_word)
qed

lemma insert_loop_card:
  "card (dom t) \<le> card (dom (snd (insert_loop fid ns t))) \<and>
   card (dom (snd (insert_loop fid ns t))) \<le> card (dom t) + length ns \<and>
   (fst (insert_loop fid ns t) = Inr () \<longrightarrow> card (dom (snd (insert_loop fid ns t))) = card (dom t) + length ns)"
proof (induction ns arbitrary: t)
  case Nil
  then show ?case by simp
next
  case (Cons n ns)
  show ?case
  proof (cases "const_hash n \<in> dom t")
    case True
    then show ?thesis by (simp add: insert_loop_Cons_clash)
  next
    case False
    define u where "u = t(const_hash n \<mapsto> fid)"
    from False have c: "card (dom u) = Suc (card (dom t))" by (simp add: u_def)
    from False have eq: "insert_loop fid (n # ns) t = insert_loop fid ns u"
      by (simp add: u_def insert_loop_Cons_fresh)
    from Cons.IH [of u] c show ?thesis unfolding eq by auto
  qed
qed

subsection \<open>Properties\<close>

text \<open>
  C37. Row bounds of an insert. On an existing table, \<open>insert\<close> never removes a row and
  adds at most one row per name of its batch, exactly one per name when it returns
  \<open>Ok\<close>; the table never holds more than \<open>2^64\<close> rows, one per \<open>i64\<close> key.
\<close>

theorem insert_consts_row_bounds:
  assumes "naming_consts conn = Some t"
  shows "\<exists>t'. naming_consts (snd (insert_consts conn fid ns)) = Some t' \<and>
    card (dom t) \<le> card (dom t') \<and> card (dom t') \<le> card (dom t) + length ns \<and>
    (fst (insert_consts conn fid ns) = Inr () \<longrightarrow> card (dom t') = card (dom t) + length ns) \<and>
    card (dom t') \<le> 2 ^ 64"
  using assms insert_loop_card [of t fid ns] card_dom_table_le [of "snd (insert_loop fid ns t)"]
  by (simp add: insert_consts_table)

theorem insert_consts_row_bounds_witness:
  "naming_consts \<lparr>naming_consts = Some (Map.empty :: i64 table), naming_file_info = None\<rparr> = Some Map.empty \<and>
   (\<exists>t'. naming_consts (snd (insert_consts \<lparr>naming_consts = Some Map.empty, naming_file_info = None\<rparr> 5 [''A'', ''A''])) = Some t' \<and>
      card (dom (Map.empty :: i64 table)) \<le> card (dom t') \<and> card (dom t') \<le> card (dom (Map.empty :: i64 table)) + 2 \<and>
      (fst (insert_consts \<lparr>naming_consts = Some Map.empty, naming_file_info = None\<rparr> 5 [''A'', ''A'']) = Inr () \<longrightarrow>
         card (dom t') = card (dom (Map.empty :: i64 table)) + 2) \<and>
      card (dom t') \<le> 2 ^ 64)"
  using insert_consts_row_bounds [of "\<lparr>naming_consts = Some Map.empty, naming_file_info = None\<rparr>" Map.empty 5 "[''A'', ''A'']"]
  by simp

end
