(* ===== verification/Spec2Isabelle.thy ===== *)
theory Spec2Isabelle
  imports Index_Machine Insert_Iter Faulty_Typing Interleaving File_Store Insert_Order Row_Count
begin

text \<open>
  \<^bold>\<open>A verified model of the SQLite naming index for global constants.\<close>

  \<^bold>\<open>The program.\<close> \<open>src/hphp/hack/src/name_index/sqlite/consts.rs\<close> keeps, in the
  table \<open>NAMING_CONSTS\<close> of a SQLite database, one row per global constant: its key is
  the 64-bit hash of the constant's name under the dependency kind \<open>GConst\<close>
  (\<open>convert::name_to_hash\<close>), its value the id of the file that defines it. It has
  three functions and a unit test: \<open>create_table\<close> (\<open>CREATE TABLE IF NOT EXISTS\<close>, with
  \<open>HASH INTEGER PRIMARY KEY\<close>), \<open>insert\<close> (one plain \<open>INSERT\<close> per name of a lazy
  sequence, stopping at the first error through \<open>?\<close>, with no transaction of its own) and
  \<open>get_path\<close> (hash the name, \<open>SELECT\<close> the row \<open>LEFT JOIN\<close>ed with the file-location
  store's table \<open>NAMING_FILE_INFO\<close>, decode the prefix and suffix columns into a
  \<open>RelativePath\<close>; no row is \<open>Ok(None)\<close>). The hasher, the row decoders and the path
  type live outside the sources and are called by these functions.

  \<^bold>\<open>The theories.\<close>
  \<^item> \<open>Prelude\<close>: the machine types (\<open>i64\<close>, \<open>u64\<close>, \<open>u8\<close> as words), a table as a
    partial map from its integer key, the \<open>index_simps\<close> collection, guarded runs
    (\<open>all_steps\<close>: every step of a run satisfies a guard on its start state) with the
    lemma that carries a one-step invariant to such runs, and shared lemmas on map updates
    and byte/word conversions.
  \<^item> \<open>DepHash\<close> (modelled from the specification): \<open>dep_type\<close> and its tag byte,
    FNV-1a over bytes (\<open>fnv_write_u8\<close>, \<open>fnv_write\<close>, on \<open>64 word\<close> so that the
    multiplication wraps as in Rust), \<open>hash_input\<close> (tag, then the name's bytes) and
    \<open>name_to_hash\<close>. Lemmas: the input decodes back to kind and name; the word loop equals
    FNV-1a over naturals modulo \<open>2^64\<close>; the twelve kinds give distinct hashes on sample names.
  \<^item> \<open>Sqlite\<close>: the engine as the code sees it. A \<open>connection\<close> record holds both tables,
    each absent (\<open>None\<close>) or a map from key to row; \<open>sql_value\<close> is a dynamically typed
    column value and \<open>sqlite_error\<close> the errors these statements can raise. One definition
    per statement of \<open>consts.rs\<close>: \<open>exec_create_naming_consts\<close> (lines 13-19),
    \<open>prepare_insert\<close> and \<open>exec_insert_naming_consts\<close> (28-41: a key already present is a
    primary-key violation, since the \<open>INTEGER PRIMARY KEY\<close> is the rowid and the statement
    has no conflict clause), \<open>prepare_select\<close> and \<open>select_path_row\<close> (47-64: the left join
    keeps a row of \<open>NULL\<close>s for a file id without file row).
  \<^item> \<open>Datatypes\<close> (modelled from the specification): \<open>prefix\<close>, \<open>relative_path\<close>, the
    \<open>FromSql\<close>/\<open>ToSql\<close> conversions of the prefix and suffix columns and \<open>row_get\<close>,
    which turns a conversion failure into the error naming the column.
  \<^item> \<open>Consts\<close>: the functions of \<open>consts.rs\<close>. \<open>create_table\<close>, \<open>insert_consts\<close>
    (\<open>insert\<close>, renamed because \<open>insert\<close> is HOL's set insertion) with its loop
    \<open>insert_loop\<close>, \<open>get_path\<close> with the closure \<open>path_of_row\<close>, and
    \<open>test_add_const\<close>. Each returns its \<open>Result\<close> as a sum; the writers also return the
    connection, so that rows written before an error stay written. Lemmas and claims C1 to
    C11, C19 and C20, and the evaluation of the unit test.
  \<^item> \<open>Index_Machine\<close>: the index driven by its callers. \<open>index_op\<close> and \<open>run_op\<close> are
    one step (a call of one function, or a write of the file-location store), \<open>run_ops\<close> a
    run, \<open>reach\<close> the reachable states from a database without the table, with the names
    given to \<open>insert\<close> as ghost state. The abstract index is a map from names to file ids
    with \<open>abs_insert\<close> (reject a name already present, stop there, keep the prefix),
    \<open>abs_get_path\<close> and \<open>abs_run\<close>; \<open>index_rel\<close> relates it to the hash-keyed
    table. Claims C12 to C15, C18 and C38; \<open>writes_file_info\<close> marks the steps that
    write the file table.
  \<^item> \<open>Storage_Faults\<close>: \<open>insert\<close> against an engine in which any \<open>execute\<close> may
    fail (\<open>StorageFailure\<close>), as the inductive relation \<open>insert_io\<close>. Claims C16 and C17.
  \<^item> \<open>Insert_Iter\<close>: \<open>insert\<close> over its real argument type, a lazy and possibly
    infinite \<open>impl Iterator<Item = String>\<close>, modelled as a \<open>next\<close> function on a state
    (\<open>'s name_iter\<close>); the loop \<open>insert_iter_loop\<close> is a
    \<open>partial_function (option)\<close>, \<open>insert_iter\<close> the whole function. Claims C21 to C23.
  \<^item> \<open>Store_Typing\<close>: well-typed databases. \<open>file_row_typed\<close> (prefix an integer code 0
    to 3, suffix text), \<open>store_typed\<close> (both tables exist and every file id of
    \<open>NAMING_CONSTS\<close> has a well-typed file row), and the discipline of a run that keeps it,
    \<open>op_typed\<close> and \<open>run_typed\<close> (inserts name such files; writes of the file-location
    store keep the store well-typed). Claims C24 and C25.
  \<^item> \<open>Run_Trace\<close>: runs with the answers the callers receive. \<open>exec_op\<close> returns the
    \<open>Result\<close> of each call (\<open>op_result\<close>) with the new connection, \<open>exec_ops\<close> the
    answers of a run; \<open>abs_exec\<close> and \<open>abs_exec_ops\<close> are the abstract index (the name
    map with the file table it joins, record \<open>abs_index\<close>) answering the same calls, and
    \<open>conc_result\<close> turns an abstract answer into the code's. Claim C26.
  \<^item> \<open>Faulty_Runs\<close>: runs against an engine in which every statement of every call may
    fail: \<open>exec_op_io\<close> (inductive) is one call, with \<open>create_table\<close>,
    the \<open>prepare\<close> of \<open>insert\<close> and \<open>get_path\<close> failing as a whole and \<open>insert\<close>'s loop
    failing as \<open>insert_io\<close> allows, \<open>run_io\<close> a run with its answers and
    \<open>is_fault\<close> the answers that report an engine failure. Claims C27 and C28.
  \<^item> \<open>Faulty_Typing\<close>: the typing discipline of \<open>Store_Typing\<close> imposed on each call of
    a faulty run (\<open>typed_run_io\<close>, inductive). Claim C36.
  \<^item> \<open>Interleaving\<close>: the loop of \<open>insert\<close> (lines 38-43) as a small-step machine,
    because each \<open>execute\<close> commits on its own and readers on other connections may run
    between two of them. \<open>writer\<close> is \<open>Inserting fid names\<close> (names still to
    insert) or \<open>Done r\<close>; \<open>batch_step\<close> runs one \<open>execute\<close>, finishes, or lets the
    file-location store write in between; \<open>batch_inv\<close> is the invariant linking a state
    in flight to \<open>insert_loop\<close>. Claims C29 to C31.
  \<^item> \<open>File_Store\<close> (the writer modelled from the specification): the file-location
    store, \<open>create_file_info_table\<close> and \<open>file_info_insert\<close> (a file's row under its
    id, written with the \<open>ToSql\<close> codes of its path, \<open>file_info_row_of\<close>), and the
    system of both components on one connection: \<open>sys_op\<close>, \<open>sys_exec\<close>,
    \<open>sys_next\<close>, \<open>sys_exec_ops\<close>, the callers' discipline \<open>sys_ok\<close> (index a
    file's constants only after storing it; only the store writes its table) and the
    invariant \<open>sys_inv\<close>. Claims C32 to C34.
  \<^item> \<open>Insert_Order\<close>: the order of batches; \<open>insert_loop\<close> touches only the keys of its
    names (frame) and depends only on the table there (locality). Claim C35.
  \<^item> \<open>Row_Count\<close>: the size of \<open>NAMING_CONSTS\<close>, a finite table over the \<open>2^64\<close>
    keys of \<open>i64\<close>. Claim C37.
  \<^item> this theory: the two end-to-end scenarios of the specification, evaluated on their
    inputs (checks of single inputs, not claims).

  \<^bold>\<open>What is proved.\<close> Round trip of insert and lookup (C1); the exact outcome of
  \<open>insert\<close> on every branch: success and the rows it writes (C2), the collision policy,
  first row wins and the later insert fails (C3), the prefix left by a failing batch (C4),
  missing table (C9), a name repeated within a batch (C11); of \<open>get_path\<close>: unknown name
  (C5), a dangling file id, which is an error and not \<open>None\<close> (C6), aliasing of names with
  equal hashes (C7), missing tables (C10), exactly when it succeeds (C19), the signed reading
  of an out-of-range prefix code (C20); idempotent creation (C8). Over runs: rows are never changed or removed (C12) and every key is the hash of an
  inserted name (C13, rule induction on \<open>reach\<close>). Refinement: where the hash is
  injective on the names involved, \<open>insert\<close> and \<open>get_path\<close> implement the abstract
  name map (C14, C15), and so does every run of operations (C18).
  Under storage failures, every run of \<open>insert\<close> leaves exactly a prefix of its batch
  written, all of it exactly when it returns \<open>Ok\<close> (C16), and the deterministic loop is
  the run without engine failures (C17). Over iterators, \<open>insert\<close> returns for every
  iterator, infinite ones included, because each successful \<open>execute\<close> uses up one of the
  \<open>2^64\<close> keys (C21, by induction on the number of free keys); an iterator that never ends
  therefore always ends in a primary-key error (C22); and over the iterator of a list
  \<open>insert\<close> returns \<open>Ok\<close>, with exactly one new row per name, if and only if the names'
  hashes are distinct and new, and otherwise the primary-key violation of one of them
  (C23). Typing: on a well-typed store
  \<open>get_path\<close> never fails, and answers \<open>None\<close> exactly for names whose hash is not a
  key (C24); well-typedness is preserved by every run that follows the discipline, whatever
  the inserts do, collisions and aborted batches included (C25). SQLite enforces neither the
  column types nor a foreign key, so this is the contract the file-location store must keep
  for the errors of C6 and C20 never to arise. Answers: along every run on names the hash
  keeps apart, each call answers exactly what the abstract index answers, a rejected name
  becoming the primary-key violation of its hash (C26), which extends C14, C15 and C18 from
  states to what the callers observe. Under engine failures anywhere in a run, rows are
  still never changed or removed (C27, rule induction on \<open>run_io\<close>), and the runs in
  which no call reports a storage failure are exactly the deterministic runs of
  \<open>Run_Trace\<close>, answers and final state included (C28). Interleaving: every state a
  concurrent reader can observe during a batch holds exactly a prefix of the batch, and the
  writer has returned \<open>Ok\<close> only with the whole batch in (C29, induction over the
  reflexive-transitive closure of \<open>batch_step\<close>); the writer can always finish, and
  whenever it has finished, in any interleaving, it has returned \<open>Ok\<close> exactly when the
  names' hashes are distinct and new, with one new row per name, and otherwise the
  primary-key violation of one of them (C30); and for
  fresh names every prefix is reached, so a reader can see half a batch (C31).
  Composition with the file-location store: storing a file and indexing its constants
  makes every one of them resolve to the stored path (C32, the specification's round trip
  through the external store); the callers' discipline keeps every referenced row stored
  and well-typed along every run of both components (C33, from the guarded-run lemma of
  the prelude); so from a fresh database no lookup ever fails on a row, only on a table
  not yet created (C34). Order: batches whose names hash to disjoint keys commute, results
  and final database included, even when they abort part-way (C35). Engine failures do
  not break typing: every faulty run that keeps the discipline call by call ends in a
  well-typed store (C36). Bounds: an insert never removes a row, adds at most one per name
  and exactly one per name when it returns \<open>Ok\<close>, and the table never exceeds \<open>2^64\<close>
  rows (C37). Stability: once \<open>get_path\<close> resolves a name, every later run of the
  index's calls keeps it resolving to the same path while the file table is not rewritten,
  so a caller may cache it (C38).

  \<^bold>\<open>Choices.\<close> Names are \<open>string\<close>s (byte lists, as Rust's UTF-8 \<open>as_bytes\<close>); keys
  and file ids are \<open>64 word\<close>, the bits of the \<open>i64\<close>, with the prefix column read
  through \<open>sint\<close>. The lazy name iterator is modelled twice: as a finite list (the list
  model used by most claims) and as an arbitrary iterator (\<open>Insert_Iter\<close>), the two
  proved equal on lists (the lemma \<open>insert_iter_list_consts\<close>). The list loops are structural recursion; the iterator loop is
  a \<open>partial_function (option)\<close>, and its termination is proved (C21) rather than assumed:
  no fuel is needed.

  \<^bold>\<open>Not modelled.\<close> Every function, statement and branch of \<open>consts.rs\<close> is
  modelled; the lines left out of the map are its imports, blank lines and the
  \<open>#[cfg(test)]\<close> module header. What lies outside it is modelled only as far as the
  specification describes it, or not at all. The production hash algorithm, whose code is
  not in the sources, is replaced by FNV-1a as the specification describes it (component
  Identity Hasher, partly modelled), and the row types and path type by the
  specification's description (Row decoding, partly modelled). The code of the
  file-location store is not in the sources: \<open>File_Store\<close> follows the specification's
  interface, a plain insert of a row under a given id, without the deletion, renaming or
  id allocation the specification does not describe; in \<open>Index_Machine\<close> its writes are
  arbitrary \<open>SetFileInfo\<close> steps whose obligations \<open>Store_Typing\<close> states. The callers
  are represented by the run harnesses only. Of the engine, a storage failure is modelled
  as an error that writes nothing, not as the engine's recovery; locking and isolation
  beyond the per-statement commits of \<open>Interleaving\<close>, and the prepared-statement cache
  (a performance device), are delegated by the code to SQLite and not modelled. Only the
  scenario checks and the witnesses of C2, C4, C14, C15, C26, C31 and C35 evaluate
  hashes (to know that sample names differ in hash); every other theorem holds for the
  hash as a parameter of the model.

  \<^bold>\<open>Further work.\<close> The other symbol kinds of the naming index as instances of the
  same table with their own \<open>dep_type\<close>, and the separation of their key spaces; these
  tables are not among the modelled sources.
\<close>

section \<open>End-to-end scenarios\<close>

text \<open>
  Scenario one of the specification, evaluated. On a database whose file table records file 123
  at \<open>root|foo.php\<close>: create the table, insert \<open>["Foo"]\<close> for file 123; then
  \<open>get_path("Foo")\<close> returns that path and \<open>get_path("Bar")\<close> returns \<open>None\<close>.
\<close>

theorem scenario_one:
  "let conn0 = \<lparr>naming_consts = None,
         naming_file_info = Some [123 \<mapsto> \<lparr>path_prefix_type = SqlInteger 0, path_suffix = SqlText ''foo.php''\<rparr>]\<rparr>;
       (r1, conn1) = create_table conn0;
       (r2, conn2) = insert_consts conn1 123 [''Foo'']
   in r1 = Inr () \<and> r2 = Inr () \<and>
      get_path conn2 ''Foo'' = Inr (Some (RelativePath Root ''foo.php'')) \<and>
      get_path conn2 ''Bar'' = Inr None"
  by (simp add: index_simps)

text \<open>
  Scenario two of the specification, evaluated. Insert \<open>["A", "B"]\<close> for file 1 and
  \<open>["C"]\<close> for file 2; both inserts succeed, \<open>A\<close> and \<open>B\<close> resolve to file 1's
  path and \<open>C\<close> to file 2's.
\<close>

theorem scenario_two:
  "let fi = [1 \<mapsto> \<lparr>path_prefix_type = SqlInteger 0, path_suffix = SqlText ''a.php''\<rparr>,
             2 \<mapsto> \<lparr>path_prefix_type = SqlInteger 1, path_suffix = SqlText ''c.hhi''\<rparr>];
       conn0 = \<lparr>naming_consts = None, naming_file_info = Some fi\<rparr>;
       (r1, conn1) = create_table conn0;
       (r2, conn2) = insert_consts conn1 1 [''A'', ''B''];
       (r3, conn3) = insert_consts conn2 2 [''C'']
   in r1 = Inr () \<and> r2 = Inr () \<and> r3 = Inr () \<and>
      get_path conn3 ''A'' = Inr (Some (RelativePath Root ''a.php'')) \<and>
      get_path conn3 ''B'' = Inr (Some (RelativePath Root ''a.php'')) \<and>
      get_path conn3 ''C'' = Inr (Some (RelativePath Hhi ''c.hhi''))"
  by (simp add: index_simps)

end
